(* ===== verification/Prelude.thy ===== *)
theory Prelude
  imports Main "HOL-Library.AList" "HOL-Library.Multiset"
begin

text \<open>
  The shared base of the development.  It fixes how the Go code of the repository is rendered:

  \<^item> a Go \<open>string\<close> is a sequence of bytes, that is an Isabelle \<^typ>\<open>string\<close> (a list of 8-bit
    characters);
  \<^item> a function that returns \<open>(T, error)\<close> returns \<^typ>\<open>'e + 'a\<close>, \<^term>\<open>Inl\<close> for the error;
  \<^item> a Go \<open>map\<close> that the code ranges over is an association list (its order is the order in
    which the runtime happens to iterate), with \<^const>\<open>map_of\<close> as the index expression;
  \<^item> \<open>int\<close> and \<open>int64\<close> are 64-bit two's complement: \<^typ>\<open>int\<close> with \<open>wrap64\<close> written at
    every operation that can overflow.

  The theory also holds the generic lemmas the components share: loops that collect results and
  stop at the first error (\<open>traverse\<close>), stable sorting by a key, and signed wrap-around.
\<close>

named_theorems result_simps \<open>inversion rules for computations that return a sum\<close>
named_theorems go_eval \<open>equations that evaluate the modelled Go library on concrete input\<close>

type_synonym ('k, 'v) gomap = "('k \<times> 'v) list"

text \<open>The run-time panics the modelled code can reach.\<close>

datatype panic =
    DivideByZero
  | NilDereference
  | MakeSliceOutOfRange
  | InvalidWriteHeaderCode int
  | SendOnClosedChannel
  | AbortHandler

section \<open>Error results\<close>

text \<open>A Go loop \<open>for _, v := range xs { y, err := f(v); if err != nil { return nil, err };
  ys = append(ys, y) }\<close>.\<close>

fun traverse :: "('a \<Rightarrow> 'e + 'b) \<Rightarrow> 'a list \<Rightarrow> 'e + 'b list" where
  "traverse f [] = Inr []"
| "traverse f (x # xs) =
     (case f x of Inl e \<Rightarrow> Inl e
      | Inr y \<Rightarrow> (case traverse f xs of Inl e \<Rightarrow> Inl e | Inr ys \<Rightarrow> Inr (y # ys)))"

lemma traverse_cong [fundef_cong]:
  "xs = ys \<Longrightarrow> (\<And>x. x \<in> set ys \<Longrightarrow> f x = g x) \<Longrightarrow> traverse f xs = traverse g ys"
proof (induction xs arbitrary: ys)
  case Nil
  then show ?case by simp
next
  case (Cons x xs)
  then show ?case by (cases ys) (auto split: sum.splits)
qed

lemma traverse_Inr_iff [result_simps]:
  "traverse f xs = Inr ys \<longleftrightarrow> list_all2 (\<lambda>x y. f x = Inr y) xs ys"
proof (induction xs arbitrary: ys)
  case Nil
  then show ?case by auto
next
  case (Cons x xs)
  show ?case
  proof (cases "f x")
    case (Inl e)
    then show ?thesis by (simp add: list_all2_Cons1)
  next
    case (Inr y)
    show ?thesis
    proof (cases "traverse f xs")
      case (Inl e)
      with Cons.IH have "\<not> list_all2 (\<lambda>x y. f x = Inr y) xs zs" for zs by (metis sum.distinct(1))
      with Inl Inr show ?thesis by (simp add: list_all2_Cons1)
    next
      case (Inr zs)
      with \<open>f x = Inr y\<close> Cons.IH show ?thesis by (auto simp: list_all2_Cons1)
    qed
  qed
qed

lemma traverse_Inl_iff:
  "(\<exists>e. traverse f xs = Inl e) \<longleftrightarrow> (\<exists>x \<in> set xs. \<exists>e. f x = Inl e)"
  by (induction xs) (auto split: sum.splits)

lemma traverse_total:
  "(\<And>x. x \<in> set xs \<Longrightarrow> \<exists>y. f x = Inr y) \<Longrightarrow> \<exists>ys. traverse f xs = Inr ys"
proof -
  assume ok: "\<And>x. x \<in> set xs \<Longrightarrow> \<exists>y. f x = Inr y"
  have "\<not> (\<exists>e. traverse f xs = Inl e)"
    unfolding traverse_Inl_iff using ok by fastforce
  then show ?thesis by (cases "traverse f xs") auto
qed

lemma traverse_first_error:
  "traverse f xs = Inl e \<Longrightarrow>
     \<exists>pre x post. xs = pre @ x # post \<and> f x = Inl e \<and> (\<forall>p \<in> set pre. \<exists>y. f p = Inr y)"
proof (induction xs)
  case Nil
  then show ?case by simp
next
  case (Cons a xs)
  show ?case
  proof (cases "f a")
    case (Inl e')
    with Cons.prems have "f a = Inl e" by simp
    then have "a # xs = [] @ a # xs \<and> f a = Inl e \<and> (\<forall>p \<in> set []. \<exists>y. f p = Inr y)" by simp
    then show ?thesis by blast
  next
    case (Inr y)
    with Cons.prems have "traverse f xs = Inl e" by (simp split: sum.splits)
    from Cons.IH [OF this] obtain pre x post where
      "xs = pre @ x # post" "f x = Inl e" "\<forall>p \<in> set pre. \<exists>y. f p = Inr y" by blast
    with Inr have "a # xs = (a # pre) @ x # post \<and> f x = Inl e
      \<and> (\<forall>p \<in> set (a # pre). \<exists>y. f p = Inr y)" by simp
    then show ?thesis by blast
  qed
qed

section \<open>64-bit signed arithmetic\<close>

definition wrap64 :: "int \<Rightarrow> int" where
  "wrap64 x = (x + 9223372036854775808) mod 18446744073709551616 - 9223372036854775808"

definition int64_ok :: "int \<Rightarrow> bool" where
  "int64_ok x \<longleftrightarrow> - 9223372036854775808 \<le> x \<and> x < 9223372036854775808"

lemma wrap64_id [simp]: "int64_ok x \<Longrightarrow> wrap64 x = x"
  by (simp add: wrap64_def int64_ok_def)

lemma wrap64_ok [simp]: "int64_ok (wrap64 x)"
  by (simp add: wrap64_def int64_ok_def)

lemma wrap64_overflow: "wrap64 (2 ^ 63 - 1 + 1) = - (2 ^ 63)"
  by (simp add: wrap64_def)

text \<open>Go's integer division truncates towards zero.\<close>

definition go_div :: "int \<Rightarrow> int \<Rightarrow> int" where
  "go_div a b = sgn a * sgn b * (\<bar>a\<bar> div \<bar>b\<bar>)"

lemma go_div_pos: "0 \<le> a \<Longrightarrow> 0 < b \<Longrightarrow> go_div a b = a div b"
  by (auto simp: go_div_def sgn_if)

section \<open>Pointwise related lists\<close>

lemma list_all2_target:
  "list_all2 P xs ys \<Longrightarrow> (\<And>x y. x \<in> set xs \<Longrightarrow> P x y \<Longrightarrow> Q y) \<Longrightarrow> list_all Q ys"
  by (induction rule: list_all2_induct) auto

lemma list_all2_empty_iff: "list_all2 P xs ys \<Longrightarrow> xs = [] \<longleftrightarrow> ys = []"
  by (cases xs; cases ys) auto

lemma list_all2_all_iff:
  "list_all2 R xs ys \<Longrightarrow> (\<And>x y. x \<in> set xs \<Longrightarrow> R x y \<Longrightarrow> Q y \<longleftrightarrow> P x) \<Longrightarrow>
     (list_all Q ys \<longleftrightarrow> (\<forall>x \<in> set xs. P x)) \<and> (list_ex Q ys \<longleftrightarrow> (\<exists>x \<in> set xs. P x))"
  by (induction rule: list_all2_induct) auto

section \<open>Stable sorting by a key\<close>

text \<open>\<open>sort.SliceStable(xs, func(i, j int) bool { return key(xs[i]) < key(xs[j]) })\<close> is the
  stable sort of the library, \<^const>\<open>sort_key\<close>.\<close>

lemma sort_key_filter_stable: "filter (\<lambda>x. f x = k) (sort_key f xs) = filter (\<lambda>x. f x = k) xs"
  by (rule sort_key_stable)

section \<open>Parsing a list of rules with distinct identifiers\<close>

text \<open>The loop shared by the rule parsers: \<open>seen\<close> holds the identifiers met so far, and the
  compiled rules are collected until the first error.\<close>

fun traverse_seen :: "('k list \<Rightarrow> 'a \<Rightarrow> 'e + 'b) \<Rightarrow> ('a \<Rightarrow> 'k) \<Rightarrow> 'k list \<Rightarrow> 'a list \<Rightarrow> 'e + 'b list" where
  "traverse_seen f key seen [] = Inr []"
| "traverse_seen f key seen (v # vs) =
     (case f seen v of
        Inl e \<Rightarrow> Inl e
      | Inr r \<Rightarrow>
          (case traverse_seen f key (key v # seen) vs of
             Inl e \<Rightarrow> Inl e
           | Inr rs \<Rightarrow> Inr (r # rs)))"

locale rule_parser =
  fixes parse :: "'k list \<Rightarrow> 'a \<Rightarrow> 'e + 'b"
    and key :: "'a \<Rightarrow> 'k"
    and rule_key :: "'b \<Rightarrow> 'k"
    and priority :: "'b \<Rightarrow> int"
  assumes parse_fresh: "parse seen v = Inr r \<Longrightarrow> key v \<notin> set seen"
    and parse_key: "parse seen v = Inr r \<Longrightarrow> rule_key r = key v"
    and parse_seen: "parse seen v = Inr r \<Longrightarrow> key v \<notin> set seen' \<Longrightarrow> parse seen' v = Inr r"
begin

lemma loop_Inr_iff:
  "traverse_seen parse key seen vs = Inr rs \<longleftrightarrow>
     list_all2 (\<lambda>v r. parse [] v = Inr r) vs rs \<and> distinct (map key vs) \<and> key ` set vs \<inter> set seen = {}"
proof (induction vs arbitrary: seen rs)
  case Nil
  then show ?case by auto
next
  case (Cons v vs)
  have step: "parse seen v = Inr r \<longleftrightarrow> parse [] v = Inr r \<and> key v \<notin> set seen" for r
    using parse_fresh parse_seen by (metis empty_iff empty_set)
  have "traverse_seen parse key seen (v # vs) = Inr rs \<longleftrightarrow>
      (\<exists>r rs'. rs = r # rs' \<and> parse seen v = Inr r \<and> traverse_seen parse key (key v # seen) vs = Inr rs')"
    by (auto split: sum.splits)
  also have "\<dots> \<longleftrightarrow> (\<exists>r rs'. rs = r # rs' \<and> parse [] v = Inr r \<and> list_all2 (\<lambda>v r. parse [] v = Inr r) vs rs') \<and>
      key v \<notin> set seen \<and> distinct (map key vs) \<and> key ` set vs \<inter> set (key v # seen) = {}"
    unfolding step Cons.IH by blast
  finally show ?case by (auto simp: list_all2_Cons1)
qed

lemma loop_keys: "traverse_seen parse key seen vs = Inr rs \<Longrightarrow> map rule_key rs = map key vs"
  unfolding loop_Inr_iff using parse_key by (auto simp: list_all2_conv_all_nth intro!: nth_equalityI)

lemma sorted_rules:
  assumes "traverse_seen parse key [] vs = Inr rs"
  shows "sorted (map priority (sort_key priority rs))"
    and "distinct (map rule_key (sort_key priority rs))"
    and "mset (sort_key priority rs) = mset rs"
    and "filter (\<lambda>r. priority r = p) (sort_key priority rs) = filter (\<lambda>r. priority r = p) rs"
    and "r \<in> set (sort_key priority rs) \<Longrightarrow> \<exists>v \<in> set vs. parse [] v = Inr r"
proof -
  have "distinct (map rule_key rs)"
    using assms loop_keys [OF assms] by (simp add: loop_Inr_iff)
  moreover have "mset (map rule_key (sort_key priority rs)) = mset (map rule_key rs)" by simp
  ultimately show "distinct (map rule_key (sort_key priority rs))" using mset_eq_imp_distinct_iff by blast
  show "sorted (map priority (sort_key priority rs))" by simp
  show "mset (sort_key priority rs) = mset rs" by simp
  show "filter (\<lambda>r. priority r = p) (sort_key priority rs) = filter (\<lambda>r. priority r = p) rs"
    by (rule sort_key_filter_stable)
  assume "r \<in> set (sort_key priority rs)"
  then have "r \<in> set rs" by simp
  with assms show "\<exists>v \<in> set vs. parse [] v = Inr r"
    unfolding loop_Inr_iff by (metis (mono_tags, lifting) in_set_conv_nth list_all2_conv_all_nth)
qed

end

section \<open>Searching a list in order\<close>

lemma find_append_first:
  "\<not> (\<exists>x \<in> set pre. P x) \<Longrightarrow> P y \<Longrightarrow> find P (pre @ y # post) = Some y"
  by (induction pre) auto

lemma find_Some_split:
  "find P xs = Some y \<Longrightarrow> \<exists>pre post. xs = pre @ y # post \<and> P y \<and> (\<forall>x \<in> set pre. \<not> P x)"
proof (induction xs)
  case Nil
  then show ?case by simp
next
  case (Cons a xs)
  show ?case
  proof (cases "P a")
    case True
    with Cons.prems have "a # xs = [] @ y # xs \<and> P y \<and> (\<forall>x \<in> set []. \<not> P x)" by simp
    then show ?thesis by blast
  next
    case False
    with Cons.prems Cons.IH obtain pre post where
      "xs = pre @ y # post" "P y" "\<forall>x \<in> set pre. \<not> P x" by auto
    with False have "a # xs = (a # pre) @ y # post \<and> P y \<and> (\<forall>x \<in> set (a # pre). \<not> P x)" by simp
    then show ?thesis by blast
  qed
qed

lemma find_ex: "(\<exists>x \<in> set xs. P x) \<Longrightarrow> \<exists>y \<in> set xs. P y \<and> find P xs = Some y"
  by (metis find_None_iff find_Some_iff nth_mem option.exhaust)

lemma find_sorted_least:
  "sorted (map f xs) \<Longrightarrow> find P xs = Some y \<Longrightarrow> x \<in> set xs \<Longrightarrow> P x \<Longrightarrow> f y \<le> f x"
  by (induction xs) (auto split: if_splits)

lemma find_Some_in: "find P xs = Some y \<Longrightarrow> y \<in> set xs \<and> P y"
  by (auto simp: find_Some_iff)

end
