(* ===== verification/Go_Strings.thy ===== *)
theory Go_Strings
  imports Prelude
begin

text \<open>
  The parts of Go's \<open>strings\<close>, \<open>strconv\<close>, \<open>unicode/utf8\<close> and \<open>encoding/hex\<close> packages that the
  repository calls, as functions on byte strings.  Where Go consults the Unicode character
  tables (lower-casing, case folding, letter and digit classes of code points from 128 on) the
  model takes the tables as the argument \<open>U\<close> of type \<open>unicode\<close>; code points below 128 and the
  white-space class are written out.
\<close>

section \<open>Bytes, code points and UTF-8\<close>

abbreviation byte :: "char \<Rightarrow> nat" where
  "byte c \<equiv> of_char c"

record unicode =
  uni_ToLower :: "nat \<Rightarrow> nat"
  uni_EqualFold :: "nat \<Rightarrow> nat \<Rightarrow> bool"
  uni_IsLetter :: "nat \<Rightarrow> bool"
  uni_IsDigit :: "nat \<Rightarrow> bool"

text \<open>The tables of a program that treats every code point from 128 on as an unknown symbol.\<close>

definition ascii_tables :: unicode where
  "ascii_tables = \<lparr>uni_ToLower = id, uni_EqualFold = (=), uni_IsLetter = (\<lambda>_. False),
     uni_IsDigit = (\<lambda>_. False)\<rparr>"

definition is_ascii :: "string \<Rightarrow> bool" where
  "is_ascii s \<longleftrightarrow> list_all (\<lambda>c. byte c < 128) s"

definition RuneError :: nat where
  "RuneError = 0xFFFD"

definition cont_byte :: "nat \<Rightarrow> bool" where
  "cont_byte b \<longleftrightarrow> 0x80 \<le> b \<and> b \<le> 0xBF"

text \<open>The admissible range of the second byte, given the first one (the accept ranges of
  \<open>utf8\<close>), and the decoding of the first code point of a byte sequence with its width.\<close>

definition second_ok :: "nat \<Rightarrow> nat \<Rightarrow> bool" where
  "second_ok b0 b1 \<longleftrightarrow>
     (if b0 = 0xE0 then 0xA0 \<le> b1 \<and> b1 \<le> 0xBF
      else if b0 = 0xED then 0x80 \<le> b1 \<and> b1 \<le> 0x9F
      else if b0 = 0xF0 then 0x90 \<le> b1 \<and> b1 \<le> 0xBF
      else if b0 = 0xF4 then 0x80 \<le> b1 \<and> b1 \<le> 0x8F
      else cont_byte b1)"

fun decode_rune :: "nat list \<Rightarrow> nat \<times> nat" where
  "decode_rune [] = (RuneError, 0)"
| "decode_rune (b0 # bs) =
     (if b0 < 0x80 then (b0, 1)
      else if 0xC2 \<le> b0 \<and> b0 \<le> 0xDF then
        (case bs of b1 # _ \<Rightarrow>
           if cont_byte b1 then ((b0 - 0xC0) * 64 + (b1 - 0x80), 2) else (RuneError, 1)
         | _ \<Rightarrow> (RuneError, 1))
      else if 0xE0 \<le> b0 \<and> b0 \<le> 0xEF then
        (case bs of b1 # b2 # _ \<Rightarrow>
           if second_ok b0 b1 \<and> cont_byte b2
           then ((b0 - 0xE0) * 4096 + (b1 - 0x80) * 64 + (b2 - 0x80), 3) else (RuneError, 1)
         | _ \<Rightarrow> (RuneError, 1))
      else if 0xF0 \<le> b0 \<and> b0 \<le> 0xF4 then
        (case bs of b1 # b2 # b3 # _ \<Rightarrow>
           if second_ok b0 b1 \<and> cont_byte b2 \<and> cont_byte b3
           then ((b0 - 0xF0) * 262144 + (b1 - 0x80) * 4096 + (b2 - 0x80) * 64 + (b3 - 0x80), 4)
           else (RuneError, 1)
         | _ \<Rightarrow> (RuneError, 1))
      else (RuneError, 1))"

lemma decode_rune_width: "0 < snd (decode_rune (b # bs))"
  by (auto split: list.split)

function runes_of :: "nat list \<Rightarrow> nat list" where
  "runes_of [] = []"
| "runes_of (b # bs) =
     (let (r, w) = decode_rune (b # bs) in r # runes_of (drop w (b # bs)))"
  by pat_completeness auto
termination
proof (relation "measure length")
  fix b :: nat and bs x r w
  assume "x = decode_rune (b # bs)" and "(r, w) = x"
  then have "0 < w" using decode_rune_width [of b bs] by (metis snd_conv)
  then show "(drop w (b # bs), b # bs) \<in> measure length" by (cases w) auto
qed simp

declare runes_of.simps(2) [simp del]

text \<open>The loop \<open>for _, r := range s\<close> visits these code points.\<close>

definition runes :: "string \<Rightarrow> nat list" where
  "runes s = runes_of (map of_char s)"

definition encode_rune :: "nat \<Rightarrow> string" where
  "encode_rune r = map char_of
     (if r < 0x80 then [r]
      else if r < 0x800 then [0xC0 + r div 64, 0x80 + r mod 64]
      else if r < 0x10000 then [0xE0 + r div 4096, 0x80 + (r div 64) mod 64, 0x80 + r mod 64]
      else [0xF0 + r div 262144, 0x80 + (r div 4096) mod 64, 0x80 + (r div 64) mod 64,
            0x80 + r mod 64])"

lemma runes_of_ascii: "list_all (\<lambda>b. b < 128) bs \<Longrightarrow> runes_of bs = bs"
  by (induction bs) (auto simp: runes_of.simps)

lemma runes_ascii: "is_ascii s \<Longrightarrow> runes s = map of_char s"
  by (simp add: runes_def is_ascii_def runes_of_ascii list.pred_map comp_def)

section \<open>Character classes\<close>

definition ascii_upper :: "nat \<Rightarrow> bool" where
  "ascii_upper r \<longleftrightarrow> 65 \<le> r \<and> r \<le> 90"

definition ascii_letter :: "nat \<Rightarrow> bool" where
  "ascii_letter r \<longleftrightarrow> ascii_upper r \<or> (97 \<le> r \<and> r \<le> 122)"

definition ascii_digit :: "nat \<Rightarrow> bool" where
  "ascii_digit r \<longleftrightarrow> 48 \<le> r \<and> r \<le> 57"

text \<open>Adding 32 to an upper-case letter sets the bit of weight 32.\<close>

definition ascii_lower :: "char \<Rightarrow> char" where
  "ascii_lower c =
     (if ascii_upper (byte c)
      then (case c of Char b0 b1 b2 b3 b4 b5 b6 b7 \<Rightarrow> Char b0 b1 b2 b3 b4 True b6 b7) else c)"

definition unicode_IsLetter :: "unicode \<Rightarrow> nat \<Rightarrow> bool" where
  "unicode_IsLetter U r \<longleftrightarrow> (if r < 128 then ascii_letter r else uni_IsLetter U r)"

definition unicode_IsDigit :: "unicode \<Rightarrow> nat \<Rightarrow> bool" where
  "unicode_IsDigit U r \<longleftrightarrow> (if r < 128 then ascii_digit r else uni_IsDigit U r)"

definition unicode_ToLower :: "unicode \<Rightarrow> nat \<Rightarrow> nat" where
  "unicode_ToLower U r =
     (if r < 128 then (if ascii_upper r then r + 32 else r) else uni_ToLower U r)"

section \<open>Package strings\<close>

definition strings_ToLower :: "unicode \<Rightarrow> string \<Rightarrow> string" where
  "strings_ToLower U s =
     (if is_ascii s then map ascii_lower s
      else concat (map (\<lambda>r. encode_rune (unicode_ToLower U r)) (runes s)))"

definition strings_HasPrefix :: "string \<Rightarrow> string \<Rightarrow> bool" where
  "strings_HasPrefix s p \<longleftrightarrow> take (length p) s = p"

definition strings_HasSuffix :: "string \<Rightarrow> string \<Rightarrow> bool" where
  "strings_HasSuffix s p \<longleftrightarrow> strings_HasPrefix (rev s) (rev p)"

definition strings_TrimPrefix :: "string \<Rightarrow> string \<Rightarrow> string" where
  "strings_TrimPrefix s p = (if strings_HasPrefix s p then drop (length p) s else s)"

definition strings_TrimSuffix :: "string \<Rightarrow> string \<Rightarrow> string" where
  "strings_TrimSuffix s p =
     (if strings_HasSuffix s p then take (length s - length p) s else s)"

fun strings_Contains :: "string \<Rightarrow> string \<Rightarrow> bool" where
  "strings_Contains [] t \<longleftrightarrow> t = []"
| "strings_Contains (c # s) t \<longleftrightarrow> strings_HasPrefix (c # s) t \<or> strings_Contains s t"

definition strings_ContainsAny :: "string \<Rightarrow> string \<Rightarrow> bool" where
  "strings_ContainsAny s cs \<longleftrightarrow> list_ex (\<lambda>c. c \<in> set cs) s"

definition strings_Trim :: "string \<Rightarrow> string \<Rightarrow> string" where
  "strings_Trim s cs =
     rev (dropWhile (\<lambda>c. c \<in> set cs) (rev (dropWhile (\<lambda>c. c \<in> set cs) s)))"

definition strings_TrimRight :: "string \<Rightarrow> string \<Rightarrow> string" where
  "strings_TrimRight s cs = rev (dropWhile (\<lambda>c. c \<in> set cs) (rev s))"

text \<open>\<open>strings.Split\<close> and \<open>strings.Cut\<close> with a separator of one byte.\<close>

fun split_on :: "char \<Rightarrow> string \<Rightarrow> string list" where
  "split_on d [] = [[]]"
| "split_on d (c # s) =
     (if c = d then [] # split_on d s
      else (case split_on d s of w # ws \<Rightarrow> (c # w) # ws | [] \<Rightarrow> [[c]]))"

definition strings_Cut :: "char \<Rightarrow> string \<Rightarrow> string \<times> string \<times> bool" where
  "strings_Cut d s = (takeWhile (\<lambda>c. c \<noteq> d) s, drop 1 (dropWhile (\<lambda>c. c \<noteq> d) s), d \<in> set s)"

text \<open>The last occurrence of a byte: what stands before and after it.\<close>

definition cut_last :: "char \<Rightarrow> string \<Rightarrow> (string \<times> string) option" where
  "cut_last d s =
     (if d \<in> set s
      then Some (rev (drop 1 (dropWhile (\<lambda>c. c \<noteq> d) (rev s))), rev (takeWhile (\<lambda>c. c \<noteq> d) (rev s)))
      else None)"

fun strings_Join :: "string list \<Rightarrow> string \<Rightarrow> string" where
  "strings_Join [] sep = []"
| "strings_Join [x] sep = x"
| "strings_Join (x # xs) sep = x @ sep @ strings_Join xs sep"

text \<open>\<open>strings.TrimSpace\<close> removes code points of the class White\_Space at both ends.  A byte
  string starts (ends) with such a code point exactly if it starts (ends) with its encoding.\<close>

definition space_encodings :: "string list" where
  "space_encodings =
     [[CHR 0x09], [CHR 0x0A], [CHR 0x0B], [CHR 0x0C], [CHR 0x0D], [CHR 0x20],
      [CHR 0xC2, CHR 0x85], [CHR 0xC2, CHR 0xA0], [CHR 0xE1, CHR 0x9A, CHR 0x80],
      [CHR 0xE2, CHR 0x80, CHR 0x80], [CHR 0xE2, CHR 0x80, CHR 0x81],
      [CHR 0xE2, CHR 0x80, CHR 0x82], [CHR 0xE2, CHR 0x80, CHR 0x83],
      [CHR 0xE2, CHR 0x80, CHR 0x84], [CHR 0xE2, CHR 0x80, CHR 0x85],
      [CHR 0xE2, CHR 0x80, CHR 0x86], [CHR 0xE2, CHR 0x80, CHR 0x87],
      [CHR 0xE2, CHR 0x80, CHR 0x88], [CHR 0xE2, CHR 0x80, CHR 0x89],
      [CHR 0xE2, CHR 0x80, CHR 0x8A], [CHR 0xE2, CHR 0x80, CHR 0xA8],
      [CHR 0xE2, CHR 0x80, CHR 0xA9], [CHR 0xE2, CHR 0x80, CHR 0xAF],
      [CHR 0xE2, CHR 0x81, CHR 0x9F], [CHR 0xE3, CHR 0x80, CHR 0x80]]"

lemma space_encodings_nonempty: "e \<in> set space_encodings \<Longrightarrow> e \<noteq> []"
  by (auto simp: space_encodings_def)

function trim_left_any :: "string list \<Rightarrow> string \<Rightarrow> string" where
  "trim_left_any es s =
     (case find (\<lambda>e. e \<noteq> [] \<and> strings_HasPrefix s e) es of
        Some e \<Rightarrow> trim_left_any es (drop (length e) s)
      | None \<Rightarrow> s)"
  by pat_completeness auto
termination
proof (relation "measure (\<lambda>(es, s). length s)")
  fix es :: "string list" and s e
  assume "find (\<lambda>e. e \<noteq> [] \<and> strings_HasPrefix s e) es = Some e"
  then have "e \<noteq> []" and "strings_HasPrefix s e" by (auto simp: find_Some_iff)
  then have "0 < length e" and "s \<noteq> []" by (auto simp: strings_HasPrefix_def)
  then show "((es, drop (length e) s), es, s) \<in> measure (\<lambda>(es, s). length s)" by simp
qed simp

declare trim_left_any.simps [simp del]

definition strings_TrimSpace :: "string \<Rightarrow> string" where
  "strings_TrimSpace s =
     rev (trim_left_any (map rev space_encodings) (rev (trim_left_any space_encodings s)))"

text \<open>\<open>strings.EqualFold\<close>: the strings have the same code points up to case folding.\<close>

definition rune_fold_eq :: "unicode \<Rightarrow> nat \<Rightarrow> nat \<Rightarrow> bool" where
  "rune_fold_eq U a b \<longleftrightarrow>
     a = b \<or>
     (let lo = min a b; hi = max a b in
      if hi < 128 then ascii_upper lo \<and> hi = lo + 32 else uni_EqualFold U lo hi)"

definition strings_EqualFold :: "unicode \<Rightarrow> string \<Rightarrow> string \<Rightarrow> bool" where
  "strings_EqualFold U s t \<longleftrightarrow> list_all2 (rune_fold_eq U) (runes s) (runes t)"

section \<open>Packages strconv and encoding/hex\<close>

definition digit_char :: "nat \<Rightarrow> char" where
  "digit_char d = ''0123456789'' ! d"

fun show_nat :: "nat \<Rightarrow> string" where
  "show_nat n = (if n < 10 then [digit_char n] else show_nat (n div 10) @ [digit_char (n mod 10)])"

declare show_nat.simps [simp del]

definition strconv_Itoa :: "int \<Rightarrow> string" where
  "strconv_Itoa i = (if i < 0 then CHR ''-'' # show_nat (nat (- i)) else show_nat (nat i))"

definition is_digit_char :: "char \<Rightarrow> bool" where
  "is_digit_char c \<longleftrightarrow> ascii_digit (byte c)"

definition read_nat :: "string \<Rightarrow> nat" where
  "read_nat s = foldl (\<lambda>n c. n * 10 + (byte c - 48)) 0 s"

text \<open>\<open>strconv.ParseInt(s, 10, 64)\<close>, which \<open>strconv.Atoi\<close> agrees with on a 64-bit platform:
  an optional sign, at least one digit, nothing else, and the value fits.\<close>

definition strconv_ParseInt :: "string \<Rightarrow> int option" where
  "strconv_ParseInt s =
     (let neg = (case s of c # _ \<Rightarrow> c = CHR ''-'' | [] \<Rightarrow> False);
          ds = (case s of c # r \<Rightarrow> if c = CHR ''-'' \<or> c = CHR ''+'' then r else s | [] \<Rightarrow> s);
          v = (if neg then - int (read_nat ds) else int (read_nat ds))
      in if ds = [] \<or> \<not> list_all is_digit_char ds \<or> \<not> int64_ok v then None else Some v)"

abbreviation strconv_Atoi :: "string \<Rightarrow> int option" where
  "strconv_Atoi \<equiv> strconv_ParseInt"

text \<open>The value \<open>strconv.Atoi\<close> returns beside its error, for a caller that ignores the error: 0 for a
  malformed numeral, the nearest 64-bit integer for one out of range.\<close>

definition strconv_Atoi_value :: "string \<Rightarrow> int" where
  "strconv_Atoi_value s =
     (let neg = (case s of c # _ \<Rightarrow> c = CHR ''-'' | [] \<Rightarrow> False);
          ds = (case s of c # r \<Rightarrow> if c = CHR ''-'' \<or> c = CHR ''+'' then r else s | [] \<Rightarrow> s);
          v = (if neg then - int (read_nat ds) else int (read_nat ds))
      in if ds = [] \<or> \<not> list_all is_digit_char ds then 0
         else max (- (2 ^ 63)) (min (2 ^ 63 - 1) v))"

definition hex_char :: "nat \<Rightarrow> char" where
  "hex_char d = ''0123456789abcdef'' ! d"

definition hex_EncodeToString :: "string \<Rightarrow> string" where
  "hex_EncodeToString s = concat (map (\<lambda>c. [hex_char (byte c div 16), hex_char (byte c mod 16)]) s)"

section \<open>Facts about the library\<close>

lemma is_ascii_simps [simp]:
  "is_ascii []" "is_ascii (c # s) \<longleftrightarrow> byte c < 128 \<and> is_ascii s"
  "is_ascii (s @ t) \<longleftrightarrow> is_ascii s \<and> is_ascii t"
  by (simp_all add: is_ascii_def)

lemma byte_ascii_lower: "byte (ascii_lower c) = (if ascii_upper (byte c) then byte c + 32 else byte c)"
proof (cases c)
  case (Char b0 b1 b2 b3 b4 b5 b6 b7)
  have "\<not> b5" if "ascii_upper (byte c)"
  proof
    assume b5
    with that Char show False
      by (cases b0; cases b1; cases b2; cases b3; cases b4; cases b6; cases b7)
        (simp_all add: ascii_upper_def)
  qed
  with Char show ?thesis by (auto simp: ascii_lower_def)
qed

lemma ascii_lower_idem [simp]: "ascii_lower (ascii_lower c) = ascii_lower c"
proof (cases "ascii_upper (byte c)")
  case True
  then have "\<not> ascii_upper (byte (ascii_lower c))" by (simp add: byte_ascii_lower ascii_upper_def)
  then show ?thesis by (simp add: ascii_lower_def [of "ascii_lower c"])
next
  case False
  then show ?thesis by (simp add: ascii_lower_def)
qed

lemma is_ascii_map_lower [simp]: "is_ascii (map ascii_lower s) \<longleftrightarrow> is_ascii s"
proof -
  have "byte (ascii_lower c) < 128 \<longleftrightarrow> byte c < 128" for c
    by (auto simp: byte_ascii_lower ascii_upper_def)
  then show ?thesis by (induction s) auto
qed

lemma ToLower_ascii: "is_ascii s \<Longrightarrow> strings_ToLower U s = map ascii_lower s"
  by (simp add: strings_ToLower_def)

lemma is_ascii_ToLower: "is_ascii s \<Longrightarrow> is_ascii (strings_ToLower U s)"
  by (simp add: ToLower_ascii)

lemma ToLower_idem_ascii:
  "is_ascii s \<Longrightarrow> strings_ToLower U (strings_ToLower U s) = strings_ToLower U s"
  by (simp add: ToLower_ascii comp_def)

lemma ToLower_Nil [simp]: "strings_ToLower U [] = []"
  by (simp add: strings_ToLower_def)

lemma HasPrefix_iff: "strings_HasPrefix s p \<longleftrightarrow> (\<exists>t. s = p @ t)"
  unfolding strings_HasPrefix_def by (metis append_eq_conv_conj append_take_drop_id)

lemma HasPrefix_refl_append [simp]: "strings_HasPrefix (p @ t) p"
  by (simp add: HasPrefix_iff)

lemma HasPrefix_Nil [simp]: "strings_HasPrefix s []"
  by (simp add: strings_HasPrefix_def)

lemma Contains_iff: "strings_Contains s t \<longleftrightarrow> (\<exists>pre post. s = pre @ t @ post)"
proof (induction s)
  case Nil
  then show ?case by auto
next
  case (Cons c s)
  show ?case
  proof
    assume "strings_Contains (c # s) t"
    then show "\<exists>pre post. c # s = pre @ t @ post"
    proof (simp, elim disjE)
      assume "strings_HasPrefix (c # s) t"
      then show ?thesis unfolding HasPrefix_iff by (metis append_Nil)
    next
      assume "strings_Contains s t"
      with Cons.IH show ?thesis by (metis append_Cons)
    qed
  next
    assume "\<exists>pre post. c # s = pre @ t @ post"
    then obtain pre post where "c # s = pre @ t @ post" by blast
    then show "strings_Contains (c # s) t"
    proof (cases pre)
      case Nil
      with \<open>c # s = pre @ t @ post\<close> have "strings_HasPrefix (c # s) t" by (simp add: HasPrefix_iff)
      then show ?thesis by simp
    next
      case (Cons a pre')
      with \<open>c # s = pre @ t @ post\<close> have "s = pre' @ t @ post" by simp
      with Cons.IH show ?thesis by auto
    qed
  qed
qed

lemma Contains_char: "strings_Contains s [c] \<longleftrightarrow> c \<in> set s"
  by (auto simp: Contains_iff in_set_conv_decomp)

lemma trim_left_any_id:
  "\<not> (\<exists>e \<in> set es. e \<noteq> [] \<and> strings_HasPrefix s e) \<Longrightarrow> trim_left_any es s = s"
proof -
  assume "\<not> (\<exists>e \<in> set es. e \<noteq> [] \<and> strings_HasPrefix s e)"
  then have "find (\<lambda>e. e \<noteq> [] \<and> strings_HasPrefix s e) es = None" by (simp add: find_None_iff)
  then show ?thesis by (subst trim_left_any.simps) simp
qed

lemma trim_left_any_stop:
  "e \<in> set es \<Longrightarrow> e \<noteq> [] \<Longrightarrow> \<not> strings_HasPrefix (trim_left_any es s) e"
proof (induction es s rule: trim_left_any.induct)
  case (1 es s)
  show ?case
  proof (cases "find (\<lambda>e. e \<noteq> [] \<and> strings_HasPrefix s e) es")
    case None
    then have "trim_left_any es s = s" by (subst trim_left_any.simps) simp
    with None 1(2,3) show ?thesis by (auto simp: find_None_iff)
  next
    case (Some e')
    then have "trim_left_any es s = trim_left_any es (drop (length e') s)"
      by (subst trim_left_any.simps) simp
    with 1 Some show ?thesis by simp
  qed
qed

lemma trim_left_any_suffix: "\<exists>p. s = p @ trim_left_any es s"
proof (induction es s rule: trim_left_any.induct)
  case (1 es s)
  show ?case
  proof (cases "find (\<lambda>e. e \<noteq> [] \<and> strings_HasPrefix s e) es")
    case None
    then show ?thesis by (subst trim_left_any.simps) simp
  next
    case (Some e)
    with 1 obtain p where "drop (length e) s = p @ trim_left_any es (drop (length e) s)" by blast
    then have "s = (take (length e) s @ p) @ trim_left_any es (drop (length e) s)"
      by (metis append_assoc append_take_drop_id)
    with Some have "s = (take (length e) s @ p) @ trim_left_any es s"
      by (simp add: trim_left_any.simps [of es s])
    then show ?thesis by blast
  qed
qed

lemma TrimSpace_infix: "\<exists>p q. s = p @ strings_TrimSpace s @ q"
proof -
  obtain p where p: "s = p @ trim_left_any space_encodings s"
    using trim_left_any_suffix by blast
  obtain q where q: "rev (trim_left_any space_encodings s) = q @
      trim_left_any (map rev space_encodings) (rev (trim_left_any space_encodings s))"
    using trim_left_any_suffix by blast
  then have "trim_left_any space_encodings s = strings_TrimSpace s @ rev q"
    unfolding strings_TrimSpace_def by (metis rev_append rev_rev_ident)
  with p show ?thesis by metis
qed

lemma TrimSpace_id:
  assumes "\<not> (\<exists>e \<in> set space_encodings. strings_HasPrefix s e)"
    and "\<not> (\<exists>e \<in> set space_encodings. strings_HasSuffix s e)"
  shows "strings_TrimSpace s = s"
proof -
  have "trim_left_any space_encodings s = s" using assms(1) by (auto intro!: trim_left_any_id)
  moreover have "trim_left_any (map rev space_encodings) (rev s) = rev s"
    using assms(2) by (auto intro!: trim_left_any_id simp: strings_HasSuffix_def)
  ultimately show ?thesis by (simp add: strings_TrimSpace_def)
qed

lemma TrimSpace_no_prefix:
  assumes "e \<in> set space_encodings"
  shows "\<not> strings_HasPrefix (strings_TrimSpace s) e"
proof -
  obtain q where q: "rev (trim_left_any space_encodings s) = q @
      trim_left_any (map rev space_encodings) (rev (trim_left_any space_encodings s))"
    using trim_left_any_suffix by blast
  then have "trim_left_any space_encodings s = strings_TrimSpace s @ rev q"
    unfolding strings_TrimSpace_def by (metis rev_append rev_rev_ident)
  moreover have "\<not> strings_HasPrefix (trim_left_any space_encodings s) e"
    using assms space_encodings_nonempty by (intro trim_left_any_stop) blast+
  ultimately show ?thesis by (auto simp: HasPrefix_iff)
qed

lemma TrimSpace_no_suffix:
  assumes "e \<in> set space_encodings"
  shows "\<not> strings_HasSuffix (strings_TrimSpace s) e"
proof -
  have "rev e \<in> set (map rev space_encodings)" and "rev e \<noteq> []"
    using assms space_encodings_nonempty by auto
  then show ?thesis
    unfolding strings_HasSuffix_def strings_TrimSpace_def by (simp add: trim_left_any_stop)
qed

lemma TrimSpace_idem [simp]: "strings_TrimSpace (strings_TrimSpace s) = strings_TrimSpace s"
  using TrimSpace_no_prefix TrimSpace_no_suffix by (intro TrimSpace_id) blast+

lemma space_encoding_bytes:
  "e \<in> set space_encodings \<Longrightarrow> byte (hd e) \<le> 32 \<or> 128 \<le> byte (hd e)"
  "e \<in> set space_encodings \<Longrightarrow> byte (last e) \<le> 32 \<or> 128 \<le> byte (last e)"
  by (auto simp: space_encodings_def)

text \<open>A string whose first and last bytes are printable ASCII characters is trimmed already.\<close>

definition graphic :: "char \<Rightarrow> bool" where
  "graphic c \<longleftrightarrow> 32 < byte c \<and> byte c < 128"

lemma TrimSpace_graphic [go_eval]:
  assumes "s = [] \<or> graphic (hd s) \<and> graphic (last s)"
  shows "strings_TrimSpace s = s"
proof (rule TrimSpace_id)
  show "\<not> (\<exists>e \<in> set space_encodings. strings_HasPrefix s e)"
  proof
    assume "\<exists>e \<in> set space_encodings. strings_HasPrefix s e"
    then obtain e t where e: "e \<in> set space_encodings" "s = e @ t" by (auto simp: HasPrefix_iff)
    then have "e \<noteq> []" using space_encodings_nonempty by blast
    then have "hd s = hd e" "s \<noteq> []" using e by auto
    then show False using assms e space_encoding_bytes(1) [of e] by (auto simp: graphic_def)
  qed
  show "\<not> (\<exists>e \<in> set space_encodings. strings_HasSuffix s e)"
  proof
    assume "\<exists>e \<in> set space_encodings. strings_HasSuffix s e"
    then obtain e t where e: "e \<in> set space_encodings" "rev s = rev e @ t"
      by (auto simp: HasPrefix_iff strings_HasSuffix_def)
    then have "e \<noteq> []" using space_encodings_nonempty by blast
    then have "last s = last e" "s \<noteq> []" using e
      by (metis hd_append2 hd_rev rev_is_Nil_conv, auto)
    then show False using assms e space_encoding_bytes(2) [of e] by (auto simp: graphic_def)
  qed
qed

lemma TrimSpace_Nil [simp]: "strings_TrimSpace [] = []"
  using TrimSpace_infix [of "[]"] by auto

lemma is_ascii_TrimSpace: "is_ascii s \<Longrightarrow> is_ascii (strings_TrimSpace s)"
  using TrimSpace_infix [of s] by (metis is_ascii_simps(3))

lemma split_on_nonempty [simp]: "split_on d s \<noteq> []"
  by (induction s) (auto split: list.split)

lemma split_on_no_sep: "w \<in> set (split_on d s) \<Longrightarrow> d \<notin> set w"
proof (induction s arbitrary: w)
  case Nil
  then show ?case by simp
next
  case (Cons c s)
  then show ?case by (cases "split_on d s") (auto split: if_splits)
qed

lemma split_on_id: "d \<notin> set s \<Longrightarrow> split_on d s = [s]"
  by (induction s) auto

lemma split_on_append: "d \<notin> set s \<Longrightarrow> split_on d (s @ d # t) = s # split_on d t"
  by (induction s) auto

lemma split_on_Join: "strings_Join (split_on d s) [d] = s"
proof (induction s)
  case Nil
  then show ?case by simp
next
  case (Cons c s)
  obtain w ws where "split_on d s = w # ws" by (cases "split_on d s") auto
  with Cons show ?case by (cases ws) auto
qed

lemma cut_last_append: "d \<notin> set t \<Longrightarrow> cut_last d (s @ d # t) = Some (s, t)"
proof -
  assume "d \<notin> set t"
  then have "takeWhile (\<lambda>c. c \<noteq> d) (rev t @ d # rev s) = rev t"
    and "dropWhile (\<lambda>c. c \<noteq> d) (rev t @ d # rev s) = d # rev s"
    by (auto simp: takeWhile_append dropWhile_append)
  then show ?thesis by (simp add: cut_last_def)
qed

subsection \<open>Decimal numbers\<close>

lemma byte_digit_char: "d < 10 \<Longrightarrow> byte (digit_char d) = 48 + d"
proof -
  assume "d < 10"
  then have "d \<in> {0, 1, 2, 3, 4, 5, 6, 7, 8, 9}" by auto
  then show ?thesis by (elim insertE emptyE) (simp_all add: digit_char_def)
qed

lemma read_nat_snoc: "read_nat (s @ [c]) = read_nat s * 10 + (byte c - 48)"
  by (simp add: read_nat_def)

lemma read_show_nat [simp]: "read_nat (show_nat n) = n"
proof (induction n rule: show_nat.induct)
  case (1 n)
  show ?case
  proof (cases "n < 10")
    case True
    then show ?thesis by (subst show_nat.simps) (simp add: read_nat_def byte_digit_char)
  next
    case False
    with 1 have "read_nat (show_nat (n div 10)) = n div 10" by simp
    with False show ?thesis
      by (subst show_nat.simps) (simp add: read_nat_snoc byte_digit_char)
  qed
qed

lemma show_nat_digits: "list_all is_digit_char (show_nat n) \<and> show_nat n \<noteq> []"
proof (induction n rule: show_nat.induct)
  case (1 n)
  have "is_digit_char (digit_char d)" if "d < 10" for d
    using that by (simp add: is_digit_char_def byte_digit_char ascii_digit_def)
  with 1 show ?case by (subst (1 2) show_nat.simps) auto
qed

lemma show_nat_hd: "c \<in> set (show_nat n) \<Longrightarrow> 48 \<le> byte c \<and> byte c \<le> 57"
  using show_nat_digits [of n] by (auto simp: list_all_iff is_digit_char_def ascii_digit_def)

lemma ParseInt_Itoa: "int64_ok i \<Longrightarrow> strconv_ParseInt (strconv_Itoa i) = Some i"
proof (cases "i < 0")
  case True
  assume "int64_ok i"
  with True show ?thesis using show_nat_digits [of "nat (- i)"]
    by (simp add: strconv_ParseInt_def strconv_Itoa_def Let_def)
next
  case False
  assume ok: "int64_ok i"
  obtain c r where cr: "show_nat (nat i) = c # r"
    using show_nat_digits [of "nat i"] by (cases "show_nat (nat i)") auto
  then have c: "48 \<le> byte c" using show_nat_hd [of c "nat i"] by simp
  then have "c \<noteq> CHR ''-''" "c \<noteq> CHR ''+''" by auto
  moreover have "int (read_nat (c # r)) = i" using False cr by (metis read_show_nat nat_0_le not_less)
  moreover have "list_all is_digit_char (c # r)" using show_nat_digits [of "nat i"] cr by simp
  ultimately show ?thesis using False ok cr
    by (simp add: strconv_ParseInt_def strconv_Itoa_def Let_def)
qed

lemma show_nat_inj: "show_nat m = show_nat n \<Longrightarrow> m = n"
  by (metis read_show_nat)

lemma Itoa_inj: "strconv_Itoa i = strconv_Itoa j \<Longrightarrow> i = j"
proof -
  have neg: "strconv_Itoa k \<noteq> show_nat n" if "k < 0" for k n
  proof
    assume "strconv_Itoa k = show_nat n"
    with that have "CHR ''-'' \<in> set (show_nat n)"
      by (metis strconv_Itoa_def list.set_intros(1))
    then show False using show_nat_hd by fastforce
  qed
  assume eq: "strconv_Itoa i = strconv_Itoa j"
  show "i = j"
  proof (cases "i < 0 \<longleftrightarrow> j < 0")
    case True
    with eq show ?thesis
      by (auto simp: strconv_Itoa_def split: if_splits dest!: show_nat_inj)
  next
    case False
    with eq neg show ?thesis by (metis strconv_Itoa_def)
  qed
qed

lemma Itoa_chars: "c \<in> set (strconv_Itoa i) \<Longrightarrow> c = CHR ''-'' \<or> is_digit_char c"
  using show_nat_digits by (auto simp: strconv_Itoa_def list_all_iff split: if_splits)

lemma Itoa_nonempty [simp]: "strconv_Itoa i \<noteq> []"
  using show_nat_digits by (auto simp: strconv_Itoa_def)

text \<open>Equations that evaluate the library on concrete strings.\<close>

lemmas string_eval [go_eval] = ascii_letter_def ascii_upper_def ascii_digit_def ascii_lower_def
  is_digit_char_def is_ascii_def graphic_def strings_HasPrefix_def strings_HasSuffix_def strings_Cut_def
  cut_last_def strings_Trim_def strings_TrimSuffix_def strconv_ParseInt_def read_nat_def
  strconv_Itoa_def show_nat.simps digit_char_def int64_ok_def

end
