(* ===== verification/Go_Json.thy ===== *)
theory Go_Json
  imports Go_Strings Prelude
begin

text \<open>
  Go's \<open>encoding/json\<close> as far as the repository uses it: decoding a JSON value into strings,
  integers, booleans, slices, maps, pointers, raw messages and structs.  A decoder takes the value and
  what the target holds before (a \<open>null\<close> leaves a scalar or a struct alone), and returns \<^term>\<open>None\<close> when
  \<open>json.Unmarshal\<close> returns an error.  The reading of the text is not modelled: a document is a value of
  the type \<open>json\<close>, its strings unescaped.  When a slice-valued key occurs twice in an object, the
  second array is decoded into the elements the first one left, as the package does.  (Elements beyond the length
  of the slice start from zero values here; the package would find what an even earlier, longer array left
  in the capacity of the slice, which takes a key that occurs three times.)
\<close>

datatype json =
    JNull
  | JBool bool
  | JInt int
  | JReal string
  | JStr string
  | JArr "json list"
  | JObj "(string \<times> json) list"

section \<open>Loops over options\<close>

fun fold_opt :: "('e \<Rightarrow> 'a \<Rightarrow> 'a option) \<Rightarrow> 'e list \<Rightarrow> 'a \<Rightarrow> 'a option" where
  "fold_opt f [] a = Some a"
| "fold_opt f (x # xs) a = (case f x a of None \<Rightarrow> None | Some b \<Rightarrow> fold_opt f xs b)"

fun collect_opt :: "('a \<Rightarrow> 'b option) \<Rightarrow> 'a list \<Rightarrow> 'b list option" where
  "collect_opt f [] = Some []"
| "collect_opt f (x # xs) =
     (case f x of None \<Rightarrow> None | Some y \<Rightarrow> (case collect_opt f xs of None \<Rightarrow> None | Some ys \<Rightarrow> Some (y # ys)))"

lemma fold_opt_cong [fundef_cong]:
  "xs = ys \<Longrightarrow> a = b \<Longrightarrow> (\<And>x c. x \<in> set ys \<Longrightarrow> f x c = g x c) \<Longrightarrow> fold_opt f xs a = fold_opt g ys b"
proof (induction xs arbitrary: ys a b)
  case (Cons x xs)
  then show ?case by (cases ys) (auto split: option.splits)
qed simp

lemma collect_opt_cong [fundef_cong]:
  "xs = ys \<Longrightarrow> (\<And>x. x \<in> set ys \<Longrightarrow> f x = g x) \<Longrightarrow> collect_opt f xs = collect_opt g ys"
proof (induction xs arbitrary: ys)
  case (Cons x xs)
  then show ?case by (cases ys) (auto split: option.splits)
qed simp

text \<open>The loop over a slice that exists already: element \<open>i\<close> is decoded into the old element \<open>i\<close>, and into a zero
  value beyond the end of the old slice.\<close>

fun collect_into :: "('e \<Rightarrow> 'a \<Rightarrow> 'a option) \<Rightarrow> 'a \<Rightarrow> 'e list \<Rightarrow> 'a list \<Rightarrow> 'a list option" where
  "collect_into f zero [] old = Some []"
| "collect_into f zero (x # xs) old =
     (case f x (case old of [] \<Rightarrow> zero | v # _ \<Rightarrow> v) of None \<Rightarrow> None
      | Some y \<Rightarrow> (case collect_into f zero xs (tl old) of None \<Rightarrow> None | Some ys \<Rightarrow> Some (y # ys)))"

lemma collect_into_cong [fundef_cong]:
  "zero = zero' \<Longrightarrow> xs = ys \<Longrightarrow> old = old' \<Longrightarrow> (\<And>x v. x \<in> set ys \<Longrightarrow> f x v = g x v) \<Longrightarrow>
    collect_into f zero xs old = collect_into g zero' ys old'"
proof (induction xs arbitrary: ys old old')
  case (Cons x xs)
  then show ?case by (cases ys) (auto split: option.splits list.splits)
qed simp

lemma collect_into_fresh: "collect_into f zero xs [] = collect_opt (\<lambda>x. f x zero) xs"
  by (induction xs) (auto split: option.splits)

lemma collect_opt_Some: "collect_opt f xs = Some ys \<longleftrightarrow> list_all2 (\<lambda>x y. f x = Some y) xs ys"
proof (induction xs arbitrary: ys)
  case (Cons x xs)
  then show ?case
    by (cases "f x"; cases "collect_opt f xs") (auto simp: list_all2_Cons1)
qed auto

lemma collect_opt_rel:
  assumes "collect_opt f xs = Some ys" "collect_opt g xs = Some zs" "\<And>x y z. x \<in> set xs \<Longrightarrow> f x = Some y \<Longrightarrow> g x = Some z \<Longrightarrow> R y z"
  shows "list_all2 R ys zs"
  using assms
proof (induction xs arbitrary: ys zs)
  case (Cons x xs)
  from Cons.prems(1,2) obtain y ys' z zs' where
    "f x = Some y" "collect_opt f xs = Some ys'" "ys = y # ys'" "g x = Some z" "collect_opt g xs = Some zs'" "zs = z # zs'"
    by (auto split: option.splits)
  with Cons.IH [of ys' zs'] Cons.prems(3) show ?case by (metis list.set_intros list_all2_Cons)
qed simp

lemma fold_opt_invariant:
  assumes "fold_opt f xs a = Some b" "P a" "\<And>x c d. x \<in> set xs \<Longrightarrow> P c \<Longrightarrow> f x c = Some d \<Longrightarrow> P d"
  shows "P b"
  using assms
proof (induction xs arbitrary: a)
  case (Cons x xs)
  from Cons.prems(1) obtain c where "f x a = Some c" "fold_opt f xs c = Some b" by (auto split: option.splits)
  with Cons.IH [of c] Cons.prems(2,3) show ?case by (metis list.set_intros)
qed simp

lemma fold_opt_rel:
  assumes "fold_opt f xs a = Some b" "fold_opt g xs a' = Some b'" "R a a'"
    and "\<And>x c c' d d'. x \<in> set xs \<Longrightarrow> R c c' \<Longrightarrow> f x c = Some d \<Longrightarrow> g x c' = Some d' \<Longrightarrow> R d d'"
  shows "R b b'"
  using assms
proof (induction xs arbitrary: a a')
  case (Cons x xs)
  from Cons.prems(1,2) obtain c c' where
    "f x a = Some c" "fold_opt f xs c = Some b" "g x a' = Some c'" "fold_opt g xs c' = Some b'"
    by (auto split: option.splits)
  with Cons.IH [of c c'] Cons.prems(3,4) show ?case by (metis list.set_intros)
qed simp

text \<open>The first error of a loop that only checks.\<close>

fun find_error :: "('a \<Rightarrow> 'e option) \<Rightarrow> 'a list \<Rightarrow> 'e option" where
  "find_error f [] = None"
| "find_error f (x # xs) = (case f x of Some e \<Rightarrow> Some e | None \<Rightarrow> find_error f xs)"

lemma find_error_cong [fundef_cong]:
  "xs = ys \<Longrightarrow> (\<And>x. x \<in> set ys \<Longrightarrow> f x = g x) \<Longrightarrow> find_error f xs = find_error g ys"
proof (induction xs arbitrary: ys)
  case (Cons x xs)
  then show ?case by (cases ys) (auto split: option.splits)
qed simp

lemma find_error_None [simp]: "find_error f xs = None \<longleftrightarrow> (\<forall>x \<in> set xs. f x = None)"
  by (induction xs) (auto split: option.splits)

section \<open>Decoders\<close>

definition json_string :: "json \<Rightarrow> string \<Rightarrow> string option" where
  "json_string j old = (case j of JNull \<Rightarrow> Some old | JStr s \<Rightarrow> Some s | _ \<Rightarrow> None)"

definition json_int :: "json \<Rightarrow> int \<Rightarrow> int option" where
  "json_int j old = (case j of JNull \<Rightarrow> Some old | JInt i \<Rightarrow> if int64_ok i then Some i else None | _ \<Rightarrow> None)"

definition json_bool :: "json \<Rightarrow> bool \<Rightarrow> bool option" where
  "json_bool j old = (case j of JNull \<Rightarrow> Some old | JBool b \<Rightarrow> Some b | _ \<Rightarrow> None)"

text \<open>A \<open>json.RawMessage\<close> keeps the value, also a \<open>null\<close>; \<^term>\<open>None\<close> is the empty message of an absent key.\<close>

definition json_raw :: "json \<Rightarrow> json option \<Rightarrow> json option option" where
  "json_raw j old = Some (Some j)"

definition json_slice :: "(json \<Rightarrow> 'a \<Rightarrow> 'a option) \<Rightarrow> 'a \<Rightarrow> json \<Rightarrow> 'a list \<Rightarrow> 'a list option" where
  "json_slice f zero j old = (case j of JNull \<Rightarrow> Some [] | JArr js \<Rightarrow> collect_into f zero js old | _ \<Rightarrow> None)"

definition json_map :: "(json \<Rightarrow> 'a option) \<Rightarrow> json \<Rightarrow> (string, 'a) gomap \<Rightarrow> (string, 'a) gomap option" where
  "json_map f j old =
     (case j of
        JNull \<Rightarrow> Some []
      | JObj es \<Rightarrow> fold_opt (\<lambda>(k, v) m. map_option (\<lambda>x. AList.update k x m) (f v)) es old
      | _ \<Rightarrow> None)"

definition json_ptr :: "(json \<Rightarrow> 'a \<Rightarrow> 'a option) \<Rightarrow> 'a \<Rightarrow> json \<Rightarrow> 'a option \<Rightarrow> 'a option option" where
  "json_ptr f zero j old =
     (case j of JNull \<Rightarrow> Some None | _ \<Rightarrow> map_option Some (f j (case old of Some v \<Rightarrow> v | None \<Rightarrow> zero)))"

text \<open>Keys are matched to field names up to case folding.  \<open>fold_rune\<close> maps a code point to the upper-case ASCII
  letter it folds with, if there is one; the names of fields are ASCII.\<close>

definition fold_ascii :: "nat \<Rightarrow> nat" where
  "fold_ascii r = (if 97 \<le> r \<and> r \<le> 122 then r - 32 else r)"

definition fold_rune :: "unicode \<Rightarrow> nat \<Rightarrow> nat" where
  "fold_rune U r =
     (if r < 128 then fold_ascii r
      else (case find (\<lambda>c. uni_EqualFold U c r) [65..<91] of Some c \<Rightarrow> c | None \<Rightarrow> r))"

definition json_name :: "unicode \<Rightarrow> string \<Rightarrow> nat list" where
  "json_name U key = map (fold_rune U) (runes key)"

definition field_key :: "string \<Rightarrow> nat list" where
  "field_key n = map (\<lambda>c. fold_ascii (byte c)) n"

text \<open>A struct is decoded key by key.  An unknown key is skipped, or an error when the decoder disallows unknown
  fields.\<close>

type_synonym 'r json_fields = "(string \<times> (json \<Rightarrow> 'r \<Rightarrow> 'r option)) list"

definition json_field :: "unicode \<Rightarrow> bool \<Rightarrow> 'r json_fields \<Rightarrow> string \<times> json \<Rightarrow> 'r \<Rightarrow> 'r option" where
  "json_field U strict fs e r =
     (case find (\<lambda>f. json_name U (fst e) = field_key (fst f)) fs of
        Some f \<Rightarrow> snd f (snd e) r
      | None \<Rightarrow> if strict then None else Some r)"

definition json_struct :: "unicode \<Rightarrow> bool \<Rightarrow> 'r json_fields \<Rightarrow> json \<Rightarrow> 'r \<Rightarrow> 'r option" where
  "json_struct U strict fs j r =
     (case j of
        JNull \<Rightarrow> Some r
      | JObj es \<Rightarrow> fold_opt (json_field U strict fs) es r
      | _ \<Rightarrow> None)"

lemma json_slice_cong [fundef_cong]:
  assumes "zero = zero'" "j = j'" "old = old'" "\<And>js x v. j' = JArr js \<Longrightarrow> x \<in> set js \<Longrightarrow> f x v = g x v"
  shows "json_slice f zero j old = json_slice g zero' j' old'"
  using assms collect_into_cong by (cases j') (auto simp: json_slice_def intro!: collect_into_cong)

text \<open>A slice that starts empty.\<close>

lemma json_slice_fresh:
  "json_slice f zero j [] = (case j of JNull \<Rightarrow> Some [] | JArr js \<Rightarrow> collect_opt (\<lambda>x. f x zero) js | _ \<Rightarrow> None)"
  by (simp add: json_slice_def collect_into_fresh split: json.split)

lemma json_arr_smaller [termination_simp]: "x \<in> set js \<Longrightarrow> size x < Suc (size_list size js)"
  by (induction js) auto

lemma json_obj_smaller: "(k, v) \<in> set es \<Longrightarrow> size v < size (JObj es)"
  by (induction es) auto

end
