(* ===== verification/Go_Netip_Facts.thy ===== *)
theory Go_Netip_Facts
  imports Go_Netip
begin

text \<open>
  Facts about the network library: the printer of addresses and the parser are inverse to each
  other, a prefix matches an address exactly if both have the same leading bits, and matching
  does not depend on the host bits of the prefix.
\<close>

section \<open>IPv4 addresses\<close>

lemma show_nat_hd_nonzero: "0 < n \<Longrightarrow> hd (show_nat n) \<noteq> CHR ''0''"
proof (induction n rule: show_nat.induct)
  case (1 n)
  show ?case
  proof (cases "n < 10")
    case True
    have "byte (digit_char n) \<noteq> 48" using True 1(2) byte_digit_char [of n] by simp
    then have "digit_char n \<noteq> CHR ''0''" by auto
    with True show ?thesis by (subst show_nat.simps) simp
  next
    case False
    with 1 have "hd (show_nat (n div 10)) \<noteq> CHR ''0''" by simp
    with False show ?thesis
      by (subst show_nat.simps) (simp add: hd_append show_nat_digits)
  qed
qed

lemma show_nat_0: "show_nat 0 = ''0''"
  by (simp add: show_nat.simps digit_char_def)

lemma parse_octet_show: "n < 256 \<Longrightarrow> parse_octet (show_nat n) = Some n"
proof (cases "n = 0")
  case True
  then show ?thesis by (simp add: parse_octet_def show_nat_0 read_nat_def is_digit_char_def ascii_digit_def)
next
  case False
  assume "n < 256"
  with False show ?thesis
    using show_nat_digits [of n] show_nat_hd_nonzero [of n] by (simp add: parse_octet_def)
qed

lemma show_nat_no_sep: "48 > byte c \<or> 57 < byte c \<Longrightarrow> c \<notin> set (show_nat n)"
  using show_nat_hd by fastforce

lemma split_on_show_nats:
  "split_on CHR ''.'' (strings_Join (map show_nat (n # ns)) ''.'') = map show_nat (n # ns)"
proof (induction ns arbitrary: n)
  case Nil
  then show ?case by (simp add: split_on_id show_nat_no_sep)
next
  case (Cons m ns)
  have "split_on CHR ''.'' (strings_Join (map show_nat (n # m # ns)) ''.'')
      = split_on CHR ''.'' (show_nat n @ CHR ''.'' # strings_Join (map show_nat (m # ns)) ''.'')"
    by simp
  also have "\<dots> = show_nat n # split_on CHR ''.'' (strings_Join (map show_nat (m # ns)) ''.'')"
    by (rule split_on_append) (simp add: show_nat_no_sep)
  finally show ?case using Cons.IH [of m] by simp
qed

lemma octets_of_cases:
  obtains a b c d where "octets_of w = [a, b, c, d]" "a < 256" "b < 256" "c < 256" "d < 256"
    "AddrFrom4 (a, b, c, d) = w"
proof -
  define n where "n = unat w"
  have n: "n < 4294967296" unfolding n_def by (rule order_less_le_trans [OF unsigned_less]) simp
  let ?a = "n div 16777216" and ?b = "(n div 65536) mod 256" and ?c = "(n div 256) mod 256"
    and ?d = "n mod 256"
  have a: "?a < 256" using n by simp
  have "n div 65536 = n div 256 div 256" "n div 16777216 = n div 256 div 256 div 256"
    by (simp_all add: div_mult2_eq [symmetric])
  then have "((?a * 256 + ?b) * 256 + ?c) * 256 + ?d = n" by simp
  then have "AddrFrom4 (?a, ?b, ?c, ?d) = of_nat n" by (simp only: AddrFrom4_def prod.case)
  then have "AddrFrom4 (?a, ?b, ?c, ?d) = w" by (simp add: n_def)
  moreover have "octets_of w = [?a, ?b, ?c, ?d]" by (simp add: octets_of_def n_def Let_def)
  ultimately show ?thesis using that a by simp
qed

lemma parse_ipv4_string4:
  "\<exists>q. parse_ipv4_fields (string4 w) = Some q \<and> AddrFrom4 q = w
     \<and> (case q of (a, b, c, d) \<Rightarrow> a < 256 \<and> b < 256 \<and> c < 256 \<and> d < 256)"
proof -
  obtain a b c d where q: "octets_of w = [a, b, c, d]" "a < 256" "b < 256" "c < 256" "d < 256"
    "AddrFrom4 (a, b, c, d) = w" by (rule octets_of_cases)
  then have "split_on CHR ''.'' (string4 w) = map show_nat [a, b, c, d]"
    unfolding string4_def q(1) by (intro split_on_show_nats)
  with q show ?thesis by (simp add: parse_ipv4_fields_def parse_octet_show)
qed

lemma string4_form: "\<exists>a r. a < 256 \<and> string4 w = show_nat a @ CHR ''.'' # r"
proof -
  obtain a b c d where "octets_of w = [a, b, c, d]" "a < 256" by (rule octets_of_cases)
  then show ?thesis by (auto simp: string4_def)
qed

lemma string4_chars: "c \<in> set (string4 w) \<Longrightarrow> is_digit_char c \<or> c = CHR ''.''"
proof -
  obtain o1 o2 o3 o4 where q: "octets_of w = [o1, o2, o3, o4]" by (rule octets_of_cases)
  have "is_digit_char c" if "c \<in> set (show_nat n)" for n
    using that show_nat_digits by (auto simp: list_all_iff)
  moreover assume "c \<in> set (string4 w)"
  ultimately show ?thesis by (auto simp: string4_def q)
qed

lemma find_first_special:
  "\<not> (\<exists>x \<in> set pre. x \<in> set ''.:%'') \<Longrightarrow> y \<in> set ''.:%'' \<Longrightarrow>
     find (\<lambda>c. c \<in> set ''.:%'') (pre @ y # post) = Some y"
  by (rule find_append_first)

lemma ParseAddr_String4 [simp]: "netip_ParseAddr (addr_String (IPv4 w)) = Some (IPv4 w)"
proof -
  obtain a r where ar: "string4 w = show_nat a @ CHR ''.'' # r" using string4_form by blast
  have "find (\<lambda>c. c \<in> set ''.:%'') (string4 w) = Some CHR ''.''"
    unfolding ar by (rule find_first_special) (auto dest: show_nat_hd)
  moreover obtain q where "parse_ipv4_fields (string4 w) = Some q" "AddrFrom4 q = w"
    using parse_ipv4_string4 [of w] by blast
  ultimately show ?thesis by (simp add: netip_ParseAddr_def addr_String_def)
qed


section \<open>IPv6 addresses\<close>

lemma hex_char_props:
  assumes "d < 16"
  shows "is_hex_char (hex_char d)" and "hex_value (hex_char d) = d"
proof -
  have "d \<in> {..<16}" using assms by simp
  then have "d \<in> {0, 1, 2, 3, 4, 5, 6, 7, 8, 9, 10, 11, 12, 13, 14, 15}"
    by (simp add: lessThan_nat_numeral lessThan_Suc del: lessThan_iff) presburger
  then have "is_hex_char (hex_char d) \<and> hex_value (hex_char d) = d"
    by (elim insertE emptyE)
      (simp_all add: hex_char_def is_hex_char_def hex_value_def ascii_digit_def)
  then show "is_hex_char (hex_char d)" and "hex_value (hex_char d) = d" by blast+
qed

lemma show_hex_chars: "list_all is_hex_char (show_hex n) \<and> show_hex n \<noteq> []"
proof (induction n rule: show_hex.induct)
  case (1 n)
  then show ?case by (subst (1 2) show_hex.simps) (auto simp: hex_char_props)
qed

lemma read_hex_snoc: "read_hex (s @ [c]) = read_hex s * 16 + hex_value c"
  by (simp add: read_hex_def)

lemma read_show_hex [simp]: "read_hex (show_hex n) = n"
proof (induction n rule: show_hex.induct)
  case (1 n)
  show ?case
  proof (cases "n < 16")
    case True
    then show ?thesis by (subst show_hex.simps) (simp add: read_hex_def hex_char_props)
  next
    case False
    with 1 have "read_hex (show_hex (n div 16)) = n div 16" by simp
    with False show ?thesis by (subst show_hex.simps) (simp add: read_hex_snoc hex_char_props)
  qed
qed

lemma length_show_hex: "n < 16 ^ k \<Longrightarrow> 0 < k \<Longrightarrow> length (show_hex n) \<le> k"
proof (induction k arbitrary: n)
  case 0
  then show ?case by simp
next
  case (Suc k)
  show ?case
  proof (cases "n < 16")
    case True
    then show ?thesis by (subst show_hex.simps) simp
  next
    case False
    with Suc.prems have "0 < k" by (cases k) auto
    moreover have "n div 16 < 16 ^ k" using Suc.prems(1) by (simp add: less_mult_imp_div_less mult.commute)
    ultimately have "length (show_hex (n div 16)) \<le> k" using Suc.IH by blast
    with False show ?thesis by (subst show_hex.simps) simp
  qed
qed

lemma takeWhile_show_hex:
  "\<not> is_hex_char c \<Longrightarrow> takeWhile is_hex_char (show_hex n @ c # r) = show_hex n"
  "takeWhile is_hex_char (show_hex n) = show_hex n"
  using show_hex_chars [of n] by (auto simp: takeWhile_append list_all_iff takeWhile_eq_all_conv)

lemma not_hex_sep [simp]: "\<not> is_hex_char CHR '':''" "\<not> is_hex_char CHR ''.''"
  by (simp_all add: is_hex_char_def ascii_digit_def)

lemma hex_join_simps [simp]: "hex_join [] = []" "hex_join [g] = show_hex g"
  by (simp_all add: hex_join_def)

lemma hex_join_Cons: "gs \<noteq> [] \<Longrightarrow> hex_join (g # gs) = show_hex g @ CHR '':'' # hex_join gs"
  by (cases gs) (auto simp: hex_join_def)

lemma hex_join_hd: "gs \<noteq> [] \<Longrightarrow> \<exists>c r. hex_join gs = c # r \<and> is_hex_char c"
proof -
  assume "gs \<noteq> []"
  then obtain g hs where gs: "gs = g # hs" by (cases gs) auto
  obtain c r where cr: "show_hex g = c # r" "is_hex_char c"
    using show_hex_chars [of g] by (cases "show_hex g") auto
  then show ?thesis by (cases "hs = []") (auto simp: gs hex_join_Cons)
qed

lemma group_step:
  assumes "g < 65536"
  shows "takeWhile is_hex_char (show_hex g @ CHR '':'' # r) = show_hex g"
    and "show_hex g \<noteq> []" and "\<not> 4 < length (show_hex g)"
  using show_hex_chars [of g] length_show_hex [of g 4] assms by (auto simp: takeWhile_show_hex)

lemma parse_hex_join:
  "gs \<noteq> [] \<Longrightarrow> list_all (\<lambda>g. g < 65536) gs \<Longrightarrow> length gs \<le> k \<Longrightarrow>
     parse_ipv6_groups k acc ell (hex_join gs) = Some (acc @ gs, ell, [])"
proof (induction gs arbitrary: k acc)
  case Nil
  then show ?case by simp
next
  case (Cons g gs)
  then obtain k' where k: "k = Suc k'" by (cases k) auto
  from Cons.prems have g: "g < 65536" by simp
  show ?case
  proof (cases "gs = []")
    case True
    then show ?thesis using k group_step [OF g] by (simp add: Let_def takeWhile_show_hex)
  next
    case False
    obtain c r where cr: "hex_join gs = c # r" "is_hex_char c" using hex_join_hd [OF False] by blast
    then have "c \<noteq> CHR '':''" by auto
    moreover have "parse_ipv6_groups k' (acc @ [g]) ell (hex_join gs) = Some (acc @ g # gs, ell, [])"
      using Cons.IH [OF False] Cons.prems k by simp
    ultimately show ?thesis
      using k cr group_step [OF g] by (simp add: Let_def hex_join_Cons [OF False])
  qed
qed

lemma parse_hex_join_ellipsis:
  "pre \<noteq> [] \<Longrightarrow> list_all (\<lambda>g. g < 65536) (pre @ post) \<Longrightarrow> length (pre @ post) \<le> k \<Longrightarrow>
     parse_ipv6_groups k acc None (hex_join pre @ ''::'' @ hex_join post)
       = Some (acc @ pre @ post, Some (length (acc @ pre)), [])"
proof (induction pre arbitrary: k acc)
  case Nil
  then show ?case by simp
next
  case (Cons g pre)
  then obtain k' where k: "k = Suc k'" by (cases k) auto
  from Cons.prems have g: "g < 65536" by simp
  show ?case
  proof (cases "pre = []")
    case True
    show ?thesis
    proof (cases "post = []")
      case True
      then show ?thesis using k \<open>pre = []\<close> group_step [OF g] by (simp add: Let_def)
    next
      case False
      then have "hex_join post \<noteq> []" using hex_join_hd by fastforce
      moreover have "parse_ipv6_groups k' (acc @ [g]) (Some (Suc (length acc))) (hex_join post)
          = Some ((acc @ [g]) @ post, Some (Suc (length acc)), [])"
        using Cons.prems k True False by (intro parse_hex_join) auto
      ultimately show ?thesis using k True group_step [OF g] by (simp add: Let_def)
    qed
  next
    case False
    obtain c r where cr: "hex_join pre = c # r" "is_hex_char c" using hex_join_hd [OF False] by blast
    then have "c \<noteq> CHR '':''" by auto
    moreover have "parse_ipv6_groups k' (acc @ [g]) None (hex_join pre @ ''::'' @ hex_join post)
        = Some (acc @ g # pre @ post, Some (length (acc @ g # pre)), [])"
      using Cons.IH [OF False, of k' "acc @ [g]"] Cons.prems k by simp
    ultimately show ?thesis
      using k cr group_step [OF g] by (simp add: Let_def hex_join_Cons [OF False])
  qed
qed


lemma zero_run_props:
  assumes "length gs = 8" and "zero_run gs = Some (a, b)"
  shows "a + 2 \<le> b \<and> b \<le> 8 \<and> take (b - a) (drop a gs) = replicate (b - a) 0"
proof -
  define good where "good = (\<lambda>best :: (nat \<times> nat) option. case best of None \<Rightarrow> True
    | Some (a, b) \<Rightarrow> a + 2 \<le> b \<and> b \<le> 8 \<and> take (b - a) (drop a gs) = replicate (b - a) 0)"
  have run: "take l (drop i gs) = replicate l 0 \<and> l \<le> length gs - i"
    if "l = length (takeWhile (\<lambda>g. g = 0) (drop i gs))" for i l
  proof -
    have "take l (drop i gs) = takeWhile (\<lambda>g. g = 0) (drop i gs)"
      unfolding that by (rule takeWhile_eq_take [symmetric])
    moreover have "takeWhile (\<lambda>g. g = 0) (drop i gs) = replicate l 0"
    proof (rule replicate_eqI)
      show "length (takeWhile (\<lambda>g. g = 0) (drop i gs)) = l" using that by simp
      show "y = 0" if "y \<in> set (takeWhile (\<lambda>g. g = 0) (drop i gs))" for y
        using set_takeWhileD [OF that] by simp
    qed
    moreover have "l \<le> length (drop i gs)" unfolding that by (rule length_takeWhile_le)
    ultimately show ?thesis by simp
  qed
  have "good (foldl (\<lambda>best i.
     let l = length (takeWhile (\<lambda>g. g = 0) (drop i gs)) in
     if 2 \<le> l \<and> (case best of None \<Rightarrow> True | Some (a, b) \<Rightarrow> b - a < l) then Some (i, i + l) else best)
     best is)" if "good best" for best "is"
    using that
  proof (induction "is" arbitrary: best)
    case Nil
    then show ?case by simp
  next
    case (Cons i "is")
    show ?case
      unfolding foldl.simps
      by (rule Cons.IH) (use Cons.prems run [OF refl, of i] assms(1) in \<open>auto simp: Let_def good_def\<close>)
  qed
  from this [of None "[0..<8]"] have "good (zero_run gs)" by (simp add: zero_run_def good_def)
  with assms(2) show ?thesis by (simp add: good_def)
qed

lemma length_groups_of [simp]: "length (groups_of w) = 8"
  by (simp add: groups_of_def)

lemma groups_of_bound: "list_all (\<lambda>g. g < 65536) (groups_of w)"
  by (simp add: groups_of_def list_all_iff)

lemma AddrFrom16_groups [simp]: "AddrFrom16 (groups_of w) = w"
proof -
  define n where "n = unat w"
  have n: "n < 65536 ^ 8" unfolding n_def by (rule order_less_le_trans [OF unsigned_less]) simp
  have step: "(n div 65536 ^ Suc k) * 65536 + (n div 65536 ^ k) mod 65536 = n div 65536 ^ k" for k
  proof -
    have "n div 65536 ^ Suc k = n div 65536 ^ k div 65536"
      by (simp add: div_mult2_eq [symmetric] mult.commute)
    then show ?thesis by simp
  qed
  have "foldl (\<lambda>n g. n * 65536 + g) 0 (map (\<lambda>i. (n div 65536 ^ (7 - i)) mod 65536) [0..<m])
      = n div 65536 ^ (8 - m)" if "m \<le> 8" for m
    using that
  proof (induction m)
    case 0
    show ?case using n by simp
  next
    case (Suc m)
    then have m: "8 - m = Suc (8 - Suc m)" "7 - m = 8 - Suc m" by auto
    show ?case using Suc by (simp only: upt_Suc_append le0 map_append foldl_append list.map foldl.simps m step)
  qed
  from this [of 8] have "AddrFrom16 (groups_of w) = of_nat n"
    unfolding AddrFrom16_def groups_of_def n_def by simp
  then show ?thesis by (simp add: n_def)
qed

lemma AddrFrom16_zeros: "AddrFrom16 (replicate k 0) = 0"
proof -
  have "foldl (\<lambda>n g. n * 65536 + g) 0 (replicate k 0) = (0 :: nat)" by (induction k) auto
  then show ?thesis by (simp add: AddrFrom16_def)
qed

lemma parse_plain_groups:
  assumes "zero_run (groups_of w) = None"
  shows "parse_ipv6_body (string6 w) = Some w"
proof -
  have ne: "groups_of w \<noteq> []" by (metis length_groups_of list.size(3) zero_neq_numeral)
  have s: "string6 w = hex_join (groups_of w)" using assms by (simp add: string6_def)
  obtain c r where cr: "hex_join (groups_of w) = c # r" "is_hex_char c"
    using hex_join_hd [OF ne] by blast
  then have "c \<noteq> CHR '':''" by auto
  moreover have "parse_ipv6_groups 8 [] None (hex_join (groups_of w)) = Some (groups_of w, None, [])"
    using parse_hex_join [OF ne groups_of_bound, of 8 "[]" None] by simp
  ultimately show ?thesis
    by (simp add: parse_ipv6_body_def s cr strings_HasPrefix_def expand_ellipsis_def)
qed

text \<open>An address that begins with the ellipsis.\<close>

lemma parse_leading_ellipsis:
  assumes exp: "expand_ellipsis (post, Some 0, []) = Some (groups_of w)"
    and post: "list_all (\<lambda>g. g < 65536) post" "length post < 8"
  shows "parse_ipv6_body (''::'' @ hex_join post) = Some w"
proof (cases "post = []")
  case True
  then have "groups_of w = replicate 8 0" using exp by (simp add: expand_ellipsis_def)
  then have "w = 0" by (metis AddrFrom16_groups AddrFrom16_zeros)
  then show ?thesis using True by (simp add: parse_ipv6_body_def)
next
  case False
  obtain c r where "hex_join post = c # r" using hex_join_hd [OF False] by blast
  moreover have "parse_ipv6_groups 8 [] (Some 0) (hex_join post) = Some (post, Some 0, [])"
    using parse_hex_join [OF False post(1), of 8 "[]" "Some 0"] post(2) by simp
  ultimately show ?thesis using exp by (simp add: parse_ipv6_body_def strings_HasPrefix_def)
qed

lemma parse_ipv6_string6: "parse_ipv6_body (string6 w) = Some w"
proof (cases "zero_run (groups_of w)")
  case None
  then show ?thesis by (rule parse_plain_groups)
next
  case (Some ab)
  obtain a b where ab: "zero_run (groups_of w) = Some (a, b)" using Some by (cases ab) auto
  let ?gs = "groups_of w" and ?pre = "take a (groups_of w)" and ?post = "drop b (groups_of w)"
  note props = zero_run_props [OF length_groups_of ab]
  then have split: "?gs = ?pre @ replicate (b - a) 0 @ ?post"
    by (metis add_leD1 append_take_drop_id drop_drop le_add_diff_inverse2)
  have s: "string6 w = hex_join ?pre @ ''::'' @ hex_join ?post" using ab by (simp add: string6_def Let_def)
  have bound: "list_all (\<lambda>g. g < 65536) (?pre @ ?post)"
    using groups_of_bound [of w] by (auto simp: list_all_iff dest: in_set_takeD in_set_dropD)
  have len: "length ?pre = a" "length ?post = 8 - b" using props by auto
  then have size: "length (?pre @ ?post) < 8" "8 - length (?pre @ ?post) = b - a" using props by auto
  then have exp: "expand_ellipsis (?pre @ ?post, Some a, []) = Some ?gs" using split len by (simp add: expand_ellipsis_def)
  show ?thesis
  proof (cases "?pre = []")
    case True
    then have "a = 0" using len by (metis list.size(3))
    then show ?thesis using parse_leading_ellipsis [of ?post w] exp bound size s True by simp
  next
    case False
    obtain c r where cr: "hex_join ?pre = c # r" "is_hex_char c" using hex_join_hd [OF False] by blast
    then have "c \<noteq> CHR '':''" by auto
    moreover have "parse_ipv6_groups 8 [] None (string6 w) = Some (?pre @ ?post, Some a, [])"
      using parse_hex_join_ellipsis [OF False bound less_imp_le [OF size(1)], of "[]"] len s by simp
    ultimately show ?thesis using s cr exp by (simp add: parse_ipv6_body_def strings_HasPrefix_def)
  qed
qed

lemma hex_join_chars: "c \<in> set (hex_join gs) \<Longrightarrow> is_hex_char c \<or> c = CHR '':''"
proof (induction gs)
  case Nil
  then show ?case by simp
next
  case (Cons g gs)
  then show ?case using show_hex_chars [of g]
    by (cases "gs = []") (auto simp: hex_join_Cons list_all_iff)
qed

lemma string6_first_sep: "\<exists>pre post. string6 w = pre @ CHR '':'' # post \<and> list_all is_hex_char pre"
proof -
  have colon: "CHR '':'' \<in> set (string6 w)"
  proof (cases "zero_run (groups_of w)")
    case None
    obtain g gs where gs: "groups_of w = g # gs" "length gs = 7"
      using length_groups_of [of w] by (cases "groups_of w") auto
    then have "gs \<noteq> []" by auto
    with gs(1)
    show ?thesis using None by (simp add: string6_def hex_join_Cons)
  next
    case (Some ab)
    then show ?thesis by (cases ab) (simp add: string6_def Let_def)
  qed
  have chars: "is_hex_char c \<or> c = CHR '':''" if "c \<in> set (string6 w)" for c
    using that by (auto simp: string6_def Let_def dest: hex_join_chars split: option.splits prod.splits)
  from split_list_first [OF colon] obtain pre post where
    "string6 w = pre @ CHR '':'' # post" "CHR '':'' \<notin> set pre" by blast
  with chars show ?thesis unfolding list_all_iff by (metis Un_iff set_append)
qed

lemma string6_no_zone: "CHR ''%'' \<notin> set (string6 w)"
  by (auto simp: string6_def Let_def is_hex_char_def ascii_digit_def
      dest!: hex_join_chars split: option.splits prod.splits)

lemma hex_not_special: "is_hex_char c \<Longrightarrow> c \<notin> set ''.:%''"
  by (auto simp: is_hex_char_def ascii_digit_def)

lemma strings_Cut_no_sep:
  "d \<notin> set s \<Longrightarrow> strings_Cut d s = (s, [], False)"
  "d \<notin> set s \<Longrightarrow> strings_Cut d (s @ d # t) = (s, t, True)"
proof -
  assume d: "d \<notin> set s"
  then have "takeWhile (\<lambda>c. c \<noteq> d) s = s" "dropWhile (\<lambda>c. c \<noteq> d) s = []"
    by (auto simp: takeWhile_eq_all_conv)
  then show "strings_Cut d s = (s, [], False)"
    unfolding strings_Cut_def using d by (simp only: drop_Nil)
next
  assume "d \<notin> set s"
  then show "strings_Cut d (s @ d # t) = (s, t, True)"
    by (auto simp: strings_Cut_def takeWhile_append dropWhile_append)
qed

lemma parse_ipv6_zone:
  "CHR ''%'' \<notin> set s \<Longrightarrow> parse_ipv6_body s = Some w \<Longrightarrow>
     parse_ipv6 (s @ (if z = [] then [] else CHR ''%'' # z)) = Some (IPv6 w z)"
  by (auto simp: parse_ipv6_def strings_Cut_no_sep)

lemma unat_of_nat_small32: "n < 4294967296 \<Longrightarrow> unat (of_nat n :: 32 word) = n"
  by (simp add: unat_of_nat)

lemma mapped_groups:
  assumes "is_4in6 w" "AddrFrom4 (a, b, c, d) = (ucast w :: 32 word)" "a < 256" "b < 256" "c < 256" "d < 256"
  shows "AddrFrom16 [0, 0, 0, 0, 0, 65535, a * 256 + b, c * 256 + d] = w"
proof -
  let ?v = "((a * 256 + b) * 256 + c) * 256 + d"
  have v: "?v < 4294967296" using assms(3-6) by simp
  have "AddrFrom4 (a, b, c, d) = of_nat ?v" by (simp only: AddrFrom4_def prod.case)
  then have "unat (AddrFrom4 (a, b, c, d)) = ?v" using v by (simp only: unat_of_nat_small32)
  moreover have "unat (ucast w :: 32 word) = unat w mod 4294967296"
    by (simp add: unsigned_ucast_eq take_bit_eq_mod)
  ultimately have low: "unat w mod 4294967296 = ?v" using assms(2) by simp
  have "unat w = (unat w div 4294967296) * 4294967296 + unat w mod 4294967296" by simp
  also have "\<dots> = (65535 * 65536 + (a * 256 + b)) * 65536 + (c * 256 + d)"
    using low assms(1) by (simp add: is_4in6_def algebra_simps)
  finally have uw: "unat w = (65535 * 65536 + (a * 256 + b)) * 65536 + (c * 256 + d)" .
  have "AddrFrom16 [0, 0, 0, 0, 0, 65535, a * 256 + b, c * 256 + d]
      = of_nat ((65535 * 65536 + (a * 256 + b)) * 65536 + (c * 256 + d))"
    unfolding AddrFrom16_def by (simp only: foldl.simps mult_0 add_0)
  then show ?thesis unfolding uw [symmetric] by simp
qed

text \<open>The groups of \<open>::ffff:a.b.c.d\<close>: the dotted address makes the last two.\<close>

lemma parse_dotted_tail:
  assumes q: "parse_ipv4_fields s = Some (a, b, c, d)" and s: "s = string4 v"
  shows "parse_ipv6_groups 8 [] (Some 0) (''ffff:'' @ s) = Some ([65535, a * 256 + b, c * 256 + d], Some 0, [])"
proof -
  obtain o1 r where o: "o1 < 256" "s = show_nat o1 @ CHR ''.'' # r" using string4_form unfolding s by blast
  have hex: "list_all is_hex_char (show_nat o1)" "show_nat o1 \<noteq> []"
    using show_nat_digits [of o1] by (auto simp: list_all_iff is_hex_char_def is_digit_char_def)
  have len3: "length (show_nat o1) \<le> 4" using o(1) by (simp add: show_nat.simps)
  have h: "takeWhile is_hex_char s = show_nat o1"
    using hex(1) by (simp add: o(2) takeWhile_append list_all_iff)
  obtain c0 r0 where c0: "show_nat o1 = c0 # r0" "is_digit_char c0"
    using show_nat_digits [of o1] by (cases "show_nat o1") auto
  then have "c0 \<noteq> CHR '':''" by (auto simp: is_digit_char_def ascii_digit_def)
  have "parse_ipv6_groups (Suc 6) [65535] (Some 0) s = Some ([65535, a * 256 + b, c * 256 + d], Some 0, [])"
    unfolding parse_ipv6_groups.simps using h len3 hex(2) q by (simp add: Let_def o(2))
  then have v4: "parse_ipv6_groups 7 [65535] (Some 0) s = Some ([65535, a * 256 + b, c * 256 + d], Some 0, [])" by simp
  have ffff: "takeWhile is_hex_char (''ffff:'' @ s) = ''ffff''" "read_hex ''ffff'' = 65535"
    by (simp_all add: is_hex_char_def ascii_digit_def read_hex_def hex_value_def)
  have "parse_ipv6_groups (Suc 7) [] (Some 0) (''ffff:'' @ s) = Some ([65535, a * 256 + b, c * 256 + d], Some 0, [])"
    unfolding parse_ipv6_groups.simps Let_def ffff using v4 \<open>c0 \<noteq> CHR '':''\<close> c0(1) o(2) by simp
  then show ?thesis by simp
qed

lemma ipv6_mapped_body:
  assumes "is_4in6 w"
  shows "parse_ipv6_body (''::ffff:'' @ string4 (ucast w)) = Some w"
proof -
  let ?s = "string4 (ucast w :: 32 word)"
  obtain a b c d where q: "parse_ipv4_fields ?s = Some (a, b, c, d)" "AddrFrom4 (a, b, c, d) = (ucast w :: 32 word)"
    "a < 256" "b < 256" "c < 256" "d < 256"
    using parse_ipv4_string4 [of "ucast w"] by auto
  have "parse_ipv6_groups 8 [] (Some 0) (''ffff:'' @ ?s) = Some ([65535, a * 256 + b, c * 256 + d], Some 0, [])"
    by (rule parse_dotted_tail [OF q(1) refl])
  moreover have "replicate 5 (0 :: nat) = [0, 0, 0, 0, 0]" by (simp add: eval_nat_numeral)
  ultimately show ?thesis using mapped_groups [OF assms q(2-6)]
    by (simp add: parse_ipv6_body_def strings_HasPrefix_def expand_ellipsis_def)
qed

theorem ParseAddr_String: "netip_ParseAddr (addr_String a) = Some a"
proof (cases a)
  case (IPv4 w)
  then show ?thesis by simp
next
  case (IPv6 w z)
  let ?z = "if z = [] then [] else CHR ''%'' # z"
  show ?thesis
  proof (cases "is_4in6 w")
    case True
    let ?b = "''::ffff:'' @ string4 (ucast w)"
    have "CHR ''%'' \<notin> set (string4 (ucast w))"
      using string4_chars [of "CHR ''%''"] by (auto simp: is_digit_char_def ascii_digit_def)
    then have "CHR ''%'' \<notin> set ?b" by simp
    then have "parse_ipv6 (?b @ ?z) = Some (IPv6 w z)"
      using ipv6_mapped_body [OF True] by (rule parse_ipv6_zone)
    then show ?thesis using True IPv6 by (simp add: netip_ParseAddr_def addr_String_def)
  next
    case False
    obtain pre post where s: "string6 w = pre @ CHR '':'' # post" "list_all is_hex_char pre"
      using string6_first_sep by blast
    have "find (\<lambda>c. c \<in> set ''.:%'') (pre @ CHR '':'' # (post @ ?z)) = Some CHR '':''"
      using s(2) hex_not_special by (intro find_first_special) (auto simp: list_all_iff)
    moreover have "parse_ipv6 (string6 w @ ?z) = Some (IPv6 w z)"
      by (intro parse_ipv6_zone string6_no_zone parse_ipv6_string6)
    ultimately show ?thesis using False IPv6 s(1)
      by (simp add: netip_ParseAddr_def addr_String_def)
  qed
qed

lemma addr_String_inj: "addr_String a = addr_String b \<Longrightarrow> a = b"
  by (metis ParseAddr_String option.inject)


section \<open>Prefix matching\<close>

definition valid_prefix :: "Prefix \<Rightarrow> bool" where
  "valid_prefix p \<longleftrightarrow> prefix_Bits p \<le> addr_BitLen (prefix_Addr p)
     \<and> (case prefix_Addr p of IPv4 _ \<Rightarrow> True | IPv6 _ z \<Rightarrow> z = [])"

lemma xor_zero_iff: "a XOR b = 0 \<longleftrightarrow> a = (b :: 'a::len word)"
  by (auto simp: bit_eq_iff bit_simps)

lemma drop_push_drop: "drop_bit k (push_bit k (drop_bit k w)) = drop_bit k (w :: 'a::len word)"
  by (rule bit_word_eqI) (auto simp: bit_simps dest: bit_imp_le_length)

lemma Contains_leading_bits:
  "prefix_Contains (Prefix (IPv4 w) b) (IPv4 a) \<longleftrightarrow> drop_bit (32 - b) a = drop_bit (32 - b) w"
  "prefix_Contains (Prefix (IPv6 v z) b) (IPv6 a' []) \<longleftrightarrow> drop_bit (128 - b) a' = drop_bit (128 - b) v"
  by (simp_all add: prefix_Contains_def xor_zero_iff)

lemma Contains_family [simp]:
  "\<not> prefix_Contains (Prefix (IPv4 w) b) (IPv6 a z)"
  "\<not> prefix_Contains (Prefix (IPv6 v z) b) (IPv4 a')"
  "z \<noteq> [] \<Longrightarrow> \<not> prefix_Contains p (IPv6 a z)"
  by (auto simp: prefix_Contains_def split: Prefix.splits Addr.splits)

lemma Contains_Masked [simp]: "prefix_Contains (prefix_Masked p) a = prefix_Contains p a"
  by (cases p; cases "prefix_Addr p"; cases a)
    (simp_all add: prefix_Masked_def prefix_Contains_def drop_push_drop)

lemma Masked_idem [simp]: "prefix_Masked (prefix_Masked p) = prefix_Masked p"
  by (cases p; cases "prefix_Addr p") (simp_all add: prefix_Masked_def drop_push_drop)

lemma Masked_valid: "valid_prefix p \<Longrightarrow> valid_prefix (prefix_Masked p)"
  by (cases p; cases "prefix_Addr p") (simp_all add: prefix_Masked_def valid_prefix_def addr_BitLen_def)

lemma Contains_base: "valid_prefix p \<Longrightarrow> prefix_Contains p (prefix_Addr p)"
  by (cases p; cases "prefix_Addr p") (auto simp: prefix_Contains_def valid_prefix_def)

lemma ParsePrefix_valid: "netip_ParsePrefix s = Some p \<Longrightarrow> valid_prefix p"
  by (auto simp: netip_ParsePrefix_def valid_prefix_def split: option.splits if_splits Addr.splits)

lemma Contains_interval4:
  assumes "b \<le> 32"
  shows "prefix_Contains (Prefix (IPv4 w) b) (IPv4 a) \<longleftrightarrow>
     unat a div 2 ^ (32 - b) = unat w div 2 ^ (32 - b)"
proof -
  have "unat (drop_bit (32 - b) v) = unat v div 2 ^ (32 - b)" for v :: "32 word"
    by (simp only: unat_drop_bit_eq drop_bit_nat_eq) (simp add: drop_bit_eq_div)
  then show ?thesis by (metis Contains_leading_bits(1) unsigned_word_eqI)
qed

lemma Contains_all4: "prefix_Contains (Prefix (IPv4 w) 0) (IPv4 a)"
  unfolding Contains_leading_bits by (rule bit_word_eqI) (auto simp: bit_simps dest: bit_imp_le_length)

lemma Contains_host4: "prefix_Contains (Prefix (IPv4 w) 32) (IPv4 a) \<longleftrightarrow> a = w"
  by (simp add: Contains_leading_bits)

end
