(* ===== verification/Go_Url.thy ===== *)
theory Go_Url
  imports Go_Netip_Facts "HOL-Library.List_Lexorder" "HOL-Library.Char_ord"
begin

text \<open>
  The parts of Go's \<open>net/url\<close> package that the repository calls: percent-encoding, \<open>url.Parse\<close>
  with its checks of the authority, and query strings (\<open>ParseQuery\<close>, \<open>Values.Encode\<close>).
  The order on strings is the bytewise lexicographic one, as in Go.
\<close>

section \<open>Percent-encoding\<close>

datatype encoding = EncodeHost | EncodeZone | EncodePath | EncodePathSegment | EncodeUserPassword
  | EncodeQueryComponent | EncodeFragment

definition shouldEscape :: "char \<Rightarrow> encoding \<Rightarrow> bool" where
  "shouldEscape c m =
     (if ascii_letter (byte c) \<or> ascii_digit (byte c) then False
      else if m \<in> {EncodeHost, EncodeZone} \<and> c \<in> set (''!$&()*+,;=:[]<>'' @ [CHR 0x27, CHR 0x22]) then False
      else if c \<in> set ''-_.~'' then False
      else if c \<in> set ''$&+,/:;=?@'' \<and> m \<notin> {EncodeHost, EncodeZone} then
        (case m of
           EncodePath \<Rightarrow> c = CHR ''?''
         | EncodePathSegment \<Rightarrow> c \<in> set ''/;,?''
         | EncodeUserPassword \<Rightarrow> c \<in> set ''@/?:''
         | EncodeQueryComponent \<Rightarrow> True
         | _ \<Rightarrow> False)
      else if m = EncodeFragment \<and> c \<in> set ''!()*'' then False
      else True)"

definition upper_hex :: "nat \<Rightarrow> char" where
  "upper_hex d = ''0123456789ABCDEF'' ! d"

definition escape_char :: "encoding \<Rightarrow> char \<Rightarrow> string" where
  "escape_char m c =
     (if m = EncodeQueryComponent \<and> c = CHR '' '' then ''+''
      else if shouldEscape c m then [CHR ''%'', upper_hex (byte c div 16), upper_hex (byte c mod 16)]
      else [c])"

definition url_escape :: "encoding \<Rightarrow> string \<Rightarrow> string" where
  "url_escape m s = concat (map (escape_char m) s)"

abbreviation url_QueryEscape :: "string \<Rightarrow> string" where
  "url_QueryEscape \<equiv> url_escape EncodeQueryComponent"

fun url_unescape :: "encoding \<Rightarrow> string \<Rightarrow> string option" where
  "url_unescape m [] = Some []"
| "url_unescape m (c # s) =
     (if c = CHR ''%'' then
        (case s of
           h # l # r \<Rightarrow>
             (let v = hex_value h * 16 + hex_value l in
              if \<not> is_hex_char h \<or> \<not> is_hex_char l then None
              else if m = EncodeHost \<and> hex_value h < 8 \<and> [h, l] \<noteq> ''25'' then None
              else if m = EncodeZone \<and> [h, l] \<noteq> ''25'' \<and> v \<noteq> 32
                \<and> shouldEscape (char_of v) EncodeHost then None
              else map_option (\<lambda>t. char_of v # t) (url_unescape m r))
         | _ \<Rightarrow> None)
      else if c = CHR ''+'' \<and> m = EncodeQueryComponent then
        map_option (\<lambda>t. CHR '' '' # t) (url_unescape m s)
      else if m \<in> {EncodeHost, EncodeZone} \<and> byte c < 128 \<and> shouldEscape c m then None
      else map_option (\<lambda>t. c # t) (url_unescape m s))"

section \<open>Parsing a URL\<close>

record URL =
  url_Scheme :: string
  url_Opaque :: string
  url_HasUser :: bool
  url_Host :: string
  url_Path :: string
  url_RawQuery :: string
  url_Fragment :: string

definition empty_url :: URL where
  "empty_url = \<lparr>url_Scheme = [], url_Opaque = [], url_HasUser = False, url_Host = [],
     url_Path = [], url_RawQuery = [], url_Fragment = []\<rparr>"

text \<open>The scheme before the first colon and the rest; \<open>None\<close> for a missing scheme.  The first
  argument says whether a scheme character was read.\<close>

fun get_scheme :: "bool \<Rightarrow> string \<Rightarrow> string \<Rightarrow> string \<Rightarrow> (string \<times> string) option" where
  "get_scheme started acc raw [] = Some ([], raw)"
| "get_scheme started acc raw (c # s) =
     (if ascii_letter (byte c) then get_scheme True (acc @ [c]) raw s
      else if ascii_digit (byte c) \<or> c \<in> set ''+-.'' then
        (if \<not> started then Some ([], raw) else get_scheme True (acc @ [c]) raw s)
      else if c = CHR '':'' then (if \<not> started then None else Some (acc, s))
      else Some ([], raw))"

definition validOptionalPort :: "string \<Rightarrow> bool" where
  "validOptionalPort p \<longleftrightarrow>
     p = [] \<or> (hd p = CHR '':'' \<and> list_all is_digit_char (tl p))"

fun index_of :: "string \<Rightarrow> string \<Rightarrow> nat option" where
  "index_of [] t = (if t = [] then Some 0 else None)"
| "index_of (c # s) t = (if strings_HasPrefix (c # s) t then Some 0 else map_option Suc (index_of s t))"

definition parseHost :: "string \<Rightarrow> string option" where
  "parseHost h =
     (if strings_HasPrefix h ''['' then
        (case cut_last CHR '']'' h of
           None \<Rightarrow> None
         | Some (inside, colonPort) \<Rightarrow>
             if \<not> validOptionalPort colonPort then None
             else (case index_of inside ''%25'' of
                 None \<Rightarrow> url_unescape EncodeHost h
               | Some z \<Rightarrow>
                   (case (url_unescape EncodeHost (take z h),
                          url_unescape EncodeZone (drop z inside),
                          url_unescape EncodeHost ('']'' @ colonPort)) of
                      (Some a, Some b, Some c) \<Rightarrow> Some (a @ b @ c)
                    | _ \<Rightarrow> None)))
      else (case cut_last CHR '':'' h of
          None \<Rightarrow> url_unescape EncodeHost h
        | Some (_, port) \<Rightarrow>
            if \<not> validOptionalPort ('':'' @ port) then None else url_unescape EncodeHost h))"

definition validUserinfo :: "string \<Rightarrow> bool" where
  "validUserinfo s \<longleftrightarrow> list_all (\<lambda>c. ascii_letter (byte c) \<or> ascii_digit (byte c)
     \<or> c \<in> set (''-._:~!$&()*+,;=%@'' @ [CHR 0x27])) s"

text \<open>The authority: whether it has user information, and the host.\<close>

definition parseAuthority :: "string \<Rightarrow> (bool \<times> string) option" where
  "parseAuthority authority =
     (case cut_last CHR ''@'' authority of
        None \<Rightarrow> map_option (\<lambda>h. (False, h)) (parseHost authority)
      | Some (userinfo, h) \<Rightarrow>
          (case parseHost h of
             None \<Rightarrow> None
           | Some host \<Rightarrow>
               if \<not> validUserinfo userinfo then None
               else (case strings_Cut CHR '':'' userinfo of (name, password, _) \<Rightarrow>
                   if url_unescape EncodeUserPassword name = None
                      \<or> url_unescape EncodeUserPassword password = None then None
                   else Some (True, host))))"

definition parse_rest :: "URL \<Rightarrow> string \<Rightarrow> URL option" where
  "parse_rest u rest =
     (if \<not> strings_HasPrefix rest ''/'' \<and> url_Scheme u \<noteq> [] then Some (u\<lparr>url_Opaque := rest\<rparr>)
      else if \<not> strings_HasPrefix rest ''/'' \<and> CHR '':'' \<in> set (takeWhile (\<lambda>c. c \<noteq> CHR ''/'') rest) then None
      else if (url_Scheme u \<noteq> [] \<or> \<not> strings_HasPrefix rest ''///'') \<and> strings_HasPrefix rest ''//'' then
        (let authority = takeWhile (\<lambda>c. c \<noteq> CHR ''/'') (drop 2 rest);
             path = dropWhile (\<lambda>c. c \<noteq> CHR ''/'') (drop 2 rest) in
         case parseAuthority authority of
           None \<Rightarrow> None
         | Some (user, host) \<Rightarrow>
             map_option (\<lambda>p. u\<lparr>url_HasUser := user, url_Host := host, url_Path := p\<rparr>)
               (url_unescape EncodePath path))
      else map_option (\<lambda>p. u\<lparr>url_Path := p\<rparr>) (url_unescape EncodePath rest))"

definition parse_no_frag :: "string \<Rightarrow> URL option" where
  "parse_no_frag raw =
     (if list_ex (\<lambda>c. byte c < 32 \<or> byte c = 127) raw then None
      else if raw = ''*'' then Some (empty_url\<lparr>url_Path := ''*''\<rparr>)
      else (case get_scheme False [] raw raw of
          None \<Rightarrow> None
        | Some (scheme, rest) \<Rightarrow>
            (case strings_Cut CHR ''?'' rest of (rest', query, _) \<Rightarrow>
               parse_rest (empty_url\<lparr>url_Scheme := map ascii_lower scheme, url_RawQuery := query\<rparr>) rest')))"

definition url_Parse :: "string \<Rightarrow> URL option" where
  "url_Parse raw =
     (case strings_Cut CHR ''#'' raw of (u, frag, _) \<Rightarrow>
        (case parse_no_frag u of
           None \<Rightarrow> None
         | Some url \<Rightarrow>
             if frag = [] then Some url
             else map_option (\<lambda>f. url\<lparr>url_Fragment := f\<rparr>) (url_unescape EncodeFragment frag)))"

text \<open>\<open>URL.Hostname\<close> and \<open>URL.Port\<close>.\<close>

definition splitHostPort :: "string \<Rightarrow> string \<times> string" where
  "splitHostPort hp =
     (let (host, port) = (case cut_last CHR '':'' hp of
            Some (h, p) \<Rightarrow> if validOptionalPort ('':'' @ p) then (h, p) else (hp, [])
          | None \<Rightarrow> (hp, []))
      in (if strings_HasPrefix host ''['' \<and> strings_HasSuffix host '']''
          then butlast (tl host) else host, port))"

definition url_Hostname :: "URL \<Rightarrow> string" where
  "url_Hostname u = fst (splitHostPort (url_Host u))"

definition url_Port :: "URL \<Rightarrow> string" where
  "url_Port u = snd (splitHostPort (url_Host u))"

section \<open>Query strings\<close>

type_synonym url_values = "(string, string list) gomap"

definition values_get :: "url_values \<Rightarrow> string \<Rightarrow> string list" where
  "values_get vs k = (case map_of vs k of None \<Rightarrow> [] | Some v \<Rightarrow> v)"

definition values_Get :: "url_values \<Rightarrow> string \<Rightarrow> string" where
  "values_Get vs k = (case values_get vs k of [] \<Rightarrow> [] | v # _ \<Rightarrow> v)"

definition values_add :: "url_values \<Rightarrow> string \<Rightarrow> string \<Rightarrow> url_values" where
  "values_add vs k v = AList.update k (values_get vs k @ [v]) vs"

text \<open>One \<open>key=value\<close> segment of a query; the flag records an error.\<close>

definition parse_segment :: "url_values \<times> bool \<Rightarrow> string \<Rightarrow> url_values \<times> bool" where
  "parse_segment st seg =
     (case st of (vs, err) \<Rightarrow>
        if CHR '';'' \<in> set seg then (vs, True)
        else if seg = [] then (vs, err)
        else (case strings_Cut CHR ''='' seg of (k, v, _) \<Rightarrow>
           (case (url_unescape EncodeQueryComponent k, url_unescape EncodeQueryComponent v) of
              (Some k', Some v') \<Rightarrow> (values_add vs k' v', err)
            | _ \<Rightarrow> (vs, True))))"

definition url_ParseQuery :: "string \<Rightarrow> url_values \<times> bool" where
  "url_ParseQuery q = foldl parse_segment ([], False) (split_on CHR ''&'' q)"

text \<open>\<open>Values.Encode\<close>: the pairs in the order of their keys.\<close>

definition encode_pairs :: "url_values \<Rightarrow> (string \<times> string) list" where
  "encode_pairs vs = concat (map (\<lambda>k. map (\<lambda>v. (k, v)) (values_get vs k)) (sort (map fst vs)))"

definition encode_pair :: "string \<times> string \<Rightarrow> string" where
  "encode_pair p = url_QueryEscape (fst p) @ ''='' @ url_QueryEscape (snd p)"

definition values_Encode :: "url_values \<Rightarrow> string" where
  "values_Encode vs = strings_Join (map encode_pair (encode_pairs vs)) ''&''"

text \<open>Equations that evaluate URL parsing on concrete strings.\<close>

lemmas url_eval [go_eval] = url_Parse_def parse_no_frag_def parse_rest_def parseAuthority_def parseHost_def
  validOptionalPort_def shouldEscape_def empty_url_def

end
