(* ===== verification/Go_Http.thy ===== *)
theory Go_Http
  imports Go_Url
begin

text \<open>
  The parts of Go's \<open>net/http\<close> package that the repository calls: canonical header names and
  header access, and the response writer of the HTTP server.  A response writer remembers
  whether the final header has been written; a status code outside 100..999 panics, a 1xx code
  (other than 101) only sends an informational header, and a further call after the final header
  is ignored.
\<close>

section \<open>Headers\<close>

type_synonym http_header = "(string, string list) gomap"

definition validHeaderFieldByte :: "char \<Rightarrow> bool" where
  "validHeaderFieldByte c \<longleftrightarrow>
     ascii_letter (byte c) \<or> ascii_digit (byte c) \<or> c \<in> set (''!#$%&*+-.^_|~'' @ [CHR 0x27, CHR 0x60])"

definition ascii_raise :: "char \<Rightarrow> char" where
  "ascii_raise c =
     (if 97 \<le> byte c \<and> byte c \<le> 122
      then (case c of Char b0 b1 b2 b3 b4 b5 b6 b7 \<Rightarrow> Char b0 b1 b2 b3 b4 False b6 b7) else c)"

fun canonical_bytes :: "bool \<Rightarrow> string \<Rightarrow> string" where
  "canonical_bytes up [] = []"
| "canonical_bytes up (c # s) =
     (if up then ascii_raise c else ascii_lower c) # canonical_bytes (c = CHR ''-'') s"

definition http_CanonicalHeaderKey :: "string \<Rightarrow> string" where
  "http_CanonicalHeaderKey s =
     (if list_all validHeaderFieldByte s then canonical_bytes True s else s)"

definition header_values :: "http_header \<Rightarrow> string \<Rightarrow> string list" where
  "header_values h k = (case map_of h k of None \<Rightarrow> [] | Some v \<Rightarrow> v)"

definition header_Get :: "http_header \<Rightarrow> string \<Rightarrow> string" where
  "header_Get h k = (case header_values h (http_CanonicalHeaderKey k) of [] \<Rightarrow> [] | v # _ \<Rightarrow> v)"

definition header_Set :: "http_header \<Rightarrow> string \<Rightarrow> string \<Rightarrow> http_header" where
  "header_Set h k v = AList.update (http_CanonicalHeaderKey k) [v] h"

definition header_Add :: "http_header \<Rightarrow> string \<Rightarrow> string \<Rightarrow> http_header" where
  "header_Add h k v =
     AList.update (http_CanonicalHeaderKey k) (header_values h (http_CanonicalHeaderKey k) @ [v]) h"

definition header_Del :: "http_header \<Rightarrow> string \<Rightarrow> http_header" where
  "header_Del h k = AList.delete (http_CanonicalHeaderKey k) h"

lemma header_Get_Set_same [simp]: "header_Get (header_Set h k v) k = v"
  by (simp add: header_Get_def header_Set_def header_values_def update_conv')

lemma header_values_Set_other:
  "http_CanonicalHeaderKey k \<noteq> j \<Longrightarrow> header_values (header_Set h k v) j = header_values h j"
  by (simp add: header_Set_def header_values_def update_conv')

lemma ascii_raise_bytes:
  "byte (ascii_raise c) = (if 97 \<le> byte c \<and> byte c \<le> 122 then byte c - 32 else byte c)"
proof (cases c)
  case (Char b0 b1 b2 b3 b4 b5 b6 b7)
  have b5 if "97 \<le> byte c \<and> byte c \<le> 122"
  proof (rule ccontr)
    assume "\<not> b5"
    with that Char show False
      by (cases b0; cases b1; cases b2; cases b3; cases b4; cases b6; cases b7) simp_all
  qed
  with Char show ?thesis by (auto simp: ascii_raise_def)
qed

lemma canonical_step:
  "(if up then ascii_raise (if up then ascii_raise c else ascii_lower c)
    else ascii_lower (if up then ascii_raise c else ascii_lower c))
   = (if up then ascii_raise c else ascii_lower c)"
proof (cases up)
  case True
  have "\<not> (97 \<le> byte (ascii_raise c) \<and> byte (ascii_raise c) \<le> 122)"
    by (auto simp: ascii_raise_bytes)
  then have "ascii_raise (ascii_raise c) = ascii_raise c"
    unfolding ascii_raise_def [of "ascii_raise c"] by (rule if_not_P)
  with True show ?thesis by simp
next
  case False
  then show ?thesis by simp
qed

lemma byte_dash_iff: "c = CHR ''-'' \<longleftrightarrow> byte c = 45"
proof -
  have "byte CHR ''-'' = 45" by simp
  then show ?thesis by (metis char_of_char)
qed

lemma canonical_dash: "(if up then ascii_raise c else ascii_lower c) = CHR ''-'' \<longleftrightarrow> c = CHR ''-''"
  by (auto simp: byte_dash_iff byte_ascii_lower ascii_raise_bytes ascii_upper_def)

lemma canonical_bytes_idem: "canonical_bytes up (canonical_bytes up s) = canonical_bytes up s"
  by (induction s arbitrary: up) (simp_all only: canonical_bytes.simps canonical_step canonical_dash)

lemma validHeaderFieldByte_canonical:
  assumes "validHeaderFieldByte c"
  shows "validHeaderFieldByte (if up then ascii_raise c else ascii_lower c)" (is "validHeaderFieldByte ?c")
proof (cases "ascii_letter (byte c)")
  case True
  then have "ascii_letter (byte ?c)"
    by (auto simp: ascii_letter_def ascii_upper_def ascii_raise_bytes byte_ascii_lower)
  then show ?thesis by (simp add: validHeaderFieldByte_def)
next
  case False
  then have "?c = c"
    unfolding ascii_letter_def ascii_upper_def ascii_raise_def ascii_lower_def by presburger
  with assms show ?thesis by simp
qed

lemma canonical_bytes_valid:
  "list_all validHeaderFieldByte s \<Longrightarrow> list_all validHeaderFieldByte (canonical_bytes up s)"
proof (induction s arbitrary: up)
  case Nil
  then show ?case by simp
next
  case (Cons c s)
  then have "validHeaderFieldByte (if up then ascii_raise c else ascii_lower c)"
    by (intro validHeaderFieldByte_canonical) simp
  with Cons show ?case by (simp only: canonical_bytes.simps list.pred_inject)
qed

lemma CanonicalHeaderKey_idem [simp]:
  "http_CanonicalHeaderKey (http_CanonicalHeaderKey s) = http_CanonicalHeaderKey s"
proof (cases "list_all validHeaderFieldByte s")
  case True
  then show ?thesis by (simp add: http_CanonicalHeaderKey_def canonical_bytes_idem canonical_bytes_valid)
next
  case False
  then show ?thesis by (simp add: http_CanonicalHeaderKey_def)
qed

lemma validHeaderFieldByte_graphic: "validHeaderFieldByte c \<Longrightarrow> graphic c"
  by (auto simp: validHeaderFieldByte_def graphic_def ascii_letter_def ascii_upper_def ascii_digit_def)

lemma CanonicalHeaderKey_TrimSpace:
  "strings_TrimSpace (http_CanonicalHeaderKey (strings_TrimSpace s)) = http_CanonicalHeaderKey (strings_TrimSpace s)"
proof (cases "list_all validHeaderFieldByte (strings_TrimSpace s)")
  case True
  then have "list_all validHeaderFieldByte (http_CanonicalHeaderKey (strings_TrimSpace s))"
    by (simp add: http_CanonicalHeaderKey_def canonical_bytes_valid)
  then have "\<forall>c \<in> set (http_CanonicalHeaderKey (strings_TrimSpace s)). graphic c"
    unfolding list_all_iff using validHeaderFieldByte_graphic by blast
  then show ?thesis by (intro TrimSpace_graphic) (meson hd_in_set last_in_set)
next
  case False
  then show ?thesis by (simp add: http_CanonicalHeaderKey_def)
qed

section \<open>The response writer\<close>

record response =
  rsp_wroteHeader :: bool
  rsp_status :: int
  rsp_informational :: "int list"
  rsp_header :: http_header
  rsp_body :: string

definition new_response :: response where
  "new_response = \<lparr>rsp_wroteHeader = False, rsp_status = 0, rsp_informational = [],
     rsp_header = [], rsp_body = []\<rparr>"

text \<open>A panic is \<^term>\<open>Inl\<close> with the writer as the panic left it.\<close>

definition rw_WriteHeader :: "int \<Rightarrow> response \<Rightarrow> response + response" where
  "rw_WriteHeader code w =
     (if rsp_wroteHeader w then Inr w
      else if code < 100 \<or> 999 < code then Inl w
      else if 100 \<le> code \<and> code \<le> 199 \<and> code \<noteq> 101
      then Inr (w\<lparr>rsp_informational := rsp_informational w @ [code]\<rparr>)
      else Inr (w\<lparr>rsp_wroteHeader := True, rsp_status := code\<rparr>))"

definition bodyAllowedForStatus :: "int \<Rightarrow> bool" where
  "bodyAllowedForStatus st \<longleftrightarrow> \<not> (100 \<le> st \<and> st \<le> 199) \<and> st \<noteq> 204 \<and> st \<noteq> 304"

definition rw_ensure_header :: "response \<Rightarrow> response" where
  "rw_ensure_header w =
     (if rsp_wroteHeader w then w else w\<lparr>rsp_wroteHeader := True, rsp_status := 200\<rparr>)"

definition rw_Write :: "string \<Rightarrow> response \<Rightarrow> response" where
  "rw_Write data w =
     (let w' = rw_ensure_header w in
      if bodyAllowedForStatus (rsp_status w') then w'\<lparr>rsp_body := rsp_body w' @ data\<rparr> else w')"

text \<open>Changing the header map has no effect once the header is written.\<close>

definition rw_SetHeader :: "string \<Rightarrow> string \<Rightarrow> response \<Rightarrow> response" where
  "rw_SetHeader k v w =
     (if rsp_wroteHeader w then w else w\<lparr>rsp_header := header_Set (rsp_header w) k v\<rparr>)"

text \<open>When the handler returns, the server writes the header if the handler did not.\<close>

abbreviation rw_finish :: "response \<Rightarrow> response" where
  "rw_finish \<equiv> rw_ensure_header"

text \<open>A JSON object of strings that need no escaping, as \<open>json.NewEncoder(w).Encode\<close> writes a
  \<open>map[string]string\<close> (keys sorted, a final newline).\<close>

definition json_pair :: "string \<times> string \<Rightarrow> string" where
  "json_pair p = [CHR 0x22] @ fst p @ [CHR 0x22, CHR '':'', CHR 0x22] @ snd p @ [CHR 0x22]"

definition json_strings :: "(string \<times> string) list \<Rightarrow> string" where
  "json_strings ps = ''{'' @ strings_Join (map json_pair ps) '','' @ ''}'' @ [CHR 0x0A]"

end
