(* ===== verification/Control_Events.thy ===== *)
theory Control_Events
  imports Go_Json Go_Url Go_Http
begin

text \<open>
  The event store of the control plane (\<open>services/control-api/internal/events/events.go\<close>): the query that is sent
  to ClickHouse, the reading of its answer, and the summary of a simulation.  \<open>now_utc\<close> and \<open>unrfc\<close> are how the
  process writes and reads times, \<open>parse\<close> is the reader of JSON texts, and \<open>send\<close> the HTTP client: it gets the URL
  and the credentials and returns the status and the body, or \<^term>\<open>None\<close> when the exchange fails.
\<close>

definition DefaultLimit :: int where
  "DefaultLimit = 100"

definition MaxLimit :: int where
  "MaxLimit = 1000"

record SearchFilters =
  sf_TenantID :: string
  sf_AppID :: string
  sf_PolicyID :: string
  sf_Host :: string
  sf_Action :: string
  sf_ClientIP :: string
  sf_MatchedRuleID :: string
  sf_From :: int
  sf_To :: int
  sf_Limit :: int

record events_Event =
  ev_Timestamp :: int
  ev_RequestID :: string
  ev_TenantID :: string
  ev_AppID :: string
  ev_PolicyID :: string
  ev_PolicyVersionID :: string
  ev_Host :: string
  ev_ClientIP :: string
  ev_Method :: string
  ev_Path :: string
  ev_Action :: string
  ev_Mode :: string
  ev_Enforced :: bool
  ev_WouldBlock :: bool
  ev_Status :: int
  ev_Reason :: string
  ev_MatchedRuleID :: string
  ev_MatchedRuleName :: string
  ev_RuleGroup :: string
  ev_Tags :: "string list"
  ev_AnomalyScore :: int
  ev_UserAgent :: string
  ev_LatencyMS :: int
  ev_OriginStatus :: int
  ev_OriginLatencyMS :: int

datatype events_error = LimitOutOfRange | FromAfterTo | TenantIDRequired | RequestIDRequired | EventNotFound | QueryFailed | EventsUndecodable

section \<open>The query\<close>

definition nl :: string where
  "nl = [CHR 0x0A]"

definition selected_columns :: "string list" where
  "selected_columns = [''request_id'', ''tenant_id'', ''app_id'', ''policy_id'', ''policy_version_id'', ''host'', ''client_ip'',
     ''method'', ''path'', ''action'', ''mode'', ''enforced'', ''would_block'', ''status'', ''reason'', ''matched_rule_id'',
     ''matched_rule_name'', ''rule_group'', ''tags'', ''anomaly_score'', ''user_agent'', ''latency_ms'', ''origin_status'']"

definition selectFields :: string where
  "selectFields = ''SELECT'' @ nl @
     ''formatDateTime(timestamp, '' @ [CHR 0x27] @ ''%Y-%m-%dT%H:%i:%S.%fZ'' @ [CHR 0x27] @ '', '' @ [CHR 0x27] @ ''UTC'' @ [CHR 0x27]
       @ '') AS timestamp,'' @ nl @
     concat (map (\<lambda>c. c @ '','' @ nl) selected_columns) @ ''origin_latency_ms'' @ nl"

text \<open>The closure \<open>addStringFilter\<close>.\<close>

definition addStringFilter :: "string \<Rightarrow> string \<Rightarrow> string list \<times> (string, string) gomap \<Rightarrow> string list \<times> (string, string) gomap" where
  "addStringFilter name v st =
     (if strings_TrimSpace v = [] then st
      else (fst st @ [name @ '' = {'' @ name @ '':String}''], AList.update name (strings_TrimSpace v) (snd st)))"

definition string_filters :: "SearchFilters \<Rightarrow> (string \<times> string) list" where
  "string_filters f = [(''tenant_id'', sf_TenantID f), (''app_id'', sf_AppID f), (''policy_id'', sf_PolicyID f), (''host'', sf_Host f),
     (''action'', sf_Action f), (''client_ip'', sf_ClientIP f), (''matched_rule_id'', sf_MatchedRuleID f)]"

definition time_clause :: "string \<Rightarrow> string \<Rightarrow> string" where
  "time_clause op name = ''timestamp '' @ op @ '' parseDateTime64BestEffort({'' @ name @ '':String}, 3)''"

definition add_time :: "(int \<Rightarrow> string) \<Rightarrow> string \<Rightarrow> string \<Rightarrow> int \<Rightarrow> string list \<times> (string, string) gomap \<Rightarrow> string list \<times> (string, string) gomap" where
  "add_time now_utc op name t st =
     (if t = 0 then st else (fst st @ [time_clause op name], AList.update name (now_utc t) (snd st)))"

definition search_query :: "string list \<Rightarrow> string" where
  "search_query clauses = selectFields @ nl @ ''FROM waf_events'' @ nl @ ''WHERE '' @ strings_Join clauses '' AND '' @ nl @
     ''ORDER BY timestamp DESC'' @ nl @ ''LIMIT {limit:UInt32}'' @ nl @ ''FORMAT JSONEachRow''"

definition BuildSearchQuery :: "(int \<Rightarrow> string) \<Rightarrow> SearchFilters \<Rightarrow> events_error + string \<times> (string, string) gomap" where
  "BuildSearchQuery now_utc f =
     (let limit = (if sf_Limit f = 0 then DefaultLimit else sf_Limit f) in
      if limit < 1 \<or> MaxLimit < limit then Inl LimitOutOfRange
      else if sf_From f \<noteq> 0 \<and> sf_To f \<noteq> 0 \<and> sf_To f < sf_From f then Inl FromAfterTo
      else
        let st0 = ([''1 = 1''], [(''limit'', strconv_Itoa limit)]);
            st1 = foldl (\<lambda>st (name, v). addStringFilter name v st) st0 (string_filters f);
            st2 = add_time now_utc ''>='' ''from'' (sf_From f) st1;
            st3 = add_time now_utc ''<='' ''to'' (sf_To f) st2
        in Inr (search_query (fst st3), snd st3))"

section \<open>The store\<close>

record HTTPStore =
  hs_endpoint :: string
  hs_database :: string
  hs_username :: string
  hs_password :: string

text \<open>\<open>str\<close> stands for \<open>URL.String\<close>.\<close>

definition NewHTTPStore :: "(URL \<Rightarrow> string) \<Rightarrow> string \<Rightarrow> string \<Rightarrow> string \<Rightarrow> string \<Rightarrow> HTTPStore option" where
  "NewHTTPStore str url database username password =
     (case url_Parse url of
        None \<Rightarrow> None
      | Some parsed \<Rightarrow>
          if url_Scheme parsed = [] \<or> url_Host parsed = [] then None
          else Some \<lparr>hs_endpoint = strings_TrimRight (str parsed) ''/'',
            hs_database = (if database = [] then ''bedemwaf'' else database), hs_username = username, hs_password = password\<rparr>)"

definition query_values :: "HTTPStore \<Rightarrow> string \<Rightarrow> (string, string) gomap \<Rightarrow> url_values" where
  "query_values s q params =
     foldl (\<lambda>vs (name, v). AList.update (''param_'' @ name) [v] vs) [(''database'', [hs_database s]), (''query'', [q])] params"

definition store_query ::
  "(string \<Rightarrow> (string \<times> string) option \<Rightarrow> 's \<Rightarrow> 's \<times> (int \<times> string) option) \<Rightarrow> HTTPStore \<Rightarrow> string \<Rightarrow> (string, string) gomap \<Rightarrow>
   's \<Rightarrow> 's \<times> (events_error + string)" where
  "store_query send s q params w =
     (let url = hs_endpoint s @ ''/?'' @ values_Encode (query_values s q params);
          auth = (if hs_username s \<noteq> [] \<or> hs_password s \<noteq> [] then Some (hs_username s, hs_password s) else None)
      in case send url auth w of
           (w', None) \<Rightarrow> (w', Inl QueryFailed)
         | (w', Some (status, body)) \<Rightarrow>
             (w', if status < 200 \<or> 300 \<le> status then Inl QueryFailed else Inr (take 10485760 body)))"

text \<open>The lines of \<open>bufio.Scanner\<close>: a line of more than 65535 bytes stops it with an error.\<close>

definition scan_lines :: "string \<Rightarrow> string list \<times> bool" where
  "scan_lines data =
     (let pieces = split_on CHR 0x0A data;
          lines = (if last pieces = [] then butlast pieces else pieces)
      in (takeWhile (\<lambda>l. length l \<le> 65535) lines, list_all (\<lambda>l. length l \<le> 65535) lines))"

definition json_uint :: "nat \<Rightarrow> json \<Rightarrow> int \<Rightarrow> int option" where
  "json_uint w j old = (case j of JNull \<Rightarrow> Some old | JInt i \<Rightarrow> if 0 \<le> i \<and> i < 2 ^ w then Some i else None | _ \<Rightarrow> None)"

definition json_int32 :: "json \<Rightarrow> int \<Rightarrow> int option" where
  "json_int32 j old = (case j of JNull \<Rightarrow> Some old | JInt i \<Rightarrow> if - (2 ^ 31) \<le> i \<and> i < 2 ^ 31 then Some i else None | _ \<Rightarrow> None)"

definition json_timestamp :: "(string \<Rightarrow> int option) \<Rightarrow> json \<Rightarrow> int \<Rightarrow> int option" where
  "json_timestamp unrfc j old = (case j of JNull \<Rightarrow> Some old | JStr s \<Rightarrow> unrfc s | _ \<Rightarrow> None)"

definition event_fields :: "(string \<Rightarrow> int option) \<Rightarrow> events_Event json_fields" where
  "event_fields unrfc =
     [(''timestamp'', \<lambda>j r. map_option (\<lambda>x. r\<lparr>ev_Timestamp := x\<rparr>) (json_timestamp unrfc j (ev_Timestamp r))),
      (''request_id'', \<lambda>j r. map_option (\<lambda>x. r\<lparr>ev_RequestID := x\<rparr>) (json_string j (ev_RequestID r))),
      (''tenant_id'', \<lambda>j r. map_option (\<lambda>x. r\<lparr>ev_TenantID := x\<rparr>) (json_string j (ev_TenantID r))),
      (''app_id'', \<lambda>j r. map_option (\<lambda>x. r\<lparr>ev_AppID := x\<rparr>) (json_string j (ev_AppID r))),
      (''policy_id'', \<lambda>j r. map_option (\<lambda>x. r\<lparr>ev_PolicyID := x\<rparr>) (json_string j (ev_PolicyID r))),
      (''policy_version_id'', \<lambda>j r. map_option (\<lambda>x. r\<lparr>ev_PolicyVersionID := x\<rparr>) (json_string j (ev_PolicyVersionID r))),
      (''host'', \<lambda>j r. map_option (\<lambda>x. r\<lparr>ev_Host := x\<rparr>) (json_string j (ev_Host r))),
      (''client_ip'', \<lambda>j r. map_option (\<lambda>x. r\<lparr>ev_ClientIP := x\<rparr>) (json_string j (ev_ClientIP r))),
      (''method'', \<lambda>j r. map_option (\<lambda>x. r\<lparr>ev_Method := x\<rparr>) (json_string j (ev_Method r))),
      (''path'', \<lambda>j r. map_option (\<lambda>x. r\<lparr>ev_Path := x\<rparr>) (json_string j (ev_Path r))),
      (''action'', \<lambda>j r. map_option (\<lambda>x. r\<lparr>ev_Action := x\<rparr>) (json_string j (ev_Action r))),
      (''mode'', \<lambda>j r. map_option (\<lambda>x. r\<lparr>ev_Mode := x\<rparr>) (json_string j (ev_Mode r))),
      (''enforced'', \<lambda>j r. map_option (\<lambda>x. r\<lparr>ev_Enforced := x\<rparr>) (json_bool j (ev_Enforced r))),
      (''would_block'', \<lambda>j r. map_option (\<lambda>x. r\<lparr>ev_WouldBlock := x\<rparr>) (json_bool j (ev_WouldBlock r))),
      (''status'', \<lambda>j r. map_option (\<lambda>x. r\<lparr>ev_Status := x\<rparr>) (json_uint 16 j (ev_Status r))),
      (''reason'', \<lambda>j r. map_option (\<lambda>x. r\<lparr>ev_Reason := x\<rparr>) (json_string j (ev_Reason r))),
      (''matched_rule_id'', \<lambda>j r. map_option (\<lambda>x. r\<lparr>ev_MatchedRuleID := x\<rparr>) (json_string j (ev_MatchedRuleID r))),
      (''matched_rule_name'', \<lambda>j r. map_option (\<lambda>x. r\<lparr>ev_MatchedRuleName := x\<rparr>) (json_string j (ev_MatchedRuleName r))),
      (''rule_group'', \<lambda>j r. map_option (\<lambda>x. r\<lparr>ev_RuleGroup := x\<rparr>) (json_string j (ev_RuleGroup r))),
      (''tags'', \<lambda>j r. map_option (\<lambda>x. r\<lparr>ev_Tags := x\<rparr>) (json_slice json_string [] j (ev_Tags r))),
      (''anomaly_score'', \<lambda>j r. map_option (\<lambda>x. r\<lparr>ev_AnomalyScore := x\<rparr>) (json_int32 j (ev_AnomalyScore r))),
      (''user_agent'', \<lambda>j r. map_option (\<lambda>x. r\<lparr>ev_UserAgent := x\<rparr>) (json_string j (ev_UserAgent r))),
      (''latency_ms'', \<lambda>j r. map_option (\<lambda>x. r\<lparr>ev_LatencyMS := x\<rparr>) (json_uint 32 j (ev_LatencyMS r))),
      (''origin_status'', \<lambda>j r. map_option (\<lambda>x. r\<lparr>ev_OriginStatus := x\<rparr>) (json_uint 16 j (ev_OriginStatus r))),
      (''origin_latency_ms'', \<lambda>j r. map_option (\<lambda>x. r\<lparr>ev_OriginLatencyMS := x\<rparr>) (json_uint 32 j (ev_OriginLatencyMS r)))]"

definition zero_event :: events_Event where
  "zero_event = \<lparr>ev_Timestamp = 0, ev_RequestID = [], ev_TenantID = [], ev_AppID = [], ev_PolicyID = [], ev_PolicyVersionID = [],
     ev_Host = [], ev_ClientIP = [], ev_Method = [], ev_Path = [], ev_Action = [], ev_Mode = [], ev_Enforced = False,
     ev_WouldBlock = False, ev_Status = 0, ev_Reason = [], ev_MatchedRuleID = [], ev_MatchedRuleName = [], ev_RuleGroup = [],
     ev_Tags = [], ev_AnomalyScore = 0, ev_UserAgent = [], ev_LatencyMS = 0, ev_OriginStatus = 0, ev_OriginLatencyMS = 0\<rparr>"

definition decode_event :: "unicode \<Rightarrow> (string \<Rightarrow> int option) \<Rightarrow> (string \<Rightarrow> json option) \<Rightarrow> string \<Rightarrow> events_Event option" where
  "decode_event U unrfc parse line =
     (case parse line of None \<Rightarrow> None | Some j \<Rightarrow> json_struct U False (event_fields unrfc) j zero_event)"

definition decodeEvents :: "unicode \<Rightarrow> (string \<Rightarrow> int option) \<Rightarrow> (string \<Rightarrow> json option) \<Rightarrow> string \<Rightarrow> events_error + events_Event list" where
  "decodeEvents U unrfc parse data =
     (let (lines, complete) = scan_lines data in
      case collect_opt (decode_event U unrfc parse) (filter (\<lambda>l. l \<noteq> []) (map strings_TrimSpace lines)) of
        None \<Rightarrow> Inl EventsUndecodable
      | Some evs \<Rightarrow> if complete then Inr evs else Inl EventsUndecodable)"

record 's event_env =
  en_unicode :: unicode
  en_utc :: "int \<Rightarrow> string"
  en_unrfc :: "string \<Rightarrow> int option"
  en_parse :: "string \<Rightarrow> json option"
  en_send :: "string \<Rightarrow> (string \<times> string) option \<Rightarrow> 's \<Rightarrow> 's \<times> (int \<times> string) option"

definition Search :: "'s event_env \<Rightarrow> HTTPStore \<Rightarrow> SearchFilters \<Rightarrow> 's \<Rightarrow> 's \<times> (events_error + events_Event list)" where
  "Search E s f w =
     (case BuildSearchQuery (en_utc E) f of
        Inl e \<Rightarrow> (w, Inl e)
      | Inr (q, params) \<Rightarrow>
          (case store_query (en_send E) s q params w of
             (w', Inl e) \<Rightarrow> (w', Inl e)
           | (w', Inr data) \<Rightarrow> (w', decodeEvents (en_unicode E) (en_unrfc E) (en_parse E) data)))"

definition by_request_query :: string where
  "by_request_query = selectFields @ nl @ ''FROM waf_events'' @ nl @ ''WHERE tenant_id = {tenant_id:String}'' @ nl @
     ''  AND request_id = {request_id:String}'' @ nl @ ''ORDER BY timestamp DESC'' @ nl @ ''LIMIT 1'' @ nl @ ''FORMAT JSONEachRow''"

definition GetByRequestID :: "'s event_env \<Rightarrow> HTTPStore \<Rightarrow> string \<Rightarrow> string \<Rightarrow> 's \<Rightarrow> 's \<times> (events_error + events_Event)" where
  "GetByRequestID E s tenantID requestID w =
     (let t = strings_TrimSpace tenantID; r = strings_TrimSpace requestID in
      if t = [] then (w, Inl TenantIDRequired)
      else if r = [] then (w, Inl RequestIDRequired)
      else (case store_query (en_send E) s by_request_query [(''tenant_id'', t), (''request_id'', r)] w of
          (w', Inl e) \<Rightarrow> (w', Inl e)
        | (w', Inr data) \<Rightarrow>
            (w', case decodeEvents (en_unicode E) (en_unrfc E) (en_parse E) data of
               Inl e \<Rightarrow> Inl e
             | Inr [] \<Rightarrow> Inl EventNotFound
             | Inr (ev # _) \<Rightarrow> Inr ev)))"

section \<open>Simulation summaries\<close>

record SimulationRuleSummary =
  sr_RuleID :: string
  sr_RuleName :: string
  sr_WouldBlockCount :: nat
  sr_UniqueIPs :: nat
  sr_TopPaths :: "string list"
  sr_SampleRequestIDs :: "string list"

record accumulator =
  ac_ruleName :: string
  ac_count :: nat
  ac_ips :: "string set"
  ac_paths :: "(string, nat) gomap"
  ac_samples :: "string list"

definition topPaths :: "(string, nat) gomap \<Rightarrow> nat \<Rightarrow> string list" where
  "topPaths counts limit = map fst (take limit (sort_key (\<lambda>(p, c). - int c) (sort_key fst counts)))"

definition rule_of :: "events_Event \<Rightarrow> string" where
  "rule_of e = (if strings_TrimSpace (ev_MatchedRuleID e) = [] then ''unknown'' else strings_TrimSpace (ev_MatchedRuleID e))"

definition bump :: "string \<Rightarrow> (string, nat) gomap \<Rightarrow> (string, nat) gomap" where
  "bump k m = AList.update k (case map_of m k of None \<Rightarrow> 1 | Some n \<Rightarrow> Suc n) m"

definition accumulate :: "events_Event \<Rightarrow> accumulator \<Rightarrow> accumulator" where
  "accumulate e a =
     \<lparr>ac_ruleName = ac_ruleName a, ac_count = Suc (ac_count a),
      ac_ips = (if ev_ClientIP e = [] then ac_ips a else insert (ev_ClientIP e) (ac_ips a)),
      ac_paths = (if ev_Path e = [] then ac_paths a else bump (ev_Path e) (ac_paths a)),
      ac_samples = (if ev_RequestID e = [] \<or> 5 \<le> length (ac_samples a) then ac_samples a else ac_samples a @ [ev_RequestID e])\<rparr>"

definition new_accumulator :: "events_Event \<Rightarrow> accumulator" where
  "new_accumulator e = \<lparr>ac_ruleName = ev_MatchedRuleName e, ac_count = 0, ac_ips = {}, ac_paths = [], ac_samples = []\<rparr>"

definition add_event :: "(string, accumulator) gomap \<Rightarrow> events_Event \<Rightarrow> (string, accumulator) gomap" where
  "add_event byRule e =
     (if \<not> ev_WouldBlock e then byRule
      else AList.update (rule_of e)
        (accumulate e (case map_of byRule (rule_of e) of None \<Rightarrow> new_accumulator e | Some got \<Rightarrow> got)) byRule)"

definition summary :: "string \<times> accumulator \<Rightarrow> SimulationRuleSummary" where
  "summary x = (case x of (ruleID, got) \<Rightarrow>
     \<lparr>sr_RuleID = ruleID, sr_RuleName = ac_ruleName got, sr_WouldBlockCount = ac_count got, sr_UniqueIPs = card (ac_ips got),
      sr_TopPaths = topPaths (ac_paths got) 5, sr_SampleRequestIDs = ac_samples got\<rparr>)"

text \<open>\<open>sort.Slice\<close> with a comparison that orders by count, then by identifier; the identifiers are distinct.\<close>

definition BuildSimulationSummary :: "events_Event list \<Rightarrow> SimulationRuleSummary list" where
  "BuildSimulationSummary input =
     sort_key (\<lambda>s. - int (sr_WouldBlockCount s)) (sort_key sr_RuleID (map summary (foldl add_event [] input)))"

end
