(* ===== verification/Control_Events_Facts.thy ===== *)
theory Control_Events_Facts
  imports Control_Events
begin

text \<open>
  Facts about the event store: the text of a search never contains a value of a filter, the
  events found for a tenant are the tenant's when ClickHouse evaluates the conditions of a query, and the summary of a
  simulation is the grouping of the blocked events by rule.
\<close>

section \<open>Searches\<close>

definition not_blank_value :: "string \<times> string \<Rightarrow> bool" where
  "not_blank_value e \<longleftrightarrow> strings_TrimSpace (snd e) \<noteq> []"

definition string_clause :: "string \<times> string \<Rightarrow> string" where
  "string_clause e = fst e @ '' = {'' @ fst e @ '':String}''"

definition time_clauses :: "SearchFilters \<Rightarrow> string list" where
  "time_clauses f = (if sf_From f = 0 then [] else [time_clause ''>='' ''from'']) @ (if sf_To f = 0 then [] else [time_clause ''<='' ''to''])"

definition effective_limit :: "SearchFilters \<Rightarrow> int" where
  "effective_limit f = (if sf_Limit f = 0 then DefaultLimit else sf_Limit f)"

lemma string_filters_clauses:
  "fst (foldl (\<lambda>st (name, v). addStringFilter name v st) st fs) = fst st @ map string_clause (filter not_blank_value fs)"
  by (induction fs arbitrary: st) (auto simp: addStringFilter_def not_blank_value_def string_clause_def)

lemma string_filters_params:
  assumes "distinct (map fst fs)"
  shows "map_of (snd (foldl (\<lambda>st (name, v). addStringFilter name v st) st fs)) n =
    (case map_of (filter not_blank_value fs) n of Some v \<Rightarrow> Some (strings_TrimSpace v) | None \<Rightarrow> map_of (snd st) n)"
  using assms
proof (induction fs arbitrary: st)
  case (Cons e fs)
  obtain k v where e: "e = (k, v)" by force
  have "map_of (filter not_blank_value fs) k = None" using Cons.prems by (auto simp: e map_of_eq_None_iff)
  moreover have "addStringFilter k v st = (if not_blank_value e then (fst st @ [string_clause e], AList.update k (strings_TrimSpace v) (snd st)) else st)"
    by (simp add: e addStringFilter_def not_blank_value_def string_clause_def)
  ultimately show ?case using Cons.IH Cons.prems by (auto simp: e update_conv' split: option.splits)
qed simp

lemma map_of_filter_key:
  assumes "distinct (map fst fs)" "e \<in> set fs"
  shows "map_of (filter P fs) (fst e) = (if P e then Some (snd e) else None)"
proof (cases "P e")
  case True
  then have "(fst e, snd e) \<in> set (filter P fs)" using assms(2) by simp
  with True distinct_map_filter [OF assms(1)] show ?thesis by (simp add: map_of_is_SomeI)
next
  case False
  have "e' = e" if "e' \<in> set fs" "fst e' = fst e" for e'
    using that assms by (metis eq_key_imp_eq_value prod.collapse)
  with False have "fst e \<notin> fst ` set (filter P fs)" by fastforce
  with False show ?thesis by (simp add: map_of_eq_None_iff)
qed

text \<open>The parts of a search: its clauses, and its parameters under their names.\<close>

lemma BuildSearchQuery_parts:
  assumes "BuildSearchQuery now_utc f = Inr (q, params)"
  shows "q = search_query (''1 = 1'' # map string_clause (filter not_blank_value (string_filters f)) @ time_clauses f)"
    "\<And>e. e \<in> set (string_filters f) \<Longrightarrow> map_of params (fst e) = (if not_blank_value e then Some (strings_TrimSpace (snd e)) else None)"
    "map_of params ''from'' = (if sf_From f = 0 then None else Some (now_utc (sf_From f)))"
    "map_of params ''to'' = (if sf_To f = 0 then None else Some (now_utc (sf_To f)))"
    "map_of params ''limit'' = Some (strconv_Itoa (effective_limit f))" "1 \<le> effective_limit f \<and> effective_limit f \<le> 1000"
    "distinct (map fst params)"
proof -
  let ?st = "foldl (\<lambda>st (name, v). addStringFilter name v st) ([''1 = 1''], [(''limit'', strconv_Itoa (effective_limit f))]) (string_filters f)"
  let ?st3 = "add_time now_utc ''<='' ''to'' (sf_To f) (add_time now_utc ''>='' ''from'' (sf_From f) ?st)"
  have ok: "1 \<le> effective_limit f \<and> effective_limit f \<le> 1000" and q: "q = search_query (fst ?st3)" and p: "params = snd ?st3"
    using assms by (auto simp: BuildSearchQuery_def Let_def effective_limit_def MaxLimit_def split: if_splits)
  have dist: "distinct (map fst (string_filters f))" by (simp add: string_filters_def)
  have clauses: "fst ?st3 = ''1 = 1'' # map string_clause (filter not_blank_value (string_filters f)) @ time_clauses f"
    by (simp add: add_time_def time_clauses_def string_filters_clauses)
  have params: "map_of params n = map_of (snd ?st) n" if "n \<noteq> ''from''" "n \<noteq> ''to''" for n
    using that unfolding p by (simp add: add_time_def update_conv')
  have keys: "fst e \<noteq> ''from''" "fst e \<noteq> ''to''" "fst e \<noteq> ''limit''" if "e \<in> set (string_filters f)" for e
    using that by (auto simp: string_filters_def)
  show vals: "map_of params (fst e) = (if not_blank_value e then Some (strings_TrimSpace (snd e)) else None)" if e: "e \<in> set (string_filters f)" for e
    using keys [OF e] by (simp add: params string_filters_params [OF dist] map_of_filter_key [OF dist e])
  have "map_of (filter not_blank_value (string_filters f)) ''limit'' = None"
    by (auto simp: map_of_eq_None_iff string_filters_def)
  then show limit: "map_of params ''limit'' = Some (strconv_Itoa (effective_limit f))"
    by (simp add: params string_filters_params [OF dist])
  have none: "map_of (filter not_blank_value (string_filters f)) n = None" if "n = ''from'' \<or> n = ''to''" for n
    using that by (auto simp: map_of_eq_None_iff string_filters_def)
  show "map_of params ''from'' = (if sf_From f = 0 then None else Some (now_utc (sf_From f)))"
    "map_of params ''to'' = (if sf_To f = 0 then None else Some (now_utc (sf_To f)))"
    by (simp_all add: p add_time_def update_conv' string_filters_params [OF dist] none)
  have "distinct (map fst (snd (foldl (\<lambda>st (name, v). addStringFilter name v st) st fs)))" if "distinct (map fst (snd st))" for st fs
    using that by (induction fs arbitrary: st) (auto simp: addStringFilter_def distinct_update)
  then show "distinct (map fst params)" unfolding p by (simp add: add_time_def distinct_update)
  show "1 \<le> effective_limit f \<and> effective_limit f \<le> 1000" by (rule ok)
  show "q = search_query (''1 = 1'' # map string_clause (filter not_blank_value (string_filters f)) @ time_clauses f)" unfolding q clauses by (rule refl)
qed

lemma tenant_clause:
  assumes "BuildSearchQuery now_utc f = Inr (q, params)" "strings_TrimSpace (sf_TenantID f) \<noteq> []"
  shows "\<exists>cs. q = search_query (''1 = 1'' # ''tenant_id = {tenant_id:String}'' # cs) \<and> set cs \<subseteq> string_clause ` set (string_filters f) \<union> set (time_clauses f)"
    "map_of params ''tenant_id'' = Some (strings_TrimSpace (sf_TenantID f))"
proof -
  have tenant: "string_filters f = (''tenant_id'', sf_TenantID f) # tl (string_filters f)" by (simp add: string_filters_def)
  note parts = BuildSearchQuery_parts [OF assms(1)]
  have "map string_clause (filter not_blank_value (string_filters f)) =
      ''tenant_id = {tenant_id:String}'' # map string_clause (filter not_blank_value (tl (string_filters f)))"
    using assms(2) by (subst tenant) (simp add: not_blank_value_def string_clause_def)
  moreover have "set (tl (string_filters f)) \<subseteq> set (string_filters f)" by (subst (2) tenant) auto
  ultimately show "\<exists>cs. q = search_query (''1 = 1'' # ''tenant_id = {tenant_id:String}'' # cs) \<and> set cs \<subseteq> string_clause ` set (string_filters f) \<union> set (time_clauses f)"
    unfolding parts(1) by (intro exI [of _ "map string_clause (filter not_blank_value (tl (string_filters f))) @ time_clauses f"]) auto
  show "map_of params ''tenant_id'' = Some (strings_TrimSpace (sf_TenantID f))"
    using parts(2) [of "(''tenant_id'', sf_TenantID f)"] assms(2) tenant by (simp add: not_blank_value_def string_filters_def)
qed

text \<open>C37: A search is parametrised.  The text sent to ClickHouse consists of fixed clauses, one for each filter that is set, the
  first one always the tenant's when the tenant is set; no value of a filter occurs in it.  The values travel as
  parameters: the texts trimmed, each bound of the time range under its own name exactly when it is set, and the limit,
  which is between one and a thousand.\<close>

theorem search_is_parametrised:
  assumes "BuildSearchQuery now_utc f = Inr (q, params)"
  shows "q = search_query (''1 = 1'' # map string_clause (filter not_blank_value (string_filters f)) @ time_clauses f) \<and>
    (\<forall>e \<in> set (string_filters f). map_of params (fst e) = (if not_blank_value e then Some (strings_TrimSpace (snd e)) else None)) \<and>
    map_of params ''from'' = (if sf_From f = 0 then None else Some (now_utc (sf_From f))) \<and>
    map_of params ''to'' = (if sf_To f = 0 then None else Some (now_utc (sf_To f))) \<and>
    (strings_TrimSpace (sf_TenantID f) \<noteq> [] \<longrightarrow> (\<exists>cs. q = search_query (''1 = 1'' # ''tenant_id = {tenant_id:String}'' # cs)) \<and>
       map_of params ''tenant_id'' = Some (strings_TrimSpace (sf_TenantID f))) \<and>
    map_of params ''limit'' = Some (strconv_Itoa (effective_limit f)) \<and> 1 \<le> effective_limit f \<and> effective_limit f \<le> 1000"
  using BuildSearchQuery_parts [OF assms] tenant_clause [OF assms] by blast

definition sample_filters :: SearchFilters where
  "sample_filters = \<lparr>sf_TenantID = ''acme'', sf_AppID = [], sf_PolicyID = [], sf_Host = '' shop.example'', sf_Action = [], sf_ClientIP = [],
     sf_MatchedRuleID = [], sf_From = 0, sf_To = 0, sf_Limit = 0\<rparr>"

theorem search_is_parametrised_witness:
  "\<exists>q params. BuildSearchQuery (\<lambda>_. []) sample_filters = Inr (q, params) \<and> map_of params ''tenant_id'' = Some ''acme'' \<and>
     map_of params ''limit'' = Some ''100''"
proof -
  have "\<exists>q params. BuildSearchQuery (\<lambda>_. []) sample_filters = Inr (q, params)"
    by (simp add: BuildSearchQuery_def sample_filters_def Let_def DefaultLimit_def MaxLimit_def)
  then obtain q params where b: "BuildSearchQuery (\<lambda>_. []) sample_filters = Inr (q, params)" by blast
  have "strings_TrimSpace ''acme'' = ''acme''" "strconv_Itoa 100 = ''100''" by code_simp+
  then show ?thesis
    using b search_is_parametrised [OF b] by (simp add: string_filters_def not_blank_value_def sample_filters_def effective_limit_def DefaultLimit_def)
qed

section \<open>The tenant of the answers\<close>

text \<open>The conditions a search can have, and the queries that ask for one tenant: searches with the clause of the tenant, and
  the query for one event.\<close>

definition filter_columns :: "string list" where
  "filter_columns = [''tenant_id'', ''app_id'', ''policy_id'', ''host'', ''action'', ''client_ip'', ''matched_rule_id'']"

definition search_clauses :: "string list" where
  "search_clauses = ''1 = 1'' # map (\<lambda>n. string_clause (n, [])) filter_columns @ [time_clause ''>='' ''from'', time_clause ''<='' ''to'']"

definition asks_for_tenant :: "string \<Rightarrow> bool" where
  "asks_for_tenant q \<longleftrightarrow> q = by_request_query \<or>
     (\<exists>cs. q = search_query cs \<and> ''tenant_id = {tenant_id:String}'' \<in> set cs \<and> set cs \<subseteq> set search_clauses)"

text \<open>What is expected of ClickHouse: it evaluates the \<open>WHERE\<close> clause, so the rows it answers to a query that compares
  \<open>tenant_id\<close> with the parameter of that name carry the value of the parameter.  Nothing is expected of other queries.\<close>

definition clickhouse_filters :: "'s event_env \<Rightarrow> HTTPStore \<Rightarrow> bool" where
  "clickhouse_filters E h \<longleftrightarrow> (\<forall>q params w w' data evs t.
     asks_for_tenant q \<longrightarrow> distinct (map fst params) \<longrightarrow> map_of params ''tenant_id'' = Some t \<longrightarrow>
     store_query (en_send E) h q params w = (w', Inr data) \<longrightarrow>
     decodeEvents (en_unicode E) (en_unrfc E) (en_parse E) data = Inr evs \<longrightarrow> (\<forall>e \<in> set evs. ev_TenantID e = t))"

lemma clickhouse_filtersD:
  assumes "clickhouse_filters E h" "asks_for_tenant q" "distinct (map fst params)" "map_of params ''tenant_id'' = Some t"
    and "store_query (en_send E) h q params w = (w', Inr data)"
    and "decodeEvents (en_unicode E) (en_unrfc E) (en_parse E) data = Inr evs" "e \<in> set evs"
  shows "ev_TenantID e = t"
  using assms unfolding clickhouse_filters_def by blast

lemma tenant_search_asks:
  assumes "BuildSearchQuery now_utc f = Inr (q, params)" "strings_TrimSpace (sf_TenantID f) \<noteq> []"
  shows "asks_for_tenant q"
proof -
  obtain cs where q: "q = search_query (''1 = 1'' # ''tenant_id = {tenant_id:String}'' # cs)"
    and cs: "set cs \<subseteq> string_clause ` set (string_filters f) \<union> set (time_clauses f)"
    using tenant_clause [OF assms] by blast
  have "fst ` set (string_filters f) = set filter_columns" by (simp add: string_filters_def filter_columns_def)
  moreover have "string_clause e = string_clause (fst e, [])" for e by (simp add: string_clause_def)
  ultimately have "string_clause ` set (string_filters f) \<subseteq> (\<lambda>n. string_clause (n, [])) ` set filter_columns"
    by (metis (no_types, lifting) image_image image_subsetI imageI)
  then have "string_clause ` set (string_filters f) \<subseteq> set search_clauses" by (auto simp: search_clauses_def)
  moreover have "set (time_clauses f) \<subseteq> set search_clauses" by (simp add: time_clauses_def search_clauses_def)
  ultimately have "set cs \<subseteq> set search_clauses" using cs by blast
  moreover have "''tenant_id = {tenant_id:String}'' = string_clause (''tenant_id'', [])" by (simp add: string_clause_def)
  then have "''tenant_id = {tenant_id:String}'' \<in> set search_clauses" by (simp add: search_clauses_def filter_columns_def)
  moreover have "''1 = 1'' \<in> set search_clauses" by (simp add: search_clauses_def)
  ultimately have "set (''1 = 1'' # ''tenant_id = {tenant_id:String}'' # cs) \<subseteq> set search_clauses" by simp
  then show ?thesis unfolding asks_for_tenant_def q by (intro disjI2 exI conjI) (rule refl, simp)
qed

lemma Search_tenant:
  assumes "clickhouse_filters E h" "Search E h f w = (w', Inr evs)" "strings_TrimSpace (sf_TenantID f) \<noteq> []" "e \<in> set evs"
  shows "ev_TenantID e = strings_TrimSpace (sf_TenantID f)"
proof -
  obtain q params data where b: "BuildSearchQuery (en_utc E) f = Inr (q, params)" and
    s: "store_query (en_send E) h q params w = (w', Inr data)" and
    d: "decodeEvents (en_unicode E) (en_unrfc E) (en_parse E) data = Inr evs"
    using assms(2) by (auto simp: Search_def split: sum.splits prod.splits)
  show ?thesis
    by (rule clickhouse_filtersD [OF assms(1) tenant_search_asks [OF b assms(3)] BuildSearchQuery_parts(7) [OF b] tenant_clause(2) [OF b assms(3)] s d assms(4)])
qed

lemma GetByRequestID_tenant:
  assumes "clickhouse_filters E h" "GetByRequestID E h t i w = (w', Inr e)"
  shows "ev_TenantID e = strings_TrimSpace t"
proof -
  obtain data evs where s: "store_query (en_send E) h by_request_query [(''tenant_id'', strings_TrimSpace t), (''request_id'', strings_TrimSpace i)] w = (w', Inr data)" and
    d: "decodeEvents (en_unicode E) (en_unrfc E) (en_parse E) data = Inr (e # evs)"
    using assms(2) by (auto simp: GetByRequestID_def Let_def split: sum.splits prod.splits if_splits list.splits)
  show ?thesis
    by (rule clickhouse_filtersD [OF assms(1) _ _ _ s d]) (simp_all add: asks_for_tenant_def)
qed

section \<open>Summaries\<close>

text \<open>The rules in the order of their first event, and the events of a rule.\<close>

definition note_id :: "string list \<Rightarrow> string \<Rightarrow> string list" where
  "note_id ids x = (if x \<in> set ids then ids else ids @ [x])"

definition blocked_events :: "events_Event list \<Rightarrow> events_Event list" where
  "blocked_events input = filter ev_WouldBlock input"

definition rules_of :: "events_Event list \<Rightarrow> string list" where
  "rules_of input = foldl note_id [] (map rule_of (blocked_events input))"

definition events_of :: "string \<Rightarrow> events_Event list \<Rightarrow> events_Event list" where
  "events_of i input = filter (\<lambda>e. rule_of e = i) (blocked_events input)"

definition named :: "('a \<Rightarrow> string) \<Rightarrow> 'a list \<Rightarrow> string list" where
  "named g es = filter (\<lambda>x. x \<noteq> []) (map g es)"

text \<open>What a summary should say of the events of its rule.\<close>

definition accumulated :: "events_Event list \<Rightarrow> accumulator" where
  "accumulated es = \<lparr>ac_ruleName = ev_MatchedRuleName (hd es), ac_count = length es, ac_ips = set (named ev_ClientIP es),
     ac_paths = foldl (\<lambda>m p. bump p m) [] (named ev_Path es), ac_samples = take 5 (named ev_RequestID es)\<rparr>"

lemma accumulated_snoc: "es \<noteq> [] \<Longrightarrow> accumulated (es @ [e]) = accumulate e (accumulated es)"
  by (auto simp: accumulated_def accumulate_def named_def)

lemma accumulated_single: "accumulated [e] = accumulate e (new_accumulator e)"
  by (simp add: accumulated_def accumulate_def new_accumulator_def named_def)

lemma update_assoc:
  "distinct ids \<Longrightarrow> AList.update k v (map (\<lambda>i. (i, f i)) ids) = map (\<lambda>i. (i, if i = k then v else f i)) (note_id ids k)"
proof (induction ids)
  case (Cons i ids)
  then show ?case by (cases "i = k") (auto simp: note_id_def)
qed (simp add: note_id_def)

lemma note_id_distinct: "distinct ids \<Longrightarrow> distinct (note_id ids x)" "set (note_id ids x) = insert x (set ids)"
  by (auto simp: note_id_def)

lemma rules_of_snoc: "rules_of (es @ [e]) = (if ev_WouldBlock e then note_id (rules_of es) (rule_of e) else rules_of es)"
  by (simp add: rules_of_def blocked_events_def)

lemma rules_of_distinct: "distinct (rules_of input)"
  by (induction input rule: rev_induct) (simp_all add: rules_of_snoc note_id_distinct, simp add: rules_of_def blocked_events_def)

lemma rules_of_set: "set (rules_of input) = rule_of ` set (blocked_events input)"
proof (induction input rule: rev_induct)
  case (snoc e es)
  then show ?case by (simp add: rules_of_snoc note_id_distinct blocked_events_def)
qed (simp add: rules_of_def blocked_events_def)

lemma events_of_snoc: "events_of i (es @ [e]) = events_of i es @ (if ev_WouldBlock e \<and> rule_of e = i then [e] else [])"
  by (simp add: events_of_def blocked_events_def)

lemma events_of_empty: "events_of i es = [] \<longleftrightarrow> i \<notin> set (rules_of es)"
  by (auto simp: events_of_def rules_of_set filter_empty_conv)

lemma add_events: "foldl add_event [] input = map (\<lambda>i. (i, accumulated (events_of i input))) (rules_of input)"
proof (induction input rule: rev_induct)
  case Nil
  show ?case by (simp add: rules_of_def blocked_events_def)
next
  case (snoc e es)
  let ?f = "\<lambda>i. accumulated (events_of i es)"
  have m: "map_of (map (\<lambda>i. (i, ?f i)) (rules_of es)) k = (if k \<in> set (rules_of es) then Some (?f k) else None)" for k
    by (simp add: map_of_map_restrict)
  show ?case
  proof (cases "ev_WouldBlock e")
    case True
    have new: "accumulate e (case map_of (map (\<lambda>i. (i, ?f i)) (rules_of es)) (rule_of e) of None \<Rightarrow> new_accumulator e | Some got \<Rightarrow> got) =
        accumulated (events_of (rule_of e) (es @ [e]))"
      using True events_of_empty [of "rule_of e" es]
      by (cases "rule_of e \<in> set (rules_of es)") (simp_all add: m events_of_snoc accumulated_snoc accumulated_single)
    have "foldl add_event [] (es @ [e]) = map (\<lambda>i. (i, if i = rule_of e then accumulated (events_of (rule_of e) (es @ [e])) else ?f i)) (note_id (rules_of es) (rule_of e))"
      unfolding foldl_append foldl.simps snoc.IH using True
      by (simp add: add_event_def [of _ e] new update_assoc rules_of_distinct)
    also have "\<dots> = map (\<lambda>i. (i, accumulated (events_of i (es @ [e])))) (rules_of (es @ [e]))"
      using True by (auto simp: rules_of_snoc events_of_snoc intro!: map_cong)
    finally show ?thesis .
  next
    case False
    then show ?thesis using snoc.IH by (simp add: add_event_def rules_of_snoc events_of_snoc)
  qed
qed

lemma bump_counts: "map_of (foldl (\<lambda>m p. bump p m) [] ps) p = (if p \<in> set ps then Some (count_list ps p) else None)"
proof (induction ps rule: rev_induct)
  case (snoc q qs)
  have "map_of (bump q m) p = (if p = q then Some (case map_of m q of None \<Rightarrow> 1 | Some n \<Rightarrow> Suc n) else map_of m p)" for m
    by (simp add: bump_def update_conv')
  then show ?case using snoc.IH by (auto simp: count_notin)
qed simp

lemma bump_distinct: "distinct (map fst (foldl (\<lambda>m p. bump p m) [] ps))"
  by (induction ps rule: rev_induct) (simp_all add: bump_def distinct_update)

lemma insort_key_map: "insort_key f (g x) (map g xs) = map g (insort_key (\<lambda>y. f (g y)) x xs)"
  by (induction xs) simp_all

lemma sort_key_map: "sort_key f (map g xs) = map g (sort_key (\<lambda>y. f (g y)) xs)"
  by (induction xs) (simp_all add: insort_key_map)

text \<open>The most frequent of a list of strings, ties in the order of the strings.\<close>

definition most_frequent :: "nat \<Rightarrow> string list \<Rightarrow> string list" where
  "most_frequent n ps = take n (sort_key (\<lambda>p. - int (count_list ps p)) (sorted_list_of_set (set ps)))"

lemma topPaths_bumped: "topPaths (foldl (\<lambda>m p. bump p m) [] ps) n = most_frequent n ps"
proof -
  let ?m = "foldl (\<lambda>m p. bump p m) [] ps"
  have keys: "fst ` set ?m = set ps" using bump_counts [of ps] by (metis (mono_tags, lifting) map_of_eq_None_iff option.distinct(1) subsetI subset_antisym)
  have "c = count_list ps p" if "(p, c) \<in> set ?m" for p c
    using map_of_is_SomeI [OF bump_distinct that] bump_counts [of ps p] by (auto split: if_splits)
  then have m: "?m = map (\<lambda>p. (p, count_list ps p)) (map fst ?m)"
    by (auto simp: comp_def intro!: map_idI [symmetric])
  have "sort (map fst ?m) = sorted_list_of_set (set ps)"
    using bump_distinct [of ps] keys by (metis distinct_remdups_id list.set_map sorted_list_of_set_sort_remdups)
  moreover have "sort_key fst ?m = sort_key fst (map (\<lambda>p. (p, count_list ps p)) (map fst ?m))" using m by (rule arg_cong)
  ultimately have "sort_key fst ?m = map (\<lambda>p. (p, count_list ps p)) (sorted_list_of_set (set ps))"
    unfolding sort_key_map [of fst "\<lambda>p. (p, count_list ps p)" "map fst ?m"] by simp
  then show ?thesis unfolding topPaths_def most_frequent_def
    by (simp add: sort_key_map [of "\<lambda>(p, c). - int c" "\<lambda>p. (p, count_list ps p)"] take_map comp_def)
qed

lemma sum_length_filter:
  "(\<Sum>i \<in> g ` set xs. length (filter (\<lambda>x. g x = i) xs)) = length xs"
proof -
  have "(\<Sum>i \<in> A. length (filter (\<lambda>x. g x = i) xs)) = length xs" if "finite A" "g ` set xs \<subseteq> A" for A
    using that(2)
  proof (induction xs)
    case (Cons x xs)
    have "(\<Sum>i \<in> A. length (filter (\<lambda>y. g y = i) (x # xs))) = (\<Sum>i \<in> A. (if g x = i then 1 else 0) + length (filter (\<lambda>y. g y = i) xs))"
      by (rule sum.cong) auto
    also have "\<dots> = (\<Sum>i \<in> A. if g x = i then 1 else 0) + length xs" using Cons by (simp add: sum.distrib)
    also have "(\<Sum>i \<in> A. if g x = i then 1 else (0::nat)) = 1" using Cons.prems that(1) by simp
    finally show ?case by simp
  qed simp
  then show ?thesis by simp
qed

text \<open>C38: The summary of a simulation groups the blocked events by rule: there is one entry for each rule that blocked, most
  blocks first; its count is the number of blocked events of the rule, its addresses are counted without repetition, its
  paths are the five most frequent ones, and its samples are the first five request identifiers.\<close>

theorem simulation_summary_groups:
  "mset (map sr_RuleID (BuildSimulationSummary input)) = mset_set (rule_of ` set (filter ev_WouldBlock input)) \<and>
   sorted (map (\<lambda>s. - int (sr_WouldBlockCount s)) (BuildSimulationSummary input)) \<and>
   sum_list (map sr_WouldBlockCount (BuildSimulationSummary input)) = length (filter ev_WouldBlock input) \<and>
   (\<forall>s \<in> set (BuildSimulationSummary input).
      sr_WouldBlockCount s = length (events_of (sr_RuleID s) input) \<and>
      sr_UniqueIPs s = card (set (named ev_ClientIP (events_of (sr_RuleID s) input))) \<and>
      sr_RuleName s = ev_MatchedRuleName (hd (events_of (sr_RuleID s) input)) \<and>
      sr_TopPaths s = most_frequent 5 (named ev_Path (events_of (sr_RuleID s) input)) \<and>
      sr_SampleRequestIDs s = take 5 (named ev_RequestID (events_of (sr_RuleID s) input)))"
proof -
  let ?S = "map (\<lambda>i. summary (i, accumulated (events_of i input))) (rules_of input)"
  have perm: "mset (BuildSimulationSummary input) = mset ?S"
    by (simp add: BuildSimulationSummary_def add_events comp_def)
  have "mset (map sr_RuleID (BuildSimulationSummary input)) = mset (map sr_RuleID ?S)" by (simp only: mset_map perm)
  also have "\<dots> = mset (rules_of input)" by (simp add: comp_def summary_def)
  also have "\<dots> = mset_set (set (rules_of input))" using rules_of_distinct by (simp add: mset_set_set)
  finally have ids: "mset (map sr_RuleID (BuildSimulationSummary input)) = mset_set (rule_of ` set (filter ev_WouldBlock input))"
    by (simp add: rules_of_set blocked_events_def)
  have "sum_list (map sr_WouldBlockCount (BuildSimulationSummary input)) = sum_list (map (\<lambda>i. length (events_of i input)) (rules_of input))"
    unfolding sum_mset_sum_list [symmetric] mset_map perm by (simp add: image_mset.compositionality comp_def summary_def accumulated_def)
  also have "\<dots> = (\<Sum>i \<in> set (rules_of input). length (events_of i input))" using rules_of_distinct by (rule sum_list_distinct_conv_sum_set)
  also have "\<dots> = length (blocked_events input)"
    unfolding events_of_def rules_of_set by (rule sum_length_filter)
  finally have total: "sum_list (map sr_WouldBlockCount (BuildSimulationSummary input)) = length (filter ev_WouldBlock input)"
    by (simp add: blocked_events_def)
  have "sorted (map (\<lambda>s. - int (sr_WouldBlockCount s)) (BuildSimulationSummary input))" by (simp add: BuildSimulationSummary_def)
  moreover have "set (BuildSimulationSummary input) = set ?S" using perm by (metis set_mset_mset)
  ultimately show ?thesis using ids total by (simp add: summary_def accumulated_def topPaths_bumped)
qed

definition sample_event :: "string \<Rightarrow> events_Event" where
  "sample_event rid = zero_event\<lparr>ev_WouldBlock := True, ev_MatchedRuleID := ''sqli'', ev_RequestID := rid\<rparr>"

theorem simulation_summary_groups_witness:
  "sum_list (map sr_WouldBlockCount (BuildSimulationSummary [sample_event ''a'', zero_event, sample_event ''b''])) = 2"
  using simulation_summary_groups [of "[sample_event ''a'', zero_event, sample_event ''b'']"]
  by (simp add: sample_event_def zero_event_def)

end
