(* ===== verification/Decision.thy ===== *)
theory Decision
  imports Go_Strings
begin

text \<open>
  The decision values of the data plane (\<open>services/gateway/internal/decision/decision.go\<close>).
  \<open>Action\<close> and \<open>Mode\<close> are string types in the source, with five and two named constants; the
  code converts configuration strings to them without a check, so they stay strings here.
\<close>

type_synonym action = string
type_synonym mode = string

definition ActionAllow :: action where "ActionAllow = ''allow''"
definition ActionCount :: action where "ActionCount = ''count''"
definition ActionBlock :: action where "ActionBlock = ''block''"
definition ActionChallenge :: action where "ActionChallenge = ''challenge''"
definition ActionRateLimit :: action where "ActionRateLimit = ''rate_limit''"

definition ModeCount :: mode where "ModeCount = ''count''"
definition ModeBlock :: mode where "ModeBlock = ''block''"

lemmas action_defs = ActionAllow_def ActionCount_def ActionBlock_def ActionChallenge_def ActionRateLimit_def
lemmas mode_defs = ModeCount_def ModeBlock_def

lemma action_distinct [simp]:
  "ActionAllow \<noteq> ActionCount" "ActionAllow \<noteq> ActionBlock" "ActionAllow \<noteq> ActionChallenge"
  "ActionAllow \<noteq> ActionRateLimit" "ActionCount \<noteq> ActionAllow" "ActionCount \<noteq> ActionBlock"
  "ActionCount \<noteq> ActionChallenge" "ActionCount \<noteq> ActionRateLimit" "ActionBlock \<noteq> ActionAllow"
  "ActionBlock \<noteq> ActionCount" "ActionBlock \<noteq> ActionChallenge" "ActionBlock \<noteq> ActionRateLimit"
  "ActionChallenge \<noteq> ActionAllow" "ActionChallenge \<noteq> ActionCount" "ActionChallenge \<noteq> ActionBlock"
  "ActionChallenge \<noteq> ActionRateLimit" "ActionRateLimit \<noteq> ActionAllow" "ActionRateLimit \<noteq> ActionCount"
  "ActionRateLimit \<noteq> ActionBlock" "ActionRateLimit \<noteq> ActionChallenge"
  by (simp_all add: action_defs)

lemma action_nonempty [simp]:
  "ActionAllow \<noteq> []" "ActionCount \<noteq> []" "ActionBlock \<noteq> []" "ActionChallenge \<noteq> []" "ActionRateLimit \<noteq> []"
  by (simp_all add: action_defs)

lemma mode_distinct [simp]: "ModeCount \<noteq> ModeBlock" "ModeBlock \<noteq> ModeCount"
  by (simp_all add: mode_defs)

record RateLimitInfo =
  rli_Limit :: int
  rli_Remaining :: int
  rli_ResetAt :: int
  rli_RuleID :: string
  rli_Action :: action

record Decision =
  d_Action :: action
  d_Reason :: string
  d_MatchedRuleID :: string
  d_MatchedRuleName :: string
  d_RuleGroup :: string
  d_Tags :: "string list"
  d_AnomalyScore :: int
  d_StatusCode :: int
  d_RateLimit :: "RateLimitInfo option"

text \<open>The zero value of the struct, from which composite literals start.\<close>

definition zero_Decision :: Decision where
  "zero_Decision = \<lparr>d_Action = [], d_Reason = [], d_MatchedRuleID = [], d_MatchedRuleName = [],
     d_RuleGroup = [], d_Tags = [], d_AnomalyScore = 0, d_StatusCode = 0, d_RateLimit = None\<rparr>"

definition Allow :: Decision where
  "Allow = zero_Decision\<lparr>d_Action := ActionAllow\<rparr>"

definition Block :: "string \<Rightarrow> string \<Rightarrow> Decision" where
  "Block reason matchedRuleID = zero_Decision\<lparr>d_Action := ActionBlock, d_Reason := reason,
     d_MatchedRuleID := matchedRuleID, d_StatusCode := 403\<rparr>"

definition RateLimit :: "string \<Rightarrow> string \<Rightarrow> Decision" where
  "RateLimit reason matchedRuleID = zero_Decision\<lparr>d_Action := ActionRateLimit, d_Reason := reason,
     d_MatchedRuleID := matchedRuleID\<rparr>"

definition Count :: "string \<Rightarrow> string \<Rightarrow> Decision" where
  "Count reason matchedRuleID = zero_Decision\<lparr>d_Action := ActionCount, d_Reason := reason,
     d_MatchedRuleID := matchedRuleID\<rparr>"

definition AllowRule :: "string \<Rightarrow> string \<Rightarrow> Decision" where
  "AllowRule reason matchedRuleID = zero_Decision\<lparr>d_Action := ActionAllow, d_Reason := reason,
     d_MatchedRuleID := matchedRuleID\<rparr>"

definition WithStatus :: "Decision \<Rightarrow> int \<Rightarrow> Decision" where
  "WithStatus d statusCode = d\<lparr>d_StatusCode := statusCode\<rparr>"

definition WouldBlock :: "Decision \<Rightarrow> bool" where
  "WouldBlock d \<longleftrightarrow>
     d_Action d = ActionBlock \<or> d_Action d = ActionRateLimit \<or> d_Action d = ActionChallenge"

definition EnforcedAction :: "mode \<Rightarrow> Decision \<Rightarrow> action" where
  "EnforcedAction m d = (if m = ModeCount \<and> WouldBlock d then ActionCount else d_Action d)"

lemmas decision_defs = zero_Decision_def Allow_def Block_def RateLimit_def Count_def AllowRule_def WithStatus_def

lemma decision_actions [simp]:
  "d_Action Allow = ActionAllow" "d_Action (Block r i) = ActionBlock" "d_Action (Count r i) = ActionCount"
  "d_Action (RateLimit r i) = ActionRateLimit" "d_Action (AllowRule r i) = ActionAllow"
  "d_Action (WithStatus d n) = d_Action d" "d_Action zero_Decision = []"
  by (simp_all add: decision_defs)

lemma decision_reasons [simp]:
  "d_Reason Allow = []" "d_Reason (Block r i) = r" "d_Reason (Count r i) = r" "d_Reason (RateLimit r i) = r"
  "d_Reason (AllowRule r i) = r" "d_Reason (WithStatus d n) = d_Reason d"
  by (simp_all add: decision_defs)

lemma decision_status [simp]:
  "d_StatusCode Allow = 0" "d_StatusCode (Block r i) = 403" "d_StatusCode (WithStatus d n) = n"
  by (simp_all add: decision_defs)

lemma WouldBlock_simps [simp]:
  "\<not> WouldBlock Allow" "WouldBlock (Block r i)" "\<not> WouldBlock (Count r i)" "WouldBlock (RateLimit r i)"
  "\<not> WouldBlock (AllowRule r i)" "WouldBlock (WithStatus d n) = WouldBlock d"
  by (simp_all add: WouldBlock_def)

lemma EnforcedAction_count: "EnforcedAction ModeCount d \<notin> {ActionBlock, ActionRateLimit, ActionChallenge}"
  by (auto simp: EnforcedAction_def WouldBlock_def)

end
