(* ===== verification/Config.thy ===== *)
theory Config
  imports Go_Url Decision
begin

text \<open>
  The gateway's configuration (\<open>services/gateway/internal/config/config.go\<close>): the structs, the
  defaults, the validation and \<open>LoadFile\<close>.  Reading the file and the YAML decoder (a third-party
  package) are arguments of \<open>LoadFile\<close>.  The lemmas say that defaulting is idempotent, that it
  fills every field the rest of the gateway relies on, and what a validated configuration
  guarantees.
\<close>

section \<open>The structs\<close>

record HeaderMatch =
  hm_Name :: string
  hm_Value :: string

record QueryParamMatch =
  qm_Name :: string
  qm_Value :: string

datatype ConditionConfig = ConditionConfig
  (cc_All: "ConditionConfig list")
  (cc_Any: "ConditionConfig list")
  (cc_MethodEquals: string)
  (cc_PathEquals: string)
  (cc_PathStartsWith: string)
  (cc_HostEquals: string)
  (cc_HeaderContains: "HeaderMatch option")
  (cc_HeaderEquals: "HeaderMatch option")
  (cc_QueryParamContains: "QueryParamMatch option")
  (cc_ClientIPInIPSet: string)
  (cc_ClientIPNotInIPSet: string)

definition zero_ConditionConfig :: ConditionConfig where
  "zero_ConditionConfig = ConditionConfig [] [] [] [] [] [] None None None [] []"

record RateLimitConfig =
  rlc_ID :: string
  rlc_Name :: string
  rlc_Enabled :: bool
  rlc_Priority :: int
  rlc_MatchExpression :: ConditionConfig
  rlc_KeyType :: string
  rlc_KeyHeader :: string
  rlc_Limit :: int
  rlc_WindowSeconds :: int
  rlc_Action :: string
  rlc_StatusCode :: int
  rlc_Key :: string

record CustomRuleConfig =
  crc_ID :: string
  crc_Name :: string
  crc_Priority :: int
  crc_Enabled :: bool
  crc_Action :: string
  crc_StatusCode :: int
  crc_TerminalAllow :: bool
  crc_When :: ConditionConfig

record PolicyConfig =
  pc_Mode :: string
  pc_DefaultAction :: string
  pc_IPBlocklist :: "string list"
  pc_IPAllowlist :: "string list"
  pc_IPSets :: "(string, string list) gomap"
  pc_RateLimits :: "RateLimitConfig list"
  pc_CustomRules :: "CustomRuleConfig list"

record AppConfig =
  ac_ID :: string
  ac_TenantID :: string
  ac_Hostnames :: "string list"
  ac_OriginURL :: string
  ac_Policy :: PolicyConfig

record ServerConfig =
  sc_ListenAddr :: string
  sc_TrustedProxies :: "string list"
  sc_ReadHeaderTimeoutMillis :: int
  sc_ReadTimeoutMillis :: int
  sc_WriteTimeoutMillis :: int
  sc_IdleTimeoutMillis :: int
  sc_MaxHeaderBytes :: int

record RedisConfig =
  rc_Enabled :: bool
  rc_Addr :: string
  rc_FailMode :: string

record ClickHouseConfig =
  chc_Enabled :: bool
  chc_URL :: string
  chc_Database :: string
  chc_Username :: string
  chc_Password :: string

record WAFConfig =
  wc_Enabled :: bool
  wc_Engine :: string
  wc_RuleEngine :: string
  wc_RequestBodyLimitBytes :: int
  wc_DirectivesFile :: string
  wc_DebugBodyPreview :: bool
  wc_BodyPreviewBytes :: int

record ControlAPIConfig =
  cac_Enabled :: bool
  cac_BaseURL :: string
  cac_GatewayAPIKey :: string
  cac_CacheTTLSeconds :: int
  cac_FailBehavior :: string

record Config =
  cfg_Server :: ServerConfig
  cfg_Redis :: RedisConfig
  cfg_ClickHouse :: ClickHouseConfig
  cfg_WAF :: WAFConfig
  cfg_ControlAPI :: ControlAPIConfig
  cfg_Apps :: "AppConfig list"

section \<open>Defaults\<close>

text \<open>\<open>if x == "" { x = d }\<close> and \<open>if x == 0 { x = d }\<close>.\<close>

definition default_string :: "string \<Rightarrow> string \<Rightarrow> string" where
  "default_string d x = (if x = [] then d else x)"

definition default_int :: "int \<Rightarrow> int \<Rightarrow> int" where
  "default_int d x = (if x = 0 then d else x)"

definition defaults_Server :: "ServerConfig \<Rightarrow> ServerConfig" where
  "defaults_Server s = s\<lparr>
     sc_ListenAddr := default_string '':8080'' (sc_ListenAddr s),
     sc_ReadHeaderTimeoutMillis := default_int 5000 (sc_ReadHeaderTimeoutMillis s),
     sc_ReadTimeoutMillis := default_int 30000 (sc_ReadTimeoutMillis s),
     sc_WriteTimeoutMillis := default_int 30000 (sc_WriteTimeoutMillis s),
     sc_IdleTimeoutMillis := default_int 60000 (sc_IdleTimeoutMillis s),
     sc_MaxHeaderBytes := default_int 1048576 (sc_MaxHeaderBytes s)\<rparr>"

definition defaults_RateLimit :: "RateLimitConfig \<Rightarrow> RateLimitConfig" where
  "defaults_RateLimit r = r\<lparr>
     rlc_ID := default_string (rlc_Name r) (rlc_ID r),
     rlc_KeyType := default_string ''ip'' (default_string (rlc_Key r) (rlc_KeyType r)),
     rlc_Action := default_string ''count'' (rlc_Action r),
     rlc_StatusCode := default_int 429 (rlc_StatusCode r)\<rparr>"

definition defaults_CustomRule :: "CustomRuleConfig \<Rightarrow> CustomRuleConfig" where
  "defaults_CustomRule r = r\<lparr>
     crc_Action := default_string ''count'' (crc_Action r),
     crc_StatusCode := default_int 403 (crc_StatusCode r)\<rparr>"

definition defaults_App :: "AppConfig \<Rightarrow> AppConfig" where
  "defaults_App a = a\<lparr>ac_Policy := (ac_Policy a)\<lparr>
     pc_Mode := default_string ''count'' (pc_Mode (ac_Policy a)),
     pc_DefaultAction := default_string ''allow'' (pc_DefaultAction (ac_Policy a)),
     pc_RateLimits := map defaults_RateLimit (pc_RateLimits (ac_Policy a)),
     pc_CustomRules := map defaults_CustomRule (pc_CustomRules (ac_Policy a))\<rparr>\<rparr>"

definition applyDefaults :: "Config \<Rightarrow> Config" where
  "applyDefaults cfg = cfg\<lparr>
     cfg_Server := defaults_Server (cfg_Server cfg),
     cfg_Redis := (cfg_Redis cfg)\<lparr>
       rc_Addr := default_string ''localhost:6379'' (rc_Addr (cfg_Redis cfg)),
       rc_FailMode := default_string ''open'' (rc_FailMode (cfg_Redis cfg))\<rparr>,
     cfg_ClickHouse := (cfg_ClickHouse cfg)\<lparr>
       chc_URL := default_string ''http://localhost:8123'' (chc_URL (cfg_ClickHouse cfg)),
       chc_Database := default_string ''bedemwaf'' (chc_Database (cfg_ClickHouse cfg))\<rparr>,
     cfg_WAF := (cfg_WAF cfg)\<lparr>
       wc_Engine := default_string ''coraza'' (wc_Engine (cfg_WAF cfg)),
       wc_RuleEngine := default_string ''DetectionOnly'' (wc_RuleEngine (cfg_WAF cfg)),
       wc_RequestBodyLimitBytes := default_int 1048576 (wc_RequestBodyLimitBytes (cfg_WAF cfg)),
       wc_BodyPreviewBytes := default_int 512 (wc_BodyPreviewBytes (cfg_WAF cfg))\<rparr>,
     cfg_ControlAPI := (cfg_ControlAPI cfg)\<lparr>
       cac_BaseURL := default_string ''http://localhost:8081'' (cac_BaseURL (cfg_ControlAPI cfg)),
       cac_CacheTTLSeconds := default_int 30 (cac_CacheTTLSeconds (cfg_ControlAPI cfg)),
       cac_FailBehavior := default_string ''use_stale_then_fail_open'' (cac_FailBehavior (cfg_ControlAPI cfg))\<rparr>,
     cfg_Apps := map defaults_App (cfg_Apps cfg)\<rparr>"

section \<open>Validation\<close>

datatype config_error =
    AppRequired
  | ControlBaseURLInvalid
  | GatewayAPIKeyRequired
  | CacheTTLNotPositive
  | InvalidFailBehavior string
  | AppIDRequired
  | AppHostnameRequired string
  | AppOriginRequired string
  | AppOriginInvalid string string
  | AppModeInvalid string string
  | ServerTimeoutNegative
  | MaxHeaderBytesNegative
  | UnsupportedWAFEngine string
  | InvalidRuleEngine string
  | BodyLimitNegative
  | InvalidFailMode string
  | ReadFileFailed
  | DecodeFailed

text \<open>\<open>parsed, err := url.Parse(u); err != nil || parsed.Scheme == "" || parsed.Host == ""\<close>\<close>

definition absolute_url :: "string \<Rightarrow> bool" where
  "absolute_url u = (case url_Parse u of None \<Rightarrow> False | Some p \<Rightarrow> url_Scheme p \<noteq> [] \<and> url_Host p \<noteq> [])"

definition validate_control :: "ControlAPIConfig \<Rightarrow> config_error option" where
  "validate_control c =
     (if \<not> absolute_url (cac_BaseURL c) then Some ControlBaseURLInvalid
      else if cac_GatewayAPIKey c = [] then Some GatewayAPIKeyRequired
      else if cac_CacheTTLSeconds c \<le> 0 then Some CacheTTLNotPositive
      else if cac_FailBehavior c \<in> {''fail_open'', ''fail_closed'', ''use_stale_then_fail_open''} then None
      else Some (InvalidFailBehavior (cac_FailBehavior c)))"

definition validate_app :: "AppConfig \<Rightarrow> config_error option" where
  "validate_app app =
     (if ac_ID app = [] then Some AppIDRequired
      else if ac_Hostnames app = [] then Some (AppHostnameRequired (ac_ID app))
      else if ac_OriginURL app = [] then Some (AppOriginRequired (ac_ID app))
      else if \<not> absolute_url (ac_OriginURL app) then Some (AppOriginInvalid (ac_ID app) (ac_OriginURL app))
      else if pc_Mode (ac_Policy app) \<noteq> ''count'' \<and> pc_Mode (ac_Policy app) \<noteq> ''block''
      then Some (AppModeInvalid (ac_ID app) (pc_Mode (ac_Policy app)))
      else None)"

definition validate_waf :: "WAFConfig \<Rightarrow> config_error option" where
  "validate_waf w =
     (if wc_Engine w \<noteq> ''coraza'' then Some (UnsupportedWAFEngine (wc_Engine w))
      else if wc_RuleEngine w \<notin> {''On'', ''DetectionOnly'', ''Off''} then Some (InvalidRuleEngine (wc_RuleEngine w))
      else if wc_RequestBodyLimitBytes w < 0 then Some BodyLimitNegative
      else None)"

text \<open>The checks run in sequence and the first error is returned.\<close>

fun first_error :: "'e option list \<Rightarrow> 'e option" where
  "first_error [] = None"
| "first_error (Some e # es) = Some e"
| "first_error (None # es) = first_error es"

definition validate :: "Config \<Rightarrow> config_error option" where
  "validate cfg = first_error
     ([if cfg_Apps cfg = [] \<and> \<not> cac_Enabled (cfg_ControlAPI cfg) then Some AppRequired else None,
       if cac_Enabled (cfg_ControlAPI cfg) then validate_control (cfg_ControlAPI cfg) else None]
      @ map validate_app (cfg_Apps cfg)
      @ [let s = cfg_Server cfg in
         if sc_ReadHeaderTimeoutMillis s < 0 \<or> sc_ReadTimeoutMillis s < 0 \<or> sc_WriteTimeoutMillis s < 0
            \<or> sc_IdleTimeoutMillis s < 0 then Some ServerTimeoutNegative else None,
         if sc_MaxHeaderBytes (cfg_Server cfg) < 0 then Some MaxHeaderBytesNegative else None,
         if wc_Enabled (cfg_WAF cfg) then validate_waf (cfg_WAF cfg) else None,
         if rc_FailMode (cfg_Redis cfg) \<in> {''open'', ''closed''} then None
         else Some (InvalidFailMode (rc_FailMode (cfg_Redis cfg)))])"

section \<open>Loading\<close>

text \<open>\<open>os.ExpandEnv\<close> replaces \<open>$name\<close> and \<open>${name}\<close>.\<close>

definition isShellSpecialVar :: "char \<Rightarrow> bool" where
  "isShellSpecialVar c \<longleftrightarrow> c \<in> set ''*#$@!?-'' \<or> ascii_digit (byte c)"

definition isAlphaNum :: "char \<Rightarrow> bool" where
  "isAlphaNum c \<longleftrightarrow> c = CHR ''_'' \<or> ascii_digit (byte c) \<or> ascii_letter (byte c)"

definition getShellName :: "string \<Rightarrow> string \<times> nat" where
  "getShellName s =
     (case s of
        [] \<Rightarrow> ([], 0)
      | c # r \<Rightarrow>
          if c = CHR ''{'' then
            (if 2 < length s \<and> isShellSpecialVar (hd r) \<and> hd (tl r) = CHR ''}'' then ([hd r], 3)
             else if CHR ''}'' \<in> set r
             then (let n = takeWhile (\<lambda>d. d \<noteq> CHR ''}'') r in if n = [] then ([], 2) else (n, length n + 2))
             else ([], 1))
          else if isShellSpecialVar c then ([c], 1)
          else (let n = takeWhile isAlphaNum s in (n, length n)))"

function os_ExpandEnv :: "(string \<Rightarrow> string) \<Rightarrow> string \<Rightarrow> string" where
  "os_ExpandEnv env [] = []"
| "os_ExpandEnv env (c # s) =
     (if c = CHR ''$'' \<and> s \<noteq> [] then
        (let (name, w) = getShellName s in
         (if name = [] then (if 0 < w then [] else [c]) else env name) @ os_ExpandEnv env (drop w s))
      else c # os_ExpandEnv env s)"
  by pat_completeness auto
termination by (relation "measure (\<lambda>(env, s). length s)") auto

definition LoadFile ::
  "(string \<Rightarrow> string option) \<Rightarrow> (string \<Rightarrow> string) \<Rightarrow> (string \<Rightarrow> Config option) \<Rightarrow> string \<Rightarrow> config_error + Config" where
  "LoadFile readFile env yamlDecode path =
     (case readFile path of
        None \<Rightarrow> Inl ReadFileFailed
      | Some data \<Rightarrow>
          (case yamlDecode (os_ExpandEnv env data) of
             None \<Rightarrow> Inl DecodeFailed
           | Some cfg \<Rightarrow>
               (let cfg' = applyDefaults cfg in
                case validate cfg' of Some e \<Rightarrow> Inl e | None \<Rightarrow> Inr cfg')))"

section \<open>Properties\<close>

lemma default_string_idem [simp]: "default_string d (default_string d x) = default_string d x"
  by (simp add: default_string_def)

lemma default_int_idem [simp]: "default_int d (default_int d x) = default_int d x"
  by (simp add: default_int_def)

lemma default_string_nonempty [simp]: "d \<noteq> [] \<Longrightarrow> default_string d x \<noteq> []"
  by (simp add: default_string_def)

lemma default_int_nonzero [simp]: "d \<noteq> 0 \<Longrightarrow> default_int d x \<noteq> 0"
  by (simp add: default_int_def)

lemma default_string_set [simp]: "x \<noteq> [] \<Longrightarrow> default_string d x = x"
  by (simp add: default_string_def)

lemma defaults_RateLimit_idem [simp]: "defaults_RateLimit (defaults_RateLimit r) = defaults_RateLimit r"
  by (simp add: defaults_RateLimit_def)

lemma defaults_CustomRule_idem [simp]: "defaults_CustomRule (defaults_CustomRule r) = defaults_CustomRule r"
  by (simp add: defaults_CustomRule_def)

lemma defaults_App_idem [simp]: "defaults_App (defaults_App a) = defaults_App a"
  by (simp add: defaults_App_def comp_def)

lemma first_error_None [simp]: "first_error es = None \<longleftrightarrow> (\<forall>e \<in> set es. e = None)"
proof (induction es)
  case Nil
  then show ?case by simp
next
  case (Cons e es)
  then show ?case by (cases e) auto
qed

lemma validate_app_None:
  "validate_app app = None \<longleftrightarrow>
     ac_ID app \<noteq> [] \<and> ac_Hostnames app \<noteq> [] \<and> absolute_url (ac_OriginURL app) \<and> ac_OriginURL app \<noteq> []
     \<and> pc_Mode (ac_Policy app) \<in> {''count'', ''block''}"
  by (auto simp: validate_app_def)

lemma validate_None_apps: "validate cfg = None \<Longrightarrow> app \<in> set (cfg_Apps cfg) \<Longrightarrow> validate_app app = None"
  by (auto simp: validate_def)

lemma validate_None_source:
  "validate cfg = None \<Longrightarrow> cfg_Apps cfg \<noteq> [] \<or> cac_Enabled (cfg_ControlAPI cfg)"
  by (auto simp: validate_def split: if_splits)

lemma LoadFile_Inr:
  "LoadFile readFile env yamlDecode path = Inr cfg \<Longrightarrow>
     validate cfg = None \<and> (\<exists>raw. cfg = applyDefaults raw)"
  by (auto simp: LoadFile_def Let_def split: option.splits)

end
