(* ===== verification/Policy.thy ===== *)
theory Policy
  imports Config Go_Netip_Facts Go_Http
begin

text \<open>
  The policy model of the gateway, first half of \<open>services/gateway/internal/policy/store.go\<close>: the
  structs, host names, and the compilation of an \<open>AppConfig\<close> into an \<open>App\<close> (prefixes, IP sets,
  conditions, custom rules, rate limits) and of the applications into a \<open>Store\<close>.  The lemmas say
  what a compiled policy guarantees to the evaluation: rules sorted stably by priority with
  distinct identifiers, conditions with exactly one operator and known IP sets, positive limits
  and windows, valid masked prefixes, and one application per host name.
\<close>

section \<open>The structs\<close>

record HeaderCondition =
  hc_Name :: string
  hc_Value :: string

record QueryParamCondition =
  qc_Name :: string
  qc_Value :: string

datatype Condition = Condition
  (c_All: "Condition list")
  (c_Any: "Condition list")
  (c_MethodEquals: string)
  (c_PathEquals: string)
  (c_PathStartsWith: string)
  (c_HostEquals: string)
  (c_HeaderContains: "HeaderCondition option")
  (c_HeaderEquals: "HeaderCondition option")
  (c_QueryParamContains: "QueryParamCondition option")
  (c_ClientIPInIPSet: string)
  (c_ClientIPNotInIPSet: string)

record RateLimitRule =
  rl_ID :: string
  rl_Name :: string
  rl_Enabled :: bool
  rl_Priority :: int
  rl_MatchExpression :: "Condition option"
  rl_KeyType :: string
  rl_KeyHeader :: string
  rl_Limit :: int
  rl_WindowSeconds :: int
  rl_Action :: action
  rl_StatusCode :: int

record CustomRule =
  cr_ID :: string
  cr_Name :: string
  cr_Priority :: int
  cr_Enabled :: bool
  cr_Action :: action
  cr_StatusCode :: int
  cr_TerminalAllow :: bool
  cr_When :: Condition

record RequestContext =
  rq_Method :: string
  rq_Path :: string
  rq_Host :: string
  rq_Headers :: http_header
  rq_Query :: url_values
  rq_ClientIP :: Addr

type_synonym ip_sets = "(string, Prefix list) gomap"

record App =
  app_ID :: string
  app_TenantID :: string
  app_PolicyID :: string
  app_PolicyVersion :: string
  app_Hostnames :: "string list"
  app_Origin :: URL
  app_Mode :: mode
  app_DefaultAction :: action
  app_IPBlocklist :: "Prefix list"
  app_IPAllowlist :: "Prefix list"
  app_IPSets :: ip_sets
  app_RateLimits :: "RateLimitRule list"
  app_CustomRules :: "CustomRule list"
  app_RawOriginString :: string

record Store =
  st_byHost :: "string \<rightharpoonup> App"

record LookupResult =
  lr_App :: "App option"
  lr_Found :: bool
  lr_FailOpen :: bool
  lr_StatusCode :: int
  lr_Reason :: string
  lr_Warning :: string
  lr_Stale :: bool

definition zero_LookupResult :: LookupResult where
  "zero_LookupResult = \<lparr>lr_App = None, lr_Found = False, lr_FailOpen = False, lr_StatusCode = 0,
     lr_Reason = [], lr_Warning = [], lr_Stale = False\<rparr>"

section \<open>Host names\<close>

definition NormalizeHost :: "unicode \<Rightarrow> string \<Rightarrow> string" where
  "NormalizeHost U h =
     (let host = strings_TrimSpace (strings_ToLower U h) in
      if host = [] then []
      else (case (if strings_Contains host '':'' then net_SplitHostPort host else None) of
          Some (parsedHost, _) \<Rightarrow> strings_Trim parsedHost ''[]''
        | None \<Rightarrow> strings_Trim host ''[]''))"

definition valid_label :: "unicode \<Rightarrow> string \<Rightarrow> bool" where
  "valid_label U l \<longleftrightarrow>
     \<not> (l = [] \<or> 63 < length l \<or> hd l = CHR ''-'' \<or> last l = CHR ''-'') \<and>
     list_all (\<lambda>r. unicode_IsLetter U r \<or> unicode_IsDigit U r \<or> r = byte CHR ''-'') (runes l)"

definition host_separators :: string where
  "host_separators = '' '' @ [CHR 0x09, CHR 0x0D, CHR 0x0A] @ ''/@''"

definition ValidHost :: "unicode \<Rightarrow> string \<Rightarrow> bool" where
  "ValidHost U h =
     (let raw = strings_TrimSpace (strings_ToLower U h); host = NormalizeHost U h in
      if raw = [] \<or> strings_ContainsAny raw host_separators \<or> strings_Contains raw ''://'' then False
      else if host = [] \<or> 253 < length host then False
      else if strings_ContainsAny host host_separators then False
      else if strings_Contains host ''..'' then False
      else if netip_ParseAddr host \<noteq> None then True
      else list_all (valid_label U) (split_on CHR ''.'' (strings_TrimSuffix host ''.'')))"

section \<open>Prefixes and IP sets\<close>

datatype condition_error =
    OperatorCount nat
  | HeaderContainsIncomplete
  | HeaderEqualsIncomplete
  | QueryContainsIncomplete
  | UnknownIPSet string

datatype rule_error =
    RuleIDRequired
  | DuplicateRuleID string
  | RuleNameRequired string
  | LimitNotPositive string
  | WindowNotPositive string
  | UnsupportedAction string string
  | UnsupportedKeyType string string
  | KeyHeaderRequired string
  | InvalidStatusCode string int
  | RuleCondition string condition_error

datatype policy_error =
    OriginUnparsable string
  | OriginIncomplete string
  | BadBlocklist string
  | BadAllowlist string
  | IPSetNameEmpty string
  | BadIPSet string string
  | BadCustomRules string rule_error
  | BadRateLimits string rule_error
  | DuplicateHostname string string string

definition parse_prefix :: "string \<Rightarrow> string + Prefix" where
  "parse_prefix v =
     (case netip_ParsePrefix (strings_TrimSpace v) of
        None \<Rightarrow> Inl v
      | Some p \<Rightarrow> Inr (prefix_Masked p))"

definition parsePrefixes :: "string list \<Rightarrow> string + Prefix list" where
  "parsePrefixes values = traverse parse_prefix values"

text \<open>The error carries the name of the offending set, \<^term>\<open>None\<close> when that name is blank.\<close>

definition parse_ip_set :: "string \<times> string list \<Rightarrow> string option + string \<times> Prefix list" where
  "parse_ip_set e =
     (case e of (name, cidrs) \<Rightarrow>
        if strings_TrimSpace name = [] then Inl None
        else (case parsePrefixes cidrs of
            Inl _ \<Rightarrow> Inl (Some name)
          | Inr ps \<Rightarrow> Inr (name, ps)))"

definition parseIPSets :: "(string, string list) gomap \<Rightarrow> string option + ip_sets" where
  "parseIPSets values = traverse parse_ip_set values"

definition canonicalHeaderName :: "string \<Rightarrow> string" where
  "canonicalHeaderName name = http_CanonicalHeaderKey (strings_TrimSpace name)"

section \<open>Conditions\<close>

definition operator_flags :: "ConditionConfig \<Rightarrow> bool list" where
  "operator_flags v =
     [0 < length (cc_All v), 0 < length (cc_Any v), cc_MethodEquals v \<noteq> [], cc_PathEquals v \<noteq> [],
      cc_PathStartsWith v \<noteq> [], cc_HostEquals v \<noteq> [], cc_HeaderContains v \<noteq> None,
      cc_HeaderEquals v \<noteq> None, cc_QueryParamContains v \<noteq> None, cc_ClientIPInIPSet v \<noteq> [],
      cc_ClientIPNotInIPSet v \<noteq> []]"

definition validateCondition :: "ip_sets \<Rightarrow> ConditionConfig \<Rightarrow> condition_error option" where
  "validateCondition ipSets v =
     (let operators = length (filter id (operator_flags v)) in
      if operators \<noteq> 1 then Some (OperatorCount operators)
      else if (case cc_HeaderContains v of None \<Rightarrow> False | Some m \<Rightarrow> hm_Name m = [] \<or> hm_Value m = [])
      then Some HeaderContainsIncomplete
      else if (case cc_HeaderEquals v of None \<Rightarrow> False | Some m \<Rightarrow> hm_Name m = [] \<or> hm_Value m = [])
      then Some HeaderEqualsIncomplete
      else if (case cc_QueryParamContains v of None \<Rightarrow> False | Some m \<Rightarrow> qm_Name m = [] \<or> qm_Value m = [])
      then Some QueryContainsIncomplete
      else if cc_ClientIPInIPSet v \<noteq> [] \<and> map_of ipSets (cc_ClientIPInIPSet v) = None
      then Some (UnknownIPSet (cc_ClientIPInIPSet v))
      else if cc_ClientIPNotInIPSet v \<noteq> [] \<and> map_of ipSets (cc_ClientIPNotInIPSet v) = None
      then Some (UnknownIPSet (cc_ClientIPNotInIPSet v))
      else None)"

definition hasCondition :: "ConditionConfig \<Rightarrow> bool" where
  "hasCondition v \<longleftrightarrow>
     0 < length (cc_All v) \<or> 0 < length (cc_Any v) \<or> cc_MethodEquals v \<noteq> [] \<or> cc_PathEquals v \<noteq> [] \<or>
     cc_PathStartsWith v \<noteq> [] \<or> cc_HostEquals v \<noteq> [] \<or> cc_HeaderContains v \<noteq> None \<or>
     cc_HeaderEquals v \<noteq> None \<or> cc_QueryParamContains v \<noteq> None \<or> cc_ClientIPInIPSet v \<noteq> [] \<or>
     cc_ClientIPNotInIPSet v \<noteq> []"

definition header_condition :: "HeaderMatch \<Rightarrow> HeaderCondition" where
  "header_condition m = \<lparr>hc_Name = canonicalHeaderName (hm_Name m), hc_Value = hm_Value m\<rparr>"

definition query_condition :: "QueryParamMatch \<Rightarrow> QueryParamCondition" where
  "query_condition m = \<lparr>qc_Name = qm_Name m, qc_Value = qm_Value m\<rparr>"

fun parseCondition :: "ip_sets \<Rightarrow> ConditionConfig \<Rightarrow> condition_error + Condition" where
  "parseCondition ipSets (ConditionConfig al an me pe ps he hct heq qp ini nini) =
     (case validateCondition ipSets (ConditionConfig al an me pe ps he hct heq qp ini nini) of
        Some e \<Rightarrow> Inl e
      | None \<Rightarrow>
          (case traverse (parseCondition ipSets) al of
             Inl e \<Rightarrow> Inl e
           | Inr al' \<Rightarrow>
               (case traverse (parseCondition ipSets) an of
                  Inl e \<Rightarrow> Inl e
                | Inr an' \<Rightarrow>
                    Inr (Condition al' an' me pe ps he (map_option header_condition hct)
                      (map_option header_condition heq) (map_option query_condition qp) ini nini))))"

declare parseCondition.simps [simp del]

section \<open>Rules\<close>

text \<open>The body of the loop of \<open>parseCustomRules\<close>; \<open>seen\<close> are the identifiers of the earlier rules.\<close>

definition parse_custom_rule :: "ip_sets \<Rightarrow> string list \<Rightarrow> CustomRuleConfig \<Rightarrow> rule_error + CustomRule" where
  "parse_custom_rule ipSets seen v =
     (if strings_TrimSpace (crc_ID v) = [] then Inl RuleIDRequired
      else if crc_ID v \<in> set seen then Inl (DuplicateRuleID (crc_ID v))
      else if crc_Name v = [] then Inl (RuleNameRequired (crc_ID v))
      else if crc_Action v \<notin> {ActionAllow, ActionCount, ActionBlock}
      then Inl (UnsupportedAction (crc_ID v) (crc_Action v))
      else if crc_StatusCode v < 0 \<or> 999 < crc_StatusCode v
      then Inl (InvalidStatusCode (crc_ID v) (crc_StatusCode v))
      else (case parseCondition ipSets (crc_When v) of
          Inl e \<Rightarrow> Inl (RuleCondition (crc_ID v) e)
        | Inr c \<Rightarrow> Inr \<lparr>cr_ID = crc_ID v, cr_Name = crc_Name v, cr_Priority = crc_Priority v,
            cr_Enabled = crc_Enabled v, cr_Action = crc_Action v, cr_StatusCode = crc_StatusCode v,
            cr_TerminalAllow = crc_TerminalAllow v, cr_When = c\<rparr>))"

definition parseCustomRules :: "CustomRuleConfig list \<Rightarrow> ip_sets \<Rightarrow> rule_error + CustomRule list" where
  "parseCustomRules vs ipSets =
     (case traverse_seen (parse_custom_rule ipSets) crc_ID [] vs of
        Inl e \<Rightarrow> Inl e
      | Inr rules \<Rightarrow> Inr (sort_key cr_Priority rules))"

definition known_key_types :: "string list" where
  "known_key_types = [''ip'', ''host'', ''path'', ''header'', ''api_key_placeholder'']"

definition parse_match :: "ip_sets \<Rightarrow> ConditionConfig \<Rightarrow> condition_error + Condition option" where
  "parse_match ipSets v =
     (if hasCondition v
      then (case parseCondition ipSets v of Inl e \<Rightarrow> Inl e | Inr c \<Rightarrow> Inr (Some c))
      else Inr None)"

definition parse_rate_limit :: "ip_sets \<Rightarrow> string list \<Rightarrow> RateLimitConfig \<Rightarrow> rule_error + RateLimitRule" where
  "parse_rate_limit ipSets seen v =
     (if strings_TrimSpace (rlc_ID v) = [] then Inl RuleIDRequired
      else if rlc_ID v \<in> set seen then Inl (DuplicateRuleID (rlc_ID v))
      else if rlc_Name v = [] then Inl (RuleNameRequired (rlc_ID v))
      else if rlc_Limit v \<le> 0 then Inl (LimitNotPositive (rlc_ID v))
      else if rlc_WindowSeconds v \<le> 0 then Inl (WindowNotPositive (rlc_ID v))
      else if rlc_Action v \<noteq> ActionCount \<and> rlc_Action v \<noteq> ActionBlock
      then Inl (UnsupportedAction (rlc_ID v) (rlc_Action v))
      else if rlc_KeyType v \<notin> set known_key_types
      then Inl (UnsupportedKeyType (rlc_ID v) (rlc_KeyType v))
      else if rlc_KeyType v = ''header'' \<and> rlc_KeyHeader v = [] then Inl (KeyHeaderRequired (rlc_ID v))
      else if rlc_StatusCode v < 0 \<or> 999 < rlc_StatusCode v
      then Inl (InvalidStatusCode (rlc_ID v) (rlc_StatusCode v))
      else (case parse_match ipSets (rlc_MatchExpression v) of
          Inl e \<Rightarrow> Inl (RuleCondition (rlc_ID v) e)
        | Inr m \<Rightarrow> Inr \<lparr>rl_ID = rlc_ID v, rl_Name = rlc_Name v, rl_Enabled = rlc_Enabled v,
            rl_Priority = rlc_Priority v, rl_MatchExpression = m, rl_KeyType = rlc_KeyType v,
            rl_KeyHeader = canonicalHeaderName (rlc_KeyHeader v), rl_Limit = rlc_Limit v,
            rl_WindowSeconds = rlc_WindowSeconds v, rl_Action = rlc_Action v,
            rl_StatusCode = rlc_StatusCode v\<rparr>))"

definition parseRateLimitRules :: "RateLimitConfig list \<Rightarrow> ip_sets \<Rightarrow> rule_error + RateLimitRule list" where
  "parseRateLimitRules vs ipSets =
     (case traverse_seen (parse_rate_limit ipSets) rlc_ID [] vs of
        Inl e \<Rightarrow> Inl e
      | Inr rules \<Rightarrow> Inr (sort_key rl_Priority rules))"

section \<open>Applications and the store\<close>

definition newApp :: "AppConfig \<Rightarrow> policy_error + App" where
  "newApp cfg =
     (case url_Parse (ac_OriginURL cfg) of
        None \<Rightarrow> Inl (OriginUnparsable (ac_ID cfg))
      | Some origin \<Rightarrow>
     (if url_Scheme origin = [] \<or> url_Host origin = [] then Inl (OriginIncomplete (ac_ID cfg)) else
     (case parsePrefixes (pc_IPBlocklist (ac_Policy cfg)) of
        Inl _ \<Rightarrow> Inl (BadBlocklist (ac_ID cfg))
      | Inr blocklist \<Rightarrow>
     (case parsePrefixes (pc_IPAllowlist (ac_Policy cfg)) of
        Inl _ \<Rightarrow> Inl (BadAllowlist (ac_ID cfg))
      | Inr allowlist \<Rightarrow>
     (case parseIPSets (pc_IPSets (ac_Policy cfg)) of
        Inl None \<Rightarrow> Inl (IPSetNameEmpty (ac_ID cfg))
      | Inl (Some n) \<Rightarrow> Inl (BadIPSet (ac_ID cfg) n)
      | Inr ipSets \<Rightarrow>
     (case parseCustomRules (pc_CustomRules (ac_Policy cfg)) ipSets of
        Inl e \<Rightarrow> Inl (BadCustomRules (ac_ID cfg) e)
      | Inr customRules \<Rightarrow>
     (case parseRateLimitRules (pc_RateLimits (ac_Policy cfg)) ipSets of
        Inl e \<Rightarrow> Inl (BadRateLimits (ac_ID cfg) e)
      | Inr rateLimits \<Rightarrow>
          Inr \<lparr>app_ID = ac_ID cfg,
               app_TenantID = default_string ''default'' (ac_TenantID cfg),
               app_PolicyID = [], app_PolicyVersion = [],
               app_Hostnames = ac_Hostnames cfg,
               app_Origin = origin,
               app_Mode = pc_Mode (ac_Policy cfg),
               app_DefaultAction = pc_DefaultAction (ac_Policy cfg),
               app_IPBlocklist = blocklist, app_IPAllowlist = allowlist, app_IPSets = ipSets,
               app_RateLimits = rateLimits, app_CustomRules = customRules,
               app_RawOriginString = ac_OriginURL cfg\<rparr>)))))))"

definition NewApp :: "AppConfig \<Rightarrow> policy_error + App" where
  "NewApp cfg = newApp cfg"

fun register_hosts :: "unicode \<Rightarrow> App \<Rightarrow> string list \<Rightarrow> (string \<rightharpoonup> App) \<Rightarrow> policy_error + (string \<rightharpoonup> App)" where
  "register_hosts U app [] m = Inr m"
| "register_hosts U app (hostname # hs) m =
     (let host = NormalizeHost U hostname in
      case m host of
        Some existing \<Rightarrow> Inl (DuplicateHostname host (app_ID existing) (app_ID app))
      | None \<Rightarrow> register_hosts U app hs (m(host \<mapsto> app)))"

fun store_loop :: "unicode \<Rightarrow> AppConfig list \<Rightarrow> (string \<rightharpoonup> App) \<Rightarrow> policy_error + (string \<rightharpoonup> App)" where
  "store_loop U [] m = Inr m"
| "store_loop U (cfg # cfgs) m =
     (case newApp cfg of
        Inl e \<Rightarrow> Inl e
      | Inr app \<Rightarrow>
          (case register_hosts U app (app_Hostnames app) m of
             Inl e \<Rightarrow> Inl e
           | Inr m' \<Rightarrow> store_loop U cfgs m'))"

definition NewStore :: "unicode \<Rightarrow> AppConfig list \<Rightarrow> policy_error + Store" where
  "NewStore U apps =
     (case store_loop U apps (\<lambda>_. None) of
        Inl e \<Rightarrow> Inl e
      | Inr m \<Rightarrow> Inr \<lparr>st_byHost = m\<rparr>)"

definition MatchHost :: "unicode \<Rightarrow> Store \<Rightarrow> string \<Rightarrow> App option" where
  "MatchHost U s host = st_byHost s (NormalizeHost U host)"

definition Store_Lookup :: "unicode \<Rightarrow> Store \<Rightarrow> string \<Rightarrow> LookupResult" where
  "Store_Lookup U s host =
     (case MatchHost U s host of
        None \<Rightarrow> zero_LookupResult\<lparr>lr_Found := False, lr_Reason := ''no_matching_app''\<rparr>
      | Some app \<Rightarrow> zero_LookupResult\<lparr>lr_App := Some app, lr_Found := True\<rparr>)"

section \<open>What a parsed condition guarantees\<close>

text \<open>The invariant of compiled conditions: one operator per node, complete operands and known IP
  sets, at every depth.\<close>

definition condition_flags :: "Condition \<Rightarrow> bool list" where
  "condition_flags c =
     [c_All c \<noteq> [], c_Any c \<noteq> [], c_MethodEquals c \<noteq> [], c_PathEquals c \<noteq> [], c_PathStartsWith c \<noteq> [],
      c_HostEquals c \<noteq> [], c_HeaderContains c \<noteq> None, c_HeaderEquals c \<noteq> None,
      c_QueryParamContains c \<noteq> None, c_ClientIPInIPSet c \<noteq> [], c_ClientIPNotInIPSet c \<noteq> []]"

definition leaf_ok :: "ip_sets \<Rightarrow> Condition \<Rightarrow> bool" where
  "leaf_ok sets c \<longleftrightarrow>
     length (filter id (condition_flags c)) = 1 \<and>
     (\<forall>m \<in> set_option (c_HeaderContains c). hc_Value m \<noteq> []) \<and>
     (\<forall>m \<in> set_option (c_HeaderEquals c). hc_Value m \<noteq> []) \<and>
     (\<forall>m \<in> set_option (c_QueryParamContains c). qc_Name m \<noteq> [] \<and> qc_Value m \<noteq> []) \<and>
     (c_ClientIPInIPSet c \<noteq> [] \<longrightarrow> c_ClientIPInIPSet c \<in> fst ` set sets) \<and>
     (c_ClientIPNotInIPSet c \<noteq> [] \<longrightarrow> c_ClientIPNotInIPSet c \<in> fst ` set sets)"

fun condition_ok :: "ip_sets \<Rightarrow> Condition \<Rightarrow> bool" where
  "condition_ok sets (Condition al an me pe ps he hct heq qp ini nini) \<longleftrightarrow>
     leaf_ok sets (Condition al an me pe ps he hct heq qp ini nini) \<and>
     list_all (condition_ok sets) al \<and> list_all (condition_ok sets) an"

lemma validateCondition_None:
  "validateCondition sets v = None \<longleftrightarrow>
     length (filter id (operator_flags v)) = 1 \<and>
     (\<forall>m \<in> set_option (cc_HeaderContains v). hm_Name m \<noteq> [] \<and> hm_Value m \<noteq> []) \<and>
     (\<forall>m \<in> set_option (cc_HeaderEquals v). hm_Name m \<noteq> [] \<and> hm_Value m \<noteq> []) \<and>
     (\<forall>m \<in> set_option (cc_QueryParamContains v). qm_Name m \<noteq> [] \<and> qm_Value m \<noteq> []) \<and>
     (cc_ClientIPInIPSet v \<noteq> [] \<longrightarrow> cc_ClientIPInIPSet v \<in> fst ` set sets) \<and>
     (cc_ClientIPNotInIPSet v \<noteq> [] \<longrightarrow> cc_ClientIPNotInIPSet v \<in> fst ` set sets)"
  unfolding validateCondition_def Let_def map_of_eq_None_iff
  by (auto split: option.splits)

lemma parseCondition_Inr:
  "parseCondition sets v = Inr c \<longleftrightarrow>
     validateCondition sets v = None \<and>
     list_all2 (\<lambda>x y. parseCondition sets x = Inr y) (cc_All v) (c_All c) \<and>
     list_all2 (\<lambda>x y. parseCondition sets x = Inr y) (cc_Any v) (c_Any c) \<and>
     c_MethodEquals c = cc_MethodEquals v \<and> c_PathEquals c = cc_PathEquals v \<and>
     c_PathStartsWith c = cc_PathStartsWith v \<and> c_HostEquals c = cc_HostEquals v \<and>
     c_HeaderContains c = map_option header_condition (cc_HeaderContains v) \<and>
     c_HeaderEquals c = map_option header_condition (cc_HeaderEquals v) \<and>
     c_QueryParamContains c = map_option query_condition (cc_QueryParamContains v) \<and>
     c_ClientIPInIPSet c = cc_ClientIPInIPSet v \<and> c_ClientIPNotInIPSet c = cc_ClientIPNotInIPSet v"
proof (cases v)
  case (ConditionConfig al an me pe ps he hct heq qp ini nini)
  show ?thesis
    unfolding ConditionConfig parseCondition.simps traverse_Inr_iff [symmetric]
    by (cases c) (auto split: option.split sum.split)
qed

lemma parseCondition_leaf_ok:
  assumes "parseCondition sets v = Inr c"
  shows "leaf_ok sets c"
proof -
  note parts = parseCondition_Inr [THEN iffD1, OF assms]
  have "condition_flags c = operator_flags v"
    using parts by (auto simp: condition_flags_def operator_flags_def dest: list_all2_empty_iff)
  with parts show ?thesis
    by (auto simp: leaf_ok_def validateCondition_None header_condition_def query_condition_def)
qed

lemma condition_ok_unfold:
  "condition_ok sets c \<longleftrightarrow>
     leaf_ok sets c \<and> list_all (condition_ok sets) (c_All c) \<and> list_all (condition_ok sets) (c_Any c)"
  by (cases c) simp

lemma parseCondition_ok: "parseCondition sets v = Inr c \<Longrightarrow> condition_ok sets c"
proof (induction v arbitrary: c)
  case (ConditionConfig al an me pe ps he hct heq qp ini nini)
  note leaf = parseCondition_leaf_ok [OF ConditionConfig.prems]
  have 1: "list_all2 (\<lambda>x y. parseCondition sets x = Inr y) al (c_All c)"
    "list_all2 (\<lambda>x y. parseCondition sets x = Inr y) an (c_Any c)"
    using parseCondition_Inr [THEN iffD1, OF ConditionConfig.prems] by simp_all
  have "list_all (condition_ok sets) (c_All c)" "list_all (condition_ok sets) (c_Any c)"
    using list_all2_target [OF 1(1)] list_all2_target [OF 1(2)] ConditionConfig.IH by blast+
  with leaf show ?case by (simp add: condition_ok_unfold [of sets c])
qed

text \<open>Which configured conditions are accepted.\<close>

fun condition_accepted :: "ip_sets \<Rightarrow> ConditionConfig \<Rightarrow> bool" where
  "condition_accepted sets (ConditionConfig al an me pe ps he hct heq qp ini nini) \<longleftrightarrow>
     validateCondition sets (ConditionConfig al an me pe ps he hct heq qp ini nini) = None \<and>
     list_all (condition_accepted sets) al \<and> list_all (condition_accepted sets) an"

lemma parseCondition_accepts: "(\<exists>c. parseCondition sets v = Inr c) \<longleftrightarrow> condition_accepted sets v"
proof (induction v)
  case (ConditionConfig al an me pe ps he hct heq qp ini nini)
  have tr: "(\<exists>ys. traverse (parseCondition sets) xs = Inr ys) \<longleftrightarrow> list_all (condition_accepted sets) xs"
    if "set xs \<subseteq> set al \<union> set an" for xs
    using that
  proof (induction xs)
    case (Cons x xs)
    then have "(\<exists>c. parseCondition sets x = Inr c) \<longleftrightarrow> condition_accepted sets x"
      using ConditionConfig.IH by auto
    with Cons show ?case by (cases "parseCondition sets x") (auto split: sum.splits)
  qed simp
  show ?case
    using tr [of al] tr [of an] by (auto simp: parseCondition.simps split: option.splits sum.splits)
qed

lemma hasCondition_flags: "hasCondition v \<longleftrightarrow> (\<exists>b \<in> set (operator_flags v). b)"
  by (simp add: hasCondition_def operator_flags_def)

lemma canonicalHeaderName_canonical [simp]:
  "http_CanonicalHeaderKey (canonicalHeaderName n) = canonicalHeaderName n"
  by (simp add: canonicalHeaderName_def)

section \<open>What compiled rules guarantee\<close>

definition custom_rule_ok :: "ip_sets \<Rightarrow> CustomRule \<Rightarrow> bool" where
  "custom_rule_ok sets r \<longleftrightarrow>
     strings_TrimSpace (cr_ID r) \<noteq> [] \<and> cr_Name r \<noteq> [] \<and>
     cr_Action r \<in> {ActionAllow, ActionCount, ActionBlock} \<and>
     0 \<le> cr_StatusCode r \<and> cr_StatusCode r \<le> 999 \<and> condition_ok sets (cr_When r)"

definition rate_limit_ok :: "ip_sets \<Rightarrow> RateLimitRule \<Rightarrow> bool" where
  "rate_limit_ok sets r \<longleftrightarrow>
     strings_TrimSpace (rl_ID r) \<noteq> [] \<and> rl_Name r \<noteq> [] \<and> 0 < rl_Limit r \<and> 0 < rl_WindowSeconds r \<and>
     rl_Action r \<in> {ActionCount, ActionBlock} \<and> rl_KeyType r \<in> set known_key_types \<and>
     0 \<le> rl_StatusCode r \<and> rl_StatusCode r \<le> 999 \<and>
     (\<forall>c \<in> set_option (rl_MatchExpression r). condition_ok sets c)"

lemma parse_custom_rule_Inr [result_simps]:
  "parse_custom_rule sets seen v = Inr r \<longleftrightarrow>
     strings_TrimSpace (crc_ID v) \<noteq> [] \<and> crc_ID v \<notin> set seen \<and> crc_Name v \<noteq> [] \<and>
     crc_Action v \<in> {ActionAllow, ActionCount, ActionBlock} \<and>
     0 \<le> crc_StatusCode v \<and> crc_StatusCode v \<le> 999 \<and>
     (\<exists>c. parseCondition sets (crc_When v) = Inr c \<and>
        r = \<lparr>cr_ID = crc_ID v, cr_Name = crc_Name v, cr_Priority = crc_Priority v,
            cr_Enabled = crc_Enabled v, cr_Action = crc_Action v, cr_StatusCode = crc_StatusCode v,
            cr_TerminalAllow = crc_TerminalAllow v, cr_When = c\<rparr>)"
  by (auto simp: parse_custom_rule_def split: sum.splits if_splits)

lemma parse_rate_limit_Inr [result_simps]:
  "parse_rate_limit sets seen v = Inr r \<longleftrightarrow>
     strings_TrimSpace (rlc_ID v) \<noteq> [] \<and> rlc_ID v \<notin> set seen \<and> rlc_Name v \<noteq> [] \<and>
     0 < rlc_Limit v \<and> 0 < rlc_WindowSeconds v \<and> rlc_Action v \<in> {ActionCount, ActionBlock} \<and>
     rlc_KeyType v \<in> set known_key_types \<and> \<not> (rlc_KeyType v = ''header'' \<and> rlc_KeyHeader v = []) \<and>
     0 \<le> rlc_StatusCode v \<and> rlc_StatusCode v \<le> 999 \<and>
     (\<exists>m. parse_match sets (rlc_MatchExpression v) = Inr m \<and>
        r = \<lparr>rl_ID = rlc_ID v, rl_Name = rlc_Name v, rl_Enabled = rlc_Enabled v,
            rl_Priority = rlc_Priority v, rl_MatchExpression = m, rl_KeyType = rlc_KeyType v,
            rl_KeyHeader = canonicalHeaderName (rlc_KeyHeader v), rl_Limit = rlc_Limit v,
            rl_WindowSeconds = rlc_WindowSeconds v, rl_Action = rlc_Action v,
            rl_StatusCode = rlc_StatusCode v\<rparr>)"
  unfolding parse_rate_limit_def by (auto split: sum.splits if_splits)

interpretation custom: rule_parser "parse_custom_rule sets" crc_ID cr_ID cr_Priority for sets
  by unfold_locales (auto simp: result_simps)

interpretation rate: rule_parser "parse_rate_limit sets" rlc_ID rl_ID rl_Priority for sets
  by unfold_locales (auto simp: result_simps)

lemma parse_match_ok: "parse_match sets v = Inr m \<Longrightarrow> \<forall>c \<in> set_option m. condition_ok sets c"
  by (auto simp: parse_match_def parseCondition_ok split: if_splits sum.splits)

lemma parse_custom_rule_ok: "parse_custom_rule sets seen v = Inr r \<Longrightarrow> custom_rule_ok sets r"
  by (auto simp: result_simps custom_rule_ok_def parseCondition_ok)

lemma parse_rate_limit_ok: "parse_rate_limit sets seen v = Inr r \<Longrightarrow> rate_limit_ok sets r"
  by (auto simp: result_simps rate_limit_ok_def parse_match_ok)

lemma parseCustomRules_Inr [result_simps]:
  "parseCustomRules vs sets = Inr rs \<longleftrightarrow>
     (\<exists>raw. traverse_seen (parse_custom_rule sets) crc_ID [] vs = Inr raw \<and> rs = sort_key cr_Priority raw)"
  by (auto simp: parseCustomRules_def split: sum.splits)

lemma parseRateLimitRules_Inr [result_simps]:
  "parseRateLimitRules vs sets = Inr rs \<longleftrightarrow>
     (\<exists>raw. traverse_seen (parse_rate_limit sets) rlc_ID [] vs = Inr raw \<and> rs = sort_key rl_Priority raw)"
  by (auto simp: parseRateLimitRules_def split: sum.splits)

lemma parseCustomRules_ok:
  assumes "parseCustomRules vs sets = Inr rs"
  shows "sorted (map cr_Priority rs)" "distinct (map cr_ID rs)" "list_all (custom_rule_ok sets) rs"
    "length rs = length vs"
proof -
  obtain raw where raw: "traverse_seen (parse_custom_rule sets) crc_ID [] vs = Inr raw"
    and rs: "rs = sort_key cr_Priority raw"
    using assms by (auto simp: parseCustomRules_Inr)
  note facts = custom.sorted_rules [OF raw]
  show "sorted (map cr_Priority rs)" "distinct (map cr_ID rs)" unfolding rs by (rule facts)+
  show "list_all (custom_rule_ok sets) rs"
    unfolding list_all_iff rs using facts(5) parse_custom_rule_ok by blast
  show "length rs = length vs"
    using custom.loop_keys [OF raw] unfolding rs by (metis length_map length_sort)
qed

lemma parseRateLimitRules_ok:
  assumes "parseRateLimitRules vs sets = Inr rs"
  shows "sorted (map rl_Priority rs)" "distinct (map rl_ID rs)" "list_all (rate_limit_ok sets) rs"
    "length rs = length vs"
proof -
  obtain raw where raw: "traverse_seen (parse_rate_limit sets) rlc_ID [] vs = Inr raw"
    and rs: "rs = sort_key rl_Priority raw"
    using assms by (auto simp: parseRateLimitRules_Inr)
  note facts = rate.sorted_rules [OF raw]
  show "sorted (map rl_Priority rs)" "distinct (map rl_ID rs)" unfolding rs by (rule facts)+
  show "list_all (rate_limit_ok sets) rs"
    unfolding list_all_iff rs using facts(5) parse_rate_limit_ok by blast
  show "length rs = length vs"
    using rate.loop_keys [OF raw] unfolding rs by (metis length_map length_sort)
qed

section \<open>What a compiled application guarantees\<close>

definition prefix_ok :: "Prefix \<Rightarrow> bool" where
  "prefix_ok p \<longleftrightarrow> valid_prefix p \<and> prefix_Masked p = p"

definition app_ok :: "App \<Rightarrow> bool" where
  "app_ok a \<longleftrightarrow>
     url_Scheme (app_Origin a) \<noteq> [] \<and> url_Host (app_Origin a) \<noteq> [] \<and> app_TenantID a \<noteq> [] \<and>
     list_all prefix_ok (app_IPBlocklist a) \<and> list_all prefix_ok (app_IPAllowlist a) \<and>
     list_all (\<lambda>e. strings_TrimSpace (fst e) \<noteq> [] \<and> list_all prefix_ok (snd e)) (app_IPSets a) \<and>
     sorted (map cr_Priority (app_CustomRules a)) \<and> distinct (map cr_ID (app_CustomRules a)) \<and>
     list_all (custom_rule_ok (app_IPSets a)) (app_CustomRules a) \<and>
     sorted (map rl_Priority (app_RateLimits a)) \<and> distinct (map rl_ID (app_RateLimits a)) \<and>
     list_all (rate_limit_ok (app_IPSets a)) (app_RateLimits a)"

lemma parse_prefix_ok: "parse_prefix v = Inr p \<Longrightarrow> prefix_ok p"
  by (auto simp: parse_prefix_def prefix_ok_def Masked_idem Masked_valid ParsePrefix_valid split: option.splits)

lemma parsePrefixes_ok: "parsePrefixes vs = Inr ps \<Longrightarrow> list_all prefix_ok ps"
  unfolding parsePrefixes_def traverse_Inr_iff by (erule list_all2_target) (rule parse_prefix_ok)

lemma parse_ip_set_Inr [result_simps]:
  "parse_ip_set e = Inr r \<longleftrightarrow>
     strings_TrimSpace (fst e) \<noteq> [] \<and> fst r = fst e \<and> parsePrefixes (snd e) = Inr (snd r)"
  by (cases e; cases r) (auto simp: parse_ip_set_def split: sum.splits)

lemma parseIPSets_ok:
  assumes "parseIPSets vs = Inr sets"
  shows "list_all (\<lambda>e. strings_TrimSpace (fst e) \<noteq> [] \<and> list_all prefix_ok (snd e)) sets"
    and "map fst sets = map fst vs"
proof -
  have rel: "list_all2 (\<lambda>e r. parse_ip_set e = Inr r) vs sets"
    using assms by (simp add: parseIPSets_def traverse_Inr_iff)
  then show "list_all (\<lambda>e. strings_TrimSpace (fst e) \<noteq> [] \<and> list_all prefix_ok (snd e)) sets"
    by (rule list_all2_target) (auto simp: parse_ip_set_Inr parsePrefixes_ok)
  show "map fst sets = map fst vs"
    using rel by (induction rule: list_all2_induct) (auto simp: parse_ip_set_Inr)
qed

lemma newApp_Inr [result_simps]:
  "newApp cfg = Inr app \<longleftrightarrow>
     url_Parse (ac_OriginURL cfg) = Some (app_Origin app) \<and>
     url_Scheme (app_Origin app) \<noteq> [] \<and> url_Host (app_Origin app) \<noteq> [] \<and>
     parsePrefixes (pc_IPBlocklist (ac_Policy cfg)) = Inr (app_IPBlocklist app) \<and>
     parsePrefixes (pc_IPAllowlist (ac_Policy cfg)) = Inr (app_IPAllowlist app) \<and>
     parseIPSets (pc_IPSets (ac_Policy cfg)) = Inr (app_IPSets app) \<and>
     parseCustomRules (pc_CustomRules (ac_Policy cfg)) (app_IPSets app) = Inr (app_CustomRules app) \<and>
     parseRateLimitRules (pc_RateLimits (ac_Policy cfg)) (app_IPSets app) = Inr (app_RateLimits app) \<and>
     app_ID app = ac_ID cfg \<and> app_TenantID app = default_string ''default'' (ac_TenantID cfg) \<and>
     app_PolicyID app = [] \<and> app_PolicyVersion app = [] \<and> app_Hostnames app = ac_Hostnames cfg \<and>
     app_Mode app = pc_Mode (ac_Policy cfg) \<and> app_DefaultAction app = pc_DefaultAction (ac_Policy cfg) \<and>
     app_RawOriginString app = ac_OriginURL cfg"
  by (cases app) (auto simp: newApp_def split: option.splits sum.splits if_splits)

lemma newApp_wf: "newApp cfg = Inr app \<Longrightarrow> app_ok app"
  unfolding newApp_Inr app_ok_def
  by (auto simp: parsePrefixes_ok parseIPSets_ok parseCustomRules_ok parseRateLimitRules_ok default_string_def)

section \<open>The store\<close>

lemma register_hosts_Inr:
  "register_hosts U app hs m = Inr m' \<longleftrightarrow>
     distinct (map (NormalizeHost U) hs) \<and> NormalizeHost U ` set hs \<inter> dom m = {} \<and>
     m' = (\<lambda>k. if k \<in> NormalizeHost U ` set hs then Some app else m k)"
proof (induction hs arbitrary: m)
  case Nil
  then show ?case by auto
next
  case (Cons h hs)
  show ?case
  proof (cases "m (NormalizeHost U h)")
    case None
    define m1 where "m1 = m(NormalizeHost U h \<mapsto> app)"
    have 1: "(\<lambda>k. if k \<in> NormalizeHost U ` set (h # hs) then Some app else m k)
        = (\<lambda>k. if k \<in> NormalizeHost U ` set hs then Some app else m1 k)"
      unfolding m1_def by auto
    have 2: "NormalizeHost U ` set hs \<inter> dom m1 = {} \<longleftrightarrow>
        NormalizeHost U h \<notin> set (map (NormalizeHost U) hs) \<and> NormalizeHost U ` set (h # hs) \<inter> dom m = {}"
      unfolding m1_def using None by auto
    have "register_hosts U app (h # hs) m = Inr m' \<longleftrightarrow> register_hosts U app hs m1 = Inr m'"
      using None by (simp add: Let_def m1_def)
    also have "\<dots> \<longleftrightarrow> distinct (map (NormalizeHost U) hs) \<and> NormalizeHost U ` set hs \<inter> dom m1 = {} \<and>
        m' = (\<lambda>k. if k \<in> NormalizeHost U ` set hs then Some app else m1 k)" by (rule Cons.IH)
    finally show ?thesis unfolding 1 2 list.map distinct.simps by blast
  next
    case (Some x)
    then show ?thesis by (auto simp: Let_def)
  qed
qed

definition host_keys :: "unicode \<Rightarrow> AppConfig list \<Rightarrow> string list" where
  "host_keys U cfgs = concat (map (\<lambda>c. map (NormalizeHost U) (ac_Hostnames c)) cfgs)"

lemma host_keys_Cons:
  "host_keys U (c # cfgs) = map (NormalizeHost U) (ac_Hostnames c) @ host_keys U cfgs"
  by (simp add: host_keys_def)

lemma store_loop_Inr:
  "store_loop U cfgs m = Inr m' \<Longrightarrow>
     (\<forall>c \<in> set cfgs. \<exists>app. newApp c = Inr app) \<and>
     distinct (host_keys U cfgs) \<and> set (host_keys U cfgs) \<inter> dom m = {} \<and>
     (\<forall>k app. m' k = Some app \<longleftrightarrow> m k = Some app \<or>
        (\<exists>c \<in> set cfgs. newApp c = Inr app \<and> k \<in> NormalizeHost U ` set (ac_Hostnames c)))"
proof (induction cfgs arbitrary: m)
  case Nil
  then show ?case by (auto simp: host_keys_def)
next
  case (Cons c cfgs)
  then obtain app m1 where app: "newApp c = Inr app"
    and reg: "register_hosts U app (app_Hostnames app) m = Inr m1" and rest: "store_loop U cfgs m1 = Inr m'"
    by (auto split: sum.splits)
  have hn: "app_Hostnames app = ac_Hostnames c" using app by (simp add: newApp_Inr)
  note IH = Cons.IH [OF rest]
  have m1: "m1 = (\<lambda>k. if k \<in> NormalizeHost U ` set (ac_Hostnames c) then Some app else m k)"
    and d: "distinct (map (NormalizeHost U) (ac_Hostnames c))" "NormalizeHost U ` set (ac_Hostnames c) \<inter> dom m = {}"
    using reg unfolding register_hosts_Inr hn by simp_all
  have dom: "dom m1 = NormalizeHost U ` set (ac_Hostnames c) \<union> dom m" unfolding m1 by auto
  have "distinct (host_keys U (c # cfgs))" "set (host_keys U (c # cfgs)) \<inter> dom m = {}"
    using d IH unfolding dom host_keys_Cons by auto
  moreover have "m' k = Some a \<longleftrightarrow> m k = Some a \<or>
      (\<exists>c' \<in> set (c # cfgs). newApp c' = Inr a \<and> k \<in> NormalizeHost U ` set (ac_Hostnames c'))" for k a
    using IH d app unfolding m1 by auto
  moreover have "\<forall>c' \<in> set (c # cfgs). \<exists>app. newApp c' = Inr app" using IH app by simp
  ultimately show ?case by blast
qed

lemma NewStore_lookup:
  assumes "NewStore U cfgs = Inr s"
  shows "MatchHost U s h = Some app \<longleftrightarrow>
     (\<exists>c \<in> set cfgs. newApp c = Inr app \<and> NormalizeHost U h \<in> NormalizeHost U ` set (ac_Hostnames c))"
    and "distinct (host_keys U cfgs)"
    and "\<forall>c \<in> set cfgs. \<exists>app. newApp c = Inr app"
proof -
  obtain m where m: "store_loop U cfgs (\<lambda>_. None) = Inr m" and s: "s = \<lparr>st_byHost = m\<rparr>"
    using assms by (auto simp: NewStore_def split: sum.splits)
  note facts = store_loop_Inr [OF m]
  show "MatchHost U s h = Some app \<longleftrightarrow>
     (\<exists>c \<in> set cfgs. newApp c = Inr app \<and> NormalizeHost U h \<in> NormalizeHost U ` set (ac_Hostnames c))"
    using facts by (simp add: MatchHost_def s)
  show "distinct (host_keys U cfgs)" "\<forall>c \<in> set cfgs. \<exists>app. newApp c = Inr app" using facts by blast+
qed

lemma NewStore_app_ok: "NewStore U cfgs = Inr s \<Longrightarrow> MatchHost U s h = Some app \<Longrightarrow> app_ok app"
  using NewStore_lookup(1) newApp_wf by blast

lemma store_loop_total:
  "(\<forall>c \<in> set cfgs. \<exists>app. newApp c = Inr app) \<Longrightarrow> distinct (host_keys U cfgs) \<Longrightarrow>
   set (host_keys U cfgs) \<inter> dom m = {} \<Longrightarrow> \<exists>m'. store_loop U cfgs m = Inr m'"
proof (induction cfgs arbitrary: m)
  case (Cons c cfgs)
  then obtain app where app: "newApp c = Inr app" by auto
  then have hn: "app_Hostnames app = ac_Hostnames c" by (simp add: newApp_Inr)
  define m1 where "m1 = (\<lambda>k. if k \<in> NormalizeHost U ` set (ac_Hostnames c) then Some app else m k)"
  have reg: "register_hosts U app (app_Hostnames app) m = Inr m1"
    unfolding register_hosts_Inr hn m1_def using Cons.prems(2,3) by (auto simp: host_keys_Cons)
  have "dom m1 = NormalizeHost U ` set (ac_Hostnames c) \<union> dom m" unfolding m1_def by auto
  moreover have "set (host_keys U cfgs) \<inter> NormalizeHost U ` set (ac_Hostnames c) = {}"
    "set (host_keys U cfgs) \<inter> dom m = {}" "distinct (host_keys U cfgs)"
    using Cons.prems(2,3) unfolding host_keys_Cons by auto
  ultimately have "set (host_keys U cfgs) \<inter> dom m1 = {}" "distinct (host_keys U cfgs)" by blast+
  with Cons.IH [of m1] Cons.prems app reg show ?case by simp
qed simp

lemma NewStore_accepts:
  "(\<exists>s. NewStore U cfgs = Inr s) \<longleftrightarrow>
     (\<forall>c \<in> set cfgs. \<exists>app. newApp c = Inr app) \<and> distinct (host_keys U cfgs)"
proof
  assume "\<exists>s. NewStore U cfgs = Inr s"
  then show "(\<forall>c \<in> set cfgs. \<exists>app. newApp c = Inr app) \<and> distinct (host_keys U cfgs)"
    using NewStore_lookup(2,3) by blast
next
  assume "(\<forall>c \<in> set cfgs. \<exists>app. newApp c = Inr app) \<and> distinct (host_keys U cfgs)"
  then obtain m where "store_loop U cfgs (\<lambda>_. None) = Inr m"
    using store_loop_total [of cfgs U "\<lambda>_. None"] by auto
  then show "\<exists>s. NewStore U cfgs = Inr s" by (simp add: NewStore_def)
qed

section \<open>Host names up to case and port\<close>

definition plain_host :: "string \<Rightarrow> bool" where
  "plain_host h \<longleftrightarrow> h \<noteq> [] \<and> list_all (\<lambda>c. graphic c \<and> c \<notin> set '':[]'') h"

lemma graphic_ascii_lower [simp]: "graphic (ascii_lower c) \<longleftrightarrow> graphic c"
  by (auto simp: graphic_def byte_ascii_lower ascii_upper_def)

lemma ascii_lower_eq_iff:
  assumes "\<not> ascii_letter (byte d)"
  shows "ascii_lower c = d \<longleftrightarrow> c = d"
proof (cases "ascii_upper (byte c)")
  case True
  then have "ascii_letter (byte (ascii_lower c))" "ascii_letter (byte c)"
    by (auto simp: byte_ascii_lower ascii_letter_def ascii_upper_def)
  with assms show ?thesis by blast
next
  case False
  then show ?thesis by (simp add: ascii_lower_def)
qed

lemma digit_char_not: "is_digit_char c \<Longrightarrow> c \<notin> set '':[]''"
  by (auto simp: is_digit_char_def ascii_digit_def)

lemma plain_host_lower: "plain_host h \<Longrightarrow> plain_host (map ascii_lower h)"
  by (auto simp: plain_host_def list_all_iff ascii_lower_eq_iff ascii_letter_def ascii_upper_def)

lemma plain_host_ascii: "plain_host h \<Longrightarrow> is_ascii h"
  by (auto simp: plain_host_def is_ascii_def list_all_iff graphic_def)

lemma Trim_id:
  assumes "set s \<inter> set cs = {}"
  shows "strings_Trim s cs = s"
proof -
  have "dropWhile (\<lambda>c. c \<in> set cs) t = t" if "set t \<subseteq> set s" for t
    using that assms by (cases t) auto
  then show ?thesis by (simp add: strings_Trim_def)
qed

lemma SplitHostPort_plain:
  assumes "plain_host h" "list_all is_digit_char p"
  shows "net_SplitHostPort (h @ CHR '':'' # p) = Some (h, p)"
proof -
  have "\<forall>c \<in> set p. c \<notin> set '':[]''" "\<forall>c \<in> set h. c \<notin> set '':[]''" "h \<noteq> []"
    using assms digit_char_not unfolding plain_host_def list_all_iff by blast+
  then have no: "CHR '':'' \<notin> set p" "CHR ''['' \<notin> set (h @ CHR '':'' # p)" "CHR '']'' \<notin> set (h @ CHR '':'' # p)"
    "CHR '':'' \<notin> set h" by auto
  have hd: "hd (h @ CHR '':'' # p) \<noteq> CHR ''[''"
    using no(2) by (metis append_is_Nil_conv hd_in_set list.distinct(1))
  show ?thesis
    unfolding net_SplitHostPort_def cut_last_append [OF no(1)] using hd no by simp
qed

lemma NormalizeHost_port:
  assumes h: "plain_host h" and p: "list_all is_digit_char p"
  shows "NormalizeHost U (h @ CHR '':'' # p) = map ascii_lower h"
proof -
  let ?l = "map ascii_lower h"
  have lp: "map ascii_lower p = p"
    using p by (induction p) (auto simp: is_digit_char_def ascii_digit_def ascii_lower_def ascii_upper_def)
  have l: "plain_host ?l" using h by (rule plain_host_lower)
  have asc: "is_ascii (h @ CHR '':'' # p)"
    using plain_host_ascii [OF h] p by (auto simp: is_ascii_def list_all_iff is_digit_char_def ascii_digit_def)
  have low: "strings_ToLower U (h @ CHR '':'' # p) = ?l @ CHR '':'' # p"
    using asc by (simp add: ToLower_ascii lp) (simp add: ascii_lower_def ascii_upper_def)
  have "graphic c" if "c \<in> set (?l @ CHR '':'' # p)" for c
    using that l p by (auto simp: plain_host_def list_all_iff is_digit_char_def ascii_digit_def graphic_def
        byte_ascii_lower ascii_upper_def)
  then have "strings_TrimSpace (?l @ CHR '':'' # p) = ?l @ CHR '':'' # p"
    by (intro TrimSpace_graphic) (metis hd_in_set last_in_set)
  moreover have "strings_Trim ?l ''[]'' = ?l"
    using l by (intro Trim_id) (auto simp: plain_host_def list_all_iff)
  ultimately show ?thesis
    by (simp add: NormalizeHost_def low Let_def Contains_char SplitHostPort_plain [OF l p])
qed

lemma NormalizeHost_plain:
  assumes h: "plain_host h" 
  shows "NormalizeHost U h = map ascii_lower h"
proof -
  let ?l = "map ascii_lower h"
  have l: "plain_host ?l" using h by (rule plain_host_lower)
  then have "graphic (hd ?l) \<and> graphic (last ?l)"
    unfolding plain_host_def list_all_iff by (meson hd_in_set last_in_set)
  then have "strings_TrimSpace ?l = ?l" by (intro TrimSpace_graphic) blast
  moreover have "strings_Trim ?l ''[]'' = ?l" "\<not> strings_Contains ?l '':''" "?l \<noteq> []"
    using l by (auto simp: plain_host_def list_all_iff Contains_char intro!: Trim_id)
  ultimately show ?thesis using h by (simp add: NormalizeHost_def ToLower_ascii plain_host_ascii Let_def)
qed

lemma NormalizeHost_case_port:
  assumes "plain_host h" "list_all is_digit_char p" "map ascii_lower h = map ascii_lower h'" "plain_host h'"
  shows "NormalizeHost U (h @ CHR '':'' # p) = NormalizeHost U h'"
  using assms by (simp add: NormalizeHost_port NormalizeHost_plain)

lemma NormalizeHost_not_idempotent:
  "NormalizeHost U ''[a:1]:80'' = ''a:1''" "NormalizeHost U (NormalizeHost U ''[a:1]:80'') = ''a''"
  by (simp_all add: NormalizeHost_def ToLower_ascii is_ascii_def ascii_lower_def ascii_upper_def
      TrimSpace_graphic graphic_def net_SplitHostPort_def cut_last_def strings_HasPrefix_def strings_Trim_def)

section \<open>The contract of a policy provider\<close>

text \<open>\<open>policy.Provider\<close> is the interface through which the gateway finds the application of a host;
  the local store and the remote provider implement it.  A provider's invariant is kept by every
  lookup, and an application that is found satisfies the invariant of compiled policies.\<close>

locale policy_provider =
  fixes lookup :: "string \<Rightarrow> 's \<Rightarrow> 's \<times> LookupResult"
    and inv :: "'s \<Rightarrow> bool"
  assumes lookup_inv: "inv s \<Longrightarrow> lookup h s = (s', r) \<Longrightarrow> inv s'"
    and lookup_found: "inv s \<Longrightarrow> lookup h s = (s', r) \<Longrightarrow> lr_Found r \<Longrightarrow> \<exists>a. lr_App r = Some a \<and> app_ok a"
    and lookup_not_both: "lookup h s = (s', r) \<Longrightarrow> lr_FailOpen r \<Longrightarrow> \<not> lr_Found r"
begin

lemma lookups_found:
  assumes "inv s" "r = snd (lookup h (fold (\<lambda>h s. fst (lookup h s)) hs s))" "lr_Found r"
  shows "\<exists>a. lr_App r = Some a \<and> app_ok a"
proof -
  have "inv (fold (\<lambda>h s. fst (lookup h s)) hs s)"
    using assms(1)
  proof (induction hs arbitrary: s)
    case (Cons h hs)
    then show ?case using lookup_inv [OF Cons.prems, of h] by (cases "lookup h s") simp
  qed simp
  then show ?thesis
    using lookup_found [of "fold (\<lambda>h s. fst (lookup h s)) hs s" h] assms(2,3)
    by (cases "lookup h (fold (\<lambda>h s. fst (lookup h s)) hs s)") simp
qed

end

interpretation local_store: policy_provider
  "\<lambda>h s. (s, Store_Lookup U s h)" "\<lambda>s. \<exists>cfgs. NewStore U cfgs = Inr s" for U
  by unfold_locales
    (auto simp: Store_Lookup_def zero_LookupResult_def NewStore_app_ok split: option.splits)

section \<open>A sample application\<close>

text \<open>A configuration used in the witnesses: one blocked network, one IP set, two custom rules and
  one rate limit.\<close>

definition sample_when :: ConditionConfig where
  "sample_when = ConditionConfig [] [] [] [] ''/admin'' [] None None None [] []"

definition sample_rule :: "string \<Rightarrow> int \<Rightarrow> string \<Rightarrow> CustomRuleConfig" where
  "sample_rule i p act = \<lparr>crc_ID = i, crc_Name = ''rule'', crc_Priority = p, crc_Enabled = True,
     crc_Action = act, crc_StatusCode = 403, crc_TerminalAllow = True, crc_When = sample_when\<rparr>"

definition sample_limit :: RateLimitConfig where
  "sample_limit = \<lparr>rlc_ID = ''login'', rlc_Name = ''login'', rlc_Enabled = True, rlc_Priority = 1,
     rlc_MatchExpression = zero_ConditionConfig, rlc_KeyType = ''ip'', rlc_KeyHeader = [], rlc_Limit = 2,
     rlc_WindowSeconds = 60, rlc_Action = ''block'', rlc_StatusCode = 429, rlc_Key = []\<rparr>"

definition sample_policy :: PolicyConfig where
  "sample_policy = \<lparr>pc_Mode = ''block'', pc_DefaultAction = ''allow'', pc_IPBlocklist = [''10.0.0.0/8''],
     pc_IPAllowlist = [], pc_IPSets = [(''office'', [''192.0.2.0/24''])], pc_RateLimits = [sample_limit],
     pc_CustomRules = [sample_rule ''r1'' 20 ''block'', sample_rule ''r2'' 10 ''count'']\<rparr>"

definition sample_app :: AppConfig where
  "sample_app = \<lparr>ac_ID = ''app1'', ac_TenantID = [], ac_Hostnames = [''example.com''],
     ac_OriginURL = ''http://origin:3000'', ac_Policy = sample_policy\<rparr>"


lemma sample_origin:
  "url_Parse ''http://origin:3000'' = Some (empty_url\<lparr>url_Scheme := ''http'', url_Host := ''origin:3000''\<rparr>)"
  by (simp add: go_eval)

lemma sample_prefixes:
  "parsePrefixes [''10.0.0.0/8''] = Inr [Prefix (IPv4 167772160) 8]"
  "parsePrefixes [''192.0.2.0/24''] = Inr [Prefix (IPv4 3221225984) 24]"
  "parsePrefixes [] = Inr []"
  by (simp_all add: parsePrefixes_def parse_prefix_def go_eval)

lemma sample_condition: "parseCondition sets sample_when = Inr (Condition [] [] [] [] ''/admin'' [] None None None [] [])"
  by (simp add: sample_when_def parseCondition.simps validateCondition_def operator_flags_def Let_def)

definition sample_compiled :: App where
  "sample_compiled = \<lparr>app_ID = ''app1'', app_TenantID = ''default'', app_PolicyID = [], app_PolicyVersion = [],
     app_Hostnames = [''example.com''],
     app_Origin = empty_url\<lparr>url_Scheme := ''http'', url_Host := ''origin:3000''\<rparr>,
     app_Mode = ''block'', app_DefaultAction = ''allow'',
     app_IPBlocklist = [Prefix (IPv4 167772160) 8], app_IPAllowlist = [],
     app_IPSets = [(''office'', [Prefix (IPv4 3221225984) 24])],
     app_RateLimits = [\<lparr>rl_ID = ''login'', rl_Name = ''login'', rl_Enabled = True, rl_Priority = 1,
       rl_MatchExpression = None, rl_KeyType = ''ip'', rl_KeyHeader = [], rl_Limit = 2,
       rl_WindowSeconds = 60, rl_Action = ''block'', rl_StatusCode = 429\<rparr>],
     app_CustomRules = map (\<lambda>(i, p, act). \<lparr>cr_ID = i, cr_Name = ''rule'', cr_Priority = p, cr_Enabled = True,
       cr_Action = act, cr_StatusCode = 403, cr_TerminalAllow = True,
       cr_When = Condition [] [] [] [] ''/admin'' [] None None None [] []\<rparr>)
       [(''r2'', 10, ''count''), (''r1'', 20, ''block'')],
     app_RawOriginString = ''http://origin:3000''\<rparr>"

lemma sample_rules_ok:
  "parseCustomRules [sample_rule ''r1'' 20 ''block'', sample_rule ''r2'' 10 ''count''] sets
     = Inr (app_CustomRules sample_compiled)"
  by (simp add: parseCustomRules_def parse_custom_rule_def sample_rule_def sample_condition action_defs
      sample_compiled_def go_eval TrimSpace_graphic)

lemma sample_limits: "parseRateLimitRules [sample_limit] sets = Inr (app_RateLimits sample_compiled)"
  by (simp add: parseRateLimitRules_def parse_rate_limit_def sample_limit_def action_defs parse_match_def
      hasCondition_def zero_ConditionConfig_def known_key_types_def canonicalHeaderName_def
      http_CanonicalHeaderKey_def sample_compiled_def go_eval TrimSpace_graphic)

lemma sample_newApp: "newApp sample_app = Inr sample_compiled"
  unfolding newApp_Inr
  using sample_rules_ok sample_limits sample_origin sample_prefixes
  by (simp add: sample_app_def sample_policy_def sample_compiled_def parseIPSets_def parse_ip_set_def
      TrimSpace_graphic graphic_def default_string_def empty_url_def)

section \<open>Properties\<close>

text \<open>C20: Whatever \<open>newApp\<close> accepts satisfies the invariant the evaluation relies on: an absolute
  origin, a tenant, valid masked prefixes, rules sorted by priority with distinct identifiers,
  supported actions, conditions of exactly one operator over known IP sets, and positive limits
  and windows.\<close>

theorem newApp_invariant: "newApp cfg = Inr app \<Longrightarrow> app_ok app"
  by (rule newApp_wf)

theorem newApp_invariant_witness: "newApp sample_app = Inr sample_compiled \<and> app_ok sample_compiled"
  using sample_newApp newApp_invariant [OF sample_newApp] by simp

text \<open>The compiled custom rules are in ascending order of priority, and rules of the same
  priority keep the order of the configuration file.\<close>

theorem parseCustomRules_stable:
  assumes "parseCustomRules vs sets = Inr rs"
  shows "sorted (map cr_Priority rs) \<and>
    (\<forall>p. map cr_ID (filter (\<lambda>r. cr_Priority r = p) rs) = map crc_ID (filter (\<lambda>v. crc_Priority v = p) vs))"
proof -
  obtain raw where raw: "traverse_seen (parse_custom_rule sets) crc_ID [] vs = Inr raw"
    and rs: "rs = sort_key cr_Priority raw"
    using assms by (auto simp: parseCustomRules_Inr)
  have "list_all2 (\<lambda>v r. parse_custom_rule sets [] v = Inr r) vs raw"
    using raw by (simp add: custom.loop_Inr_iff)
  then have "map cr_ID (filter (\<lambda>r. cr_Priority r = p) raw) = map crc_ID (filter (\<lambda>v. crc_Priority v = p) vs)" for p
    by (induction rule: list_all2_induct) (auto simp: parse_custom_rule_Inr)
  then show ?thesis
    using custom.sorted_rules(1) [OF raw] by (simp add: rs sort_key_filter_stable)
qed

theorem parseCustomRules_stable_witness:
  "map cr_ID (filter (\<lambda>r. cr_Priority r = 20) (app_CustomRules sample_compiled)) = [''r1''] \<and>
   sorted (map cr_Priority (app_CustomRules sample_compiled))"
  using parseCustomRules_stable [OF sample_rules_ok [of "[]"]] by (simp add: sample_rule_def)

text \<open>C22: \<open>NewStore\<close> succeeds exactly when every application compiles and no two host names
  coincide after normalisation, and then a lookup finds an application exactly when one of its
  configured host names normalises to the same name as the requested host.\<close>

theorem NewStore_correct:
  "((\<exists>s. NewStore U cfgs = Inr s) \<longleftrightarrow>
      (\<forall>c \<in> set cfgs. \<exists>app. newApp c = Inr app) \<and> distinct (host_keys U cfgs)) \<and>
   (\<forall>s h app. NewStore U cfgs = Inr s \<longrightarrow>
      (MatchHost U s h = Some app \<longleftrightarrow>
        (\<exists>c \<in> set cfgs. newApp c = Inr app \<and> NormalizeHost U h \<in> NormalizeHost U ` set (ac_Hostnames c))))"
  using NewStore_accepts NewStore_lookup(1) by blast

theorem NewStore_correct_witness:
  "\<exists>s. NewStore ascii_tables [sample_app] = Inr s \<and>
     MatchHost ascii_tables s ''EXAMPLE.com:8443'' = Some sample_compiled"
proof -
  have "plain_host ''EXAMPLE.com''" "plain_host ''example.com''"
    by (simp_all add: plain_host_def graphic_def)
  moreover have "list_all is_digit_char ''8443''" by (simp add: is_digit_char_def ascii_digit_def)
  ultimately have eq: "NormalizeHost ascii_tables ''EXAMPLE.com:8443'' = NormalizeHost ascii_tables ''example.com''"
    using NormalizeHost_case_port [of "''EXAMPLE.com''" "''8443''" "''example.com''"]
    by (simp add: ascii_lower_def ascii_upper_def)
  have hosts: "ac_Hostnames sample_app = [''example.com'']" by (simp add: sample_app_def)
  have "distinct (host_keys ascii_tables [sample_app])" by (simp add: host_keys_def hosts)
  then obtain s where s: "NewStore ascii_tables [sample_app] = Inr s"
    using NewStore_correct [of ascii_tables "[sample_app]"] sample_newApp by auto
  then have "MatchHost ascii_tables s ''EXAMPLE.com:8443'' = Some sample_compiled"
    using NewStore_correct [of ascii_tables "[sample_app]"] sample_newApp hosts eq by auto
  with s show ?thesis by blast
qed

text \<open>Host names are matched without regard to letter case and port.\<close>

theorem NormalizeHost_case_and_port:
  assumes "plain_host h" "list_all is_digit_char p"
  shows "NormalizeHost U (h @ '':'' @ p) = map ascii_lower h \<and> NormalizeHost U h = map ascii_lower h"
  using assms by (simp add: NormalizeHost_port NormalizeHost_plain)

theorem NormalizeHost_case_and_port_witness:
  "NormalizeHost ascii_tables ''Shop.Example:8080'' = ''shop.example''"
proof -
  have "plain_host ''Shop.Example''" "list_all is_digit_char ''8080''"
    by (simp_all add: plain_host_def graphic_def is_digit_char_def ascii_digit_def)
  from NormalizeHost_case_and_port [OF this] show ?thesis by (simp add: ascii_lower_def ascii_upper_def)
qed

end
