(* ===== verification/Policy_Eval.thy ===== *)
theory Policy_Eval
  imports Policy
begin

text \<open>
  Evaluation of a compiled policy, second half of
  \<open>services/gateway/internal/policy/store.go\<close>: \<open>Condition.Match\<close>, \<open>App.EvaluateIP\<close> and
  \<open>App.EvaluateCustomRules\<close>.  Conditions are given an abstract meaning as boolean expressions
  (\<open>expr\<close>), which the parser and the matcher together implement; the rule list is given the
  meaning of a first-match firewall with count rules that never decide.
\<close>

section \<open>Matching a condition\<close>

definition headerContains :: "http_header \<Rightarrow> string \<Rightarrow> string \<Rightarrow> bool" where
  "headerContains headers name v =
     list_ex (\<lambda>got. strings_Contains got v) (header_values headers (canonicalHeaderName name))"

definition headerEquals :: "http_header \<Rightarrow> string \<Rightarrow> string \<Rightarrow> bool" where
  "headerEquals headers name v =
     list_ex (\<lambda>got. got = v) (header_values headers (canonicalHeaderName name))"

definition ipInSet :: "Addr \<Rightarrow> Prefix list \<Rightarrow> bool" where
  "ipInSet ip prefixes = list_ex (\<lambda>p. prefix_Contains p ip) prefixes"

text \<open>\<open>ipSets[name]\<close>: indexing a map with an absent key gives the nil slice.\<close>

definition set_of :: "ip_sets \<Rightarrow> string \<Rightarrow> Prefix list" where
  "set_of sets name = (case map_of sets name of None \<Rightarrow> [] | Some ps \<Rightarrow> ps)"

fun Match :: "unicode \<Rightarrow> RequestContext \<Rightarrow> ip_sets \<Rightarrow> Condition \<Rightarrow> bool" where
  "Match U ctx sets (Condition al an me pe ps he hct heq qp ini nini) =
     (if 0 < length al then list_all (Match U ctx sets) al
      else if 0 < length an then list_ex (Match U ctx sets) an
      else if me \<noteq> [] then strings_EqualFold U (rq_Method ctx) me
      else if pe \<noteq> [] then rq_Path ctx = pe
      else if ps \<noteq> [] then strings_HasPrefix (rq_Path ctx) ps
      else if he \<noteq> [] then NormalizeHost U (rq_Host ctx) = NormalizeHost U he
      else if hct \<noteq> None then headerContains (rq_Headers ctx) (hc_Name (the hct)) (hc_Value (the hct))
      else if heq \<noteq> None then headerEquals (rq_Headers ctx) (hc_Name (the heq)) (hc_Value (the heq))
      else if qp \<noteq> None then
        list_ex (\<lambda>v. strings_Contains v (qc_Value (the qp))) (values_get (rq_Query ctx) (qc_Name (the qp)))
      else if ini \<noteq> [] then ipInSet (rq_ClientIP ctx) (set_of sets ini)
      else if nini \<noteq> [] then \<not> ipInSet (rq_ClientIP ctx) (set_of sets nini)
      else False)"

declare Match.simps [simp del]

section \<open>Evaluating an application's policy\<close>

definition EvaluateIP :: "App \<Rightarrow> Addr \<Rightarrow> Decision" where
  "EvaluateIP a clientIP =
     (case find (\<lambda>p. prefix_Contains p clientIP) (app_IPBlocklist a) of
        Some p \<Rightarrow> Block ''ip_blocklist'' (''ip_blocklist:'' @ prefix_String p)
      | None \<Rightarrow>
          if 0 < length (app_IPAllowlist a) then
            (case find (\<lambda>p. prefix_Contains p clientIP) (app_IPAllowlist a) of
               Some _ \<Rightarrow> Allow
             | None \<Rightarrow> Block ''ip_allowlist'' ''ip_allowlist'')
          else Allow)"

definition block_decision :: "CustomRule \<Rightarrow> Decision" where
  "block_decision r = (WithStatus (Block ''custom_rule'' (cr_ID r)) (cr_StatusCode r))
     \<lparr>d_MatchedRuleName := cr_Name r, d_RuleGroup := ''custom'', d_Tags := [''custom_rule'']\<rparr>"

definition count_decision :: "CustomRule \<Rightarrow> Decision" where
  "count_decision r = (Count ''custom_rule'' (cr_ID r))
     \<lparr>d_MatchedRuleName := cr_Name r, d_RuleGroup := ''custom'', d_Tags := [''custom_rule'']\<rparr>"

definition allow_decision :: "CustomRule \<Rightarrow> Decision" where
  "allow_decision r = (AllowRule ''custom_rule_allow'' (cr_ID r))
     \<lparr>d_MatchedRuleName := cr_Name r, d_RuleGroup := ''custom'', d_Tags := [''custom_rule'', ''terminal_allow'']\<rparr>"

text \<open>The loop over the rules, with \<open>firstCount\<close> as its state.\<close>

fun custom_loop :: "unicode \<Rightarrow> RequestContext \<Rightarrow> ip_sets \<Rightarrow> Decision \<Rightarrow> CustomRule list \<Rightarrow> Decision" where
  "custom_loop U ctx sets firstCount [] = (if d_Action firstCount \<noteq> [] then firstCount else Allow)"
| "custom_loop U ctx sets firstCount (rule # rules) =
     (if \<not> cr_Enabled rule then custom_loop U ctx sets firstCount rules
      else if \<not> Match U ctx sets (cr_When rule) then custom_loop U ctx sets firstCount rules
      else if cr_Action rule = ActionBlock then block_decision rule
      else if cr_Action rule = ActionCount then
        custom_loop U ctx sets (if d_Action firstCount = [] then count_decision rule else firstCount) rules
      else if cr_Action rule = ActionAllow \<and> cr_TerminalAllow rule then allow_decision rule
      else custom_loop U ctx sets firstCount rules)"

definition EvaluateCustomRules :: "unicode \<Rightarrow> App \<Rightarrow> RequestContext \<Rightarrow> Decision" where
  "EvaluateCustomRules U a ctx = custom_loop U ctx (app_IPSets a) zero_Decision (app_CustomRules a)"

section \<open>Conditions as boolean expressions\<close>

datatype expr =
    EAll "expr list"
  | EAny "expr list"
  | EMethod string
  | EPath string
  | EPathPrefix string
  | EHost string
  | EHeaderContains string string
  | EHeaderEquals string string
  | EQueryContains string string
  | EInSet string
  | ENotInSet string

text \<open>The request a condition looks at: any header with the canonical name, any value of a
  repeated query parameter.\<close>

fun holds :: "unicode \<Rightarrow> RequestContext \<Rightarrow> (string \<Rightarrow> Addr \<Rightarrow> bool) \<Rightarrow> expr \<Rightarrow> bool" where
  "holds U ctx inset (EAll es) \<longleftrightarrow> (\<forall>e \<in> set es. holds U ctx inset e)"
| "holds U ctx inset (EAny es) \<longleftrightarrow> (\<exists>e \<in> set es. holds U ctx inset e)"
| "holds U ctx inset (EMethod m) \<longleftrightarrow> strings_EqualFold U (rq_Method ctx) m"
| "holds U ctx inset (EPath p) \<longleftrightarrow> rq_Path ctx = p"
| "holds U ctx inset (EPathPrefix p) \<longleftrightarrow> (\<exists>t. rq_Path ctx = p @ t)"
| "holds U ctx inset (EHost h) \<longleftrightarrow> NormalizeHost U (rq_Host ctx) = NormalizeHost U h"
| "holds U ctx inset (EHeaderContains n v) \<longleftrightarrow>
     (\<exists>l r. l @ v @ r \<in> set (header_values (rq_Headers ctx) (canonicalHeaderName n)))"
| "holds U ctx inset (EHeaderEquals n v) \<longleftrightarrow> v \<in> set (header_values (rq_Headers ctx) (canonicalHeaderName n))"
| "holds U ctx inset (EQueryContains n v) \<longleftrightarrow> (\<exists>l r. l @ v @ r \<in> set (values_get (rq_Query ctx) n))"
| "holds U ctx inset (EInSet s) \<longleftrightarrow> inset s (rq_ClientIP ctx)"
| "holds U ctx inset (ENotInSet s) \<longleftrightarrow> \<not> inset s (rq_ClientIP ctx)"

text \<open>The expression a configured condition denotes: its single operator.\<close>

fun expr_of :: "ConditionConfig \<Rightarrow> expr" where
  "expr_of (ConditionConfig al an me pe ps he hct heq qp ini nini) =
     (if al \<noteq> [] then EAll (map expr_of al)
      else if an \<noteq> [] then EAny (map expr_of an)
      else if me \<noteq> [] then EMethod me
      else if pe \<noteq> [] then EPath pe
      else if ps \<noteq> [] then EPathPrefix ps
      else if he \<noteq> [] then EHost he
      else (case hct of Some m \<Rightarrow> EHeaderContains (hm_Name m) (hm_Value m)
       | None \<Rightarrow> (case heq of Some m \<Rightarrow> EHeaderEquals (hm_Name m) (hm_Value m)
          | None \<Rightarrow> (case qp of Some m \<Rightarrow> EQueryContains (qm_Name m) (qm_Value m)
             | None \<Rightarrow> if ini \<noteq> [] then EInSet ini else ENotInSet nini))))"

definition in_set :: "ip_sets \<Rightarrow> string \<Rightarrow> Addr \<Rightarrow> bool" where
  "in_set sets s ip \<longleftrightarrow> (\<exists>p \<in> set (set_of sets s). prefix_Contains p ip)"

lemma Match_unfold:
  "Match U ctx sets c =
     (if c_All c \<noteq> [] then list_all (Match U ctx sets) (c_All c)
      else if c_Any c \<noteq> [] then list_ex (Match U ctx sets) (c_Any c)
      else if c_MethodEquals c \<noteq> [] then strings_EqualFold U (rq_Method ctx) (c_MethodEquals c)
      else if c_PathEquals c \<noteq> [] then rq_Path ctx = c_PathEquals c
      else if c_PathStartsWith c \<noteq> [] then strings_HasPrefix (rq_Path ctx) (c_PathStartsWith c)
      else if c_HostEquals c \<noteq> [] then NormalizeHost U (rq_Host ctx) = NormalizeHost U (c_HostEquals c)
      else if c_HeaderContains c \<noteq> None then
        headerContains (rq_Headers ctx) (hc_Name (the (c_HeaderContains c))) (hc_Value (the (c_HeaderContains c)))
      else if c_HeaderEquals c \<noteq> None then
        headerEquals (rq_Headers ctx) (hc_Name (the (c_HeaderEquals c))) (hc_Value (the (c_HeaderEquals c)))
      else if c_QueryParamContains c \<noteq> None then
        list_ex (\<lambda>v. strings_Contains v (qc_Value (the (c_QueryParamContains c))))
          (values_get (rq_Query ctx) (qc_Name (the (c_QueryParamContains c))))
      else if c_ClientIPInIPSet c \<noteq> [] then ipInSet (rq_ClientIP ctx) (set_of sets (c_ClientIPInIPSet c))
      else if c_ClientIPNotInIPSet c \<noteq> [] then \<not> ipInSet (rq_ClientIP ctx) (set_of sets (c_ClientIPNotInIPSet c))
      else False)"
  by (cases c) (simp add: Match.simps)

lemma one_operator_last:
  assumes "length (filter id (operator_flags v)) = 1"
    and "cc_All v = []" "cc_Any v = []" "cc_MethodEquals v = []" "cc_PathEquals v = []"
    "cc_PathStartsWith v = []" "cc_HostEquals v = []" "cc_HeaderContains v = None"
    "cc_HeaderEquals v = None" "cc_QueryParamContains v = None" "cc_ClientIPInIPSet v = []"
  shows "cc_ClientIPNotInIPSet v \<noteq> []"
  using assms by (auto simp: operator_flags_def split: if_splits)

lemma canonicalHeaderName_idem [simp]: "canonicalHeaderName (canonicalHeaderName n) = canonicalHeaderName n"
  by (simp add: canonicalHeaderName_def CanonicalHeaderKey_TrimSpace)

lemma headerContains_iff:
  "headerContains h n v \<longleftrightarrow> (\<exists>l r. l @ v @ r \<in> set (header_values h (canonicalHeaderName n)))"
  by (auto simp: headerContains_def list_ex_iff Contains_iff)

lemma headerEquals_iff: "headerEquals h n v \<longleftrightarrow> v \<in> set (header_values h (canonicalHeaderName n))"
  by (auto simp: headerEquals_def list_ex_iff)


lemma ipInSet_iff: "ipInSet ip (set_of sets s) \<longleftrightarrow> in_set sets s ip"
  by (simp add: ipInSet_def in_set_def list_ex_iff)

lemma header_condition_simps [simp]:
  "hc_Name (header_condition m) = canonicalHeaderName (hm_Name m)" "hc_Value (header_condition m) = hm_Value m"
  "qc_Name (query_condition q) = qm_Name q" "qc_Value (query_condition q) = qm_Value q"
  by (simp_all add: header_condition_def query_condition_def)

text \<open>The parser and the matcher together implement the abstract meaning of a condition.\<close>

lemma Match_refines:
  "parseCondition sets v = Inr c \<Longrightarrow> Match U ctx sets c \<longleftrightarrow> holds U ctx (in_set sets) (expr_of v)"
proof (induction v arbitrary: c)
  case (ConditionConfig al an me pe ps he hct heq qp ini nini)
  let ?v = "ConditionConfig al an me pe ps he hct heq qp ini nini"
  note parts = parseCondition_Inr [THEN iffD1, OF ConditionConfig.prems, simplified]
  have al: "list_all2 (\<lambda>x y. parseCondition sets x = Inr y) al (c_All c)"
    and an: "list_all2 (\<lambda>x y. parseCondition sets x = Inr y) an (c_Any c)" using parts by simp_all
  have kids: "list_all (Match U ctx sets) (c_All c) \<longleftrightarrow> (\<forall>x \<in> set al. holds U ctx (in_set sets) (expr_of x))"
    "list_ex (Match U ctx sets) (c_Any c) \<longleftrightarrow> (\<exists>x \<in> set an. holds U ctx (in_set sets) (expr_of x))"
    using list_all2_all_iff [OF al, of "Match U ctx sets" "\<lambda>x. holds U ctx (in_set sets) (expr_of x)"]
      list_all2_all_iff [OF an, of "Match U ctx sets" "\<lambda>x. holds U ctx (in_set sets) (expr_of x)"]
      ConditionConfig.IH by simp_all
  have last: "nini \<noteq> []" if "al = []" "an = []" "me = []" "pe = []" "ps = []" "he = []" "hct = None"
      "heq = None" "qp = None" "ini = []"
    using that one_operator_last [of ?v] parts by (simp add: validateCondition_None)
  have empties: "c_All c = [] \<longleftrightarrow> al = []" "c_Any c = [] \<longleftrightarrow> an = []"
    using list_all2_empty_iff [OF al] list_all2_empty_iff [OF an] by blast+
  show ?case
    unfolding Match_unfold [of U ctx sets c] empties kids using parts last
    by (auto simp: headerContains_iff headerEquals_iff ipInSet_iff HasPrefix_iff Contains_iff list_ex_iff
        split: option.split)
qed

section \<open>IP lists\<close>

lemma EvaluateIP_blocked:
  "ipInSet ip (app_IPBlocklist a) \<Longrightarrow>
     \<exists>p \<in> set (app_IPBlocklist a). prefix_Contains p ip \<and>
       EvaluateIP a ip = Block ''ip_blocklist'' (''ip_blocklist:'' @ prefix_String p)"
  using find_ex [of "app_IPBlocklist a" "\<lambda>p. prefix_Contains p ip"]
  by (auto simp: EvaluateIP_def ipInSet_def list_ex_iff)

lemma EvaluateIP_not_blocklisted:
  "\<not> ipInSet ip (app_IPBlocklist a) \<Longrightarrow>
     EvaluateIP a ip = (if app_IPAllowlist a = [] \<or> ipInSet ip (app_IPAllowlist a) then Allow
       else Block ''ip_allowlist'' ''ip_allowlist'')"
proof -
  assume "\<not> ipInSet ip (app_IPBlocklist a)"
  then have "find (\<lambda>p. prefix_Contains p ip) (app_IPBlocklist a) = None"
    by (auto simp: ipInSet_def list_ex_iff find_None_iff)
  moreover have "find (\<lambda>p. prefix_Contains p ip) (app_IPAllowlist a) = None \<longleftrightarrow> \<not> ipInSet ip (app_IPAllowlist a)"
    by (auto simp: ipInSet_def list_ex_iff find_None_iff)
  ultimately show ?thesis by (auto simp: EvaluateIP_def split: option.split)
qed

lemma EvaluateIP_blocks_iff:
  "WouldBlock (EvaluateIP a ip) \<longleftrightarrow>
     ipInSet ip (app_IPBlocklist a) \<or> (app_IPAllowlist a \<noteq> [] \<and> \<not> ipInSet ip (app_IPAllowlist a))"
proof (cases "ipInSet ip (app_IPBlocklist a)")
  case True
  then show ?thesis using EvaluateIP_blocked [OF True] by auto
next
  case False
  then show ?thesis by (simp add: EvaluateIP_not_blocklisted)
qed

lemma EvaluateIP_action: "d_Action (EvaluateIP a ip) \<in> {ActionAllow, ActionBlock}"
  by (auto simp: EvaluateIP_def split: option.split)

text \<open>An IPv4 client reported as an IPv4-mapped IPv6 address is outside every IPv4 prefix.\<close>

lemma ipInSet_family: "\<forall>p \<in> set ps. addr_BitLen (prefix_Addr p) = 32 \<Longrightarrow> \<not> ipInSet (IPv6 w z) ps"
  by (auto simp: ipInSet_def list_ex_iff prefix_Contains_def addr_BitLen_def split: Prefix.splits Addr.splits)

section \<open>Custom rules as a first-match list\<close>

definition active :: "unicode \<Rightarrow> RequestContext \<Rightarrow> ip_sets \<Rightarrow> CustomRule \<Rightarrow> bool" where
  "active U ctx sets r \<longleftrightarrow> cr_Enabled r \<and> Match U ctx sets (cr_When r)"

definition terminal :: "CustomRule \<Rightarrow> bool" where
  "terminal r \<longleftrightarrow> cr_Action r = ActionBlock \<or> (cr_Action r = ActionAllow \<and> cr_TerminalAllow r)"

definition first_match :: "(CustomRule \<Rightarrow> bool) \<Rightarrow> CustomRule list \<Rightarrow> Decision" where
  "first_match act rules =
     (case find (\<lambda>r. act r \<and> terminal r) rules of
        Some r \<Rightarrow> if cr_Action r = ActionBlock then block_decision r else allow_decision r
      | None \<Rightarrow>
          (case find (\<lambda>r. act r \<and> cr_Action r = ActionCount) rules of
             Some r \<Rightarrow> count_decision r
           | None \<Rightarrow> Allow))"

lemma rule_decision_actions [simp]:
  "d_Action (block_decision r) = ActionBlock" "d_Action (count_decision r) = ActionCount"
  "d_Action (allow_decision r) = ActionAllow" "d_MatchedRuleID (block_decision r) = cr_ID r"
  "d_MatchedRuleID (count_decision r) = cr_ID r" "d_MatchedRuleID (allow_decision r) = cr_ID r"
  "d_StatusCode (block_decision r) = cr_StatusCode r"
  by (simp_all add: block_decision_def count_decision_def allow_decision_def decision_defs)

lemma custom_loop_first_match:
  "custom_loop U ctx sets fc rules =
     (case find (\<lambda>r. active U ctx sets r \<and> terminal r) rules of
        Some r \<Rightarrow> if cr_Action r = ActionBlock then block_decision r else allow_decision r
      | None \<Rightarrow> if d_Action fc \<noteq> [] then fc else
          (case find (\<lambda>r. active U ctx sets r \<and> cr_Action r = ActionCount) rules of
             Some r \<Rightarrow> count_decision r
           | None \<Rightarrow> Allow))"
  by (induction rules arbitrary: fc) (auto simp: active_def terminal_def split: option.split)

lemma EvaluateCustomRules_first_match:
  "EvaluateCustomRules U a ctx = first_match (active U ctx (app_IPSets a)) (app_CustomRules a)"
  by (simp add: EvaluateCustomRules_def custom_loop_first_match first_match_def split: option.split)

text \<open>Sortedness makes the decision the one of least priority.\<close>

lemma custom_block_least:
  assumes "sorted (map cr_Priority (app_CustomRules a))"
    and "WouldBlock (EvaluateCustomRules U a ctx)"
  obtains r where "r \<in> set (app_CustomRules a)" "active U ctx (app_IPSets a) r" "cr_Action r = ActionBlock"
    "EvaluateCustomRules U a ctx = block_decision r"
    "\<And>r'. r' \<in> set (app_CustomRules a) \<Longrightarrow> active U ctx (app_IPSets a) r' \<Longrightarrow> terminal r' \<Longrightarrow>
       cr_Priority r \<le> cr_Priority r'"
proof -
  let ?P = "\<lambda>r. active U ctx (app_IPSets a) r \<and> terminal r"
  obtain r where r: "find ?P (app_CustomRules a) = Some r" "cr_Action r = ActionBlock"
    using assms(2) unfolding EvaluateCustomRules_first_match first_match_def
    by (auto simp: WouldBlock_def split: option.splits if_splits)
  moreover have "cr_Priority r \<le> cr_Priority r'"
    if "r' \<in> set (app_CustomRules a)" "?P r'" for r'
    using find_sorted_least [OF assms(1) r(1) that] .
  moreover have "r \<in> set (app_CustomRules a)" "?P r" using find_Some_in [OF r(1)] by blast+
  moreover have "EvaluateCustomRules U a ctx = block_decision r"
    using r by (simp add: EvaluateCustomRules_first_match first_match_def)
  ultimately show thesis using that by blast
qed

lemma first_match_filter:
  assumes "\<And>r. act r \<Longrightarrow> P r"
  shows "first_match act (filter P rules) = first_match act rules"
proof -
  have "find (\<lambda>r. act r \<and> Q r) (filter P rs) = find (\<lambda>r. act r \<and> Q r) rs" for Q rs
    using assms by (induction rs) auto
  then show ?thesis by (simp only: first_match_def)
qed

lemma EvaluateCustomRules_disabled:
  "EvaluateCustomRules U (a\<lparr>app_CustomRules := filter cr_Enabled (app_CustomRules a)\<rparr>) ctx
     = EvaluateCustomRules U a ctx"
  unfolding EvaluateCustomRules_first_match
  by (simp, rule first_match_filter) (simp add: active_def)

section \<open>Properties\<close>

text \<open>C21: Parsing a configured condition and matching the result against a request computes the
  boolean expression the configuration denotes: \<open>all\<close> is conjunction, \<open>any\<close> disjunction, a header
  or query operator asks for some value that contains (or equals) the operand, and the IP-set
  operators ask for membership in the named set.\<close>

theorem condition_meaning:
  "parseCondition sets v = Inr c \<Longrightarrow> Match U ctx sets c \<longleftrightarrow> holds U ctx (in_set sets) (expr_of v)"
  by (rule Match_refines)

definition sample_request :: "string \<Rightarrow> Addr \<Rightarrow> RequestContext" where
  "sample_request path ip = \<lparr>rq_Method = ''GET'', rq_Path = path, rq_Host = ''example.com'',
     rq_Headers = [], rq_Query = [], rq_ClientIP = ip\<rparr>"

theorem condition_meaning_witness:
  "Match ascii_tables (sample_request ''/admin/users'' (IPv4 1)) []
     (Condition [] [] [] [] ''/admin'' [] None None None [] [])"
  unfolding condition_meaning [OF sample_condition]
  by (simp add: sample_when_def sample_request_def)

text \<open>The IP decision blocks exactly the clients that are on the blocklist, or that are missing
  from a non-empty allowlist; the blocklist comes first, and the rule id names a listed prefix
  that contains the client.\<close>

theorem EvaluateIP_correct:
  "(WouldBlock (EvaluateIP a ip) \<longleftrightarrow>
      ipInSet ip (app_IPBlocklist a) \<or> (app_IPAllowlist a \<noteq> [] \<and> \<not> ipInSet ip (app_IPAllowlist a))) \<and>
   (\<not> WouldBlock (EvaluateIP a ip) \<longrightarrow> EvaluateIP a ip = Allow) \<and>
   (ipInSet ip (app_IPBlocklist a) \<longrightarrow>
      (\<exists>p \<in> set (app_IPBlocklist a). prefix_Contains p ip \<and>
         EvaluateIP a ip = Block ''ip_blocklist'' (''ip_blocklist:'' @ prefix_String p)))"
  using EvaluateIP_blocks_iff EvaluateIP_blocked EvaluateIP_not_blocklisted by (metis WouldBlock_simps(2))

theorem EvaluateIP_correct_witness:
  "EvaluateIP sample_compiled (IPv4 167772161) = Block ''ip_blocklist'' ''ip_blocklist:10.0.0.0/8'' \<and>
   EvaluateIP sample_compiled (IPv4 1) = Allow"
proof -
  have 1: "ipInSet (IPv4 167772161) (app_IPBlocklist sample_compiled)"
    by (simp add: sample_compiled_def ipInSet_def prefix_Contains_def)
  have 2: "\<not> ipInSet (IPv4 1) (app_IPBlocklist sample_compiled)" "app_IPAllowlist sample_compiled = []"
    by (simp_all add: sample_compiled_def ipInSet_def prefix_Contains_def)
  have "EvaluateIP sample_compiled (IPv4 167772161) = Block ''ip_blocklist'' ''ip_blocklist:10.0.0.0/8''"
    using EvaluateIP_correct [of sample_compiled "IPv4 167772161"] 1
    by (auto simp: sample_compiled_def go_eval)
  moreover have "EvaluateIP sample_compiled (IPv4 1) = Allow"
    using EvaluateIP_correct [of sample_compiled "IPv4 1"] 2 by blast
  ultimately show ?thesis ..
qed

text \<open>C18: The custom rules of a compiled application are a first-match list.  They stand in priority
  order, rules of equal priority in the order of the configuration.  The decision is that of the first
  enabled, matching rule of the list that is terminal (a block rule or a terminal allow rule); only when there
  is none does the first enabled, matching count rule show, and otherwise the request is allowed.\<close>

theorem custom_rules_first_match:
  assumes "newApp cfg = Inr a"
  shows "sorted (map cr_Priority (app_CustomRules a)) \<and>
    (\<forall>p. map cr_ID (filter (\<lambda>r. cr_Priority r = p) (app_CustomRules a)) =
       map crc_ID (filter (\<lambda>v. crc_Priority v = p) (pc_CustomRules (ac_Policy cfg)))) \<and>
    EvaluateCustomRules U a ctx =
      (case find (\<lambda>r. active U ctx (app_IPSets a) r \<and> terminal r) (app_CustomRules a) of
         Some r \<Rightarrow> if cr_Action r = ActionBlock then block_decision r else allow_decision r
       | None \<Rightarrow>
           (case find (\<lambda>r. active U ctx (app_IPSets a) r \<and> cr_Action r = ActionCount) (app_CustomRules a) of
              Some r \<Rightarrow> count_decision r
            | None \<Rightarrow> Allow))"
proof -
  have "parseCustomRules (pc_CustomRules (ac_Policy cfg)) (app_IPSets a) = Inr (app_CustomRules a)"
    using assms by (simp add: newApp_Inr)
  from parseCustomRules_stable [OF this] show ?thesis
    by (simp add: EvaluateCustomRules_first_match first_match_def)
qed

theorem custom_rules_first_match_witness:
  "EvaluateCustomRules ascii_tables sample_compiled (sample_request ''/admin'' (IPv4 1)) =
     block_decision (app_CustomRules sample_compiled ! 1)"
  using custom_rules_first_match [OF sample_newApp, of ascii_tables "sample_request ''/admin'' (IPv4 1)"]
  by (simp add: sample_compiled_def active_def terminal_def sample_request_def Match.simps
      strings_HasPrefix_def action_defs)

end
