(* ===== verification/Policy_Client.thy ===== *)
theory Policy_Client
  imports Policy_Eval
begin

text \<open>
  The remote policy provider (\<open>services/gateway/internal/policyclient/client.go\<close>): the client that
  fetches a host's policy from the control plane, the conversion of the answer into an application,
  and the cache with its fail behaviours.  The HTTP exchange and the JSON text are an argument of the
  client; a raw JSON field is represented by what \<open>json.Unmarshal\<close> makes of it.  The provider is
  modelled twice: \<open>Provider_Lookup\<close> is the method run by one caller, and \<open>lookup_step\<close> interleaves
  many callers at the grain of the locks, for the single-flight property and for the end of every lookup.
\<close>

section \<open>The answer of the control plane\<close>

datatype 'a raw_json = RawAbsent | RawNull | RawInvalid | RawValue 'a

record remoteOrigin =
  ro_URL :: string
  ro_Scheme :: string
  ro_Host :: string
  ro_Port :: int

record customRule =
  rcr_ID :: string
  rcr_Name :: string
  rcr_Priority :: int
  rcr_Enabled :: bool
  rcr_Action :: string
  rcr_StatusCode :: int
  rcr_TerminalAllow :: bool
  rcr_When :: ConditionConfig

record rateLimit =
  rrl_ID :: string
  rrl_Name :: string
  rrl_Enabled :: bool
  rrl_Priority :: int
  rrl_Match :: ConditionConfig
  rrl_KeyType :: string
  rrl_KeyHeader :: string
  rrl_Limit :: int
  rrl_WindowSeconds :: int
  rrl_Action :: string
  rrl_StatusCode :: int

record gatewayPolicy =
  gp_TenantID :: string
  gp_AppID :: string
  gp_PolicyID :: string
  gp_PolicyVersionID :: string
  gp_Mode :: string
  gp_Origin :: remoteOrigin
  gp_IPSets :: "(string, string list) gomap raw_json"
  gp_CustomRules :: "customRule list raw_json"
  gp_RateLimits :: "rateLimit list raw_json"

datatype fetch_error =
    MissingIdentifiers
  | MissingOrigin
  | DecodeIPSets
  | DecodeCustomRules
  | DecodeRateLimits
  | PolicyRejected policy_error
  | HTTPFailed
  | HTTPStatus int
  | DecodePolicy

definition decodeIPSets :: "(string, string list) gomap raw_json \<Rightarrow> fetch_error + (string, string list) gomap" where
  "decodeIPSets raw =
     (case raw of RawAbsent \<Rightarrow> Inr [] | RawNull \<Rightarrow> Inr [] | RawInvalid \<Rightarrow> Inl DecodeIPSets | RawValue got \<Rightarrow> Inr got)"

definition custom_rule_config :: "customRule \<Rightarrow> CustomRuleConfig" where
  "custom_rule_config r = \<lparr>crc_ID = rcr_ID r, crc_Name = rcr_Name r, crc_Priority = rcr_Priority r,
     crc_Enabled = rcr_Enabled r, crc_Action = rcr_Action r, crc_StatusCode = rcr_StatusCode r,
     crc_TerminalAllow = rcr_TerminalAllow r, crc_When = rcr_When r\<rparr>"

definition decodeCustomRules :: "customRule list raw_json \<Rightarrow> fetch_error + CustomRuleConfig list" where
  "decodeCustomRules raw =
     (case raw of RawAbsent \<Rightarrow> Inr [] | RawNull \<Rightarrow> Inr [] | RawInvalid \<Rightarrow> Inl DecodeCustomRules
      | RawValue got \<Rightarrow> Inr (map custom_rule_config got))"

definition rate_limit_config :: "rateLimit \<Rightarrow> RateLimitConfig" where
  "rate_limit_config r = \<lparr>rlc_ID = rrl_ID r, rlc_Name = rrl_Name r, rlc_Enabled = rrl_Enabled r,
     rlc_Priority = rrl_Priority r, rlc_MatchExpression = rrl_Match r, rlc_KeyType = rrl_KeyType r,
     rlc_KeyHeader = rrl_KeyHeader r, rlc_Limit = rrl_Limit r, rlc_WindowSeconds = rrl_WindowSeconds r,
     rlc_Action = rrl_Action r, rlc_StatusCode = rrl_StatusCode r, rlc_Key = []\<rparr>"

definition decodeRateLimits :: "rateLimit list raw_json \<Rightarrow> fetch_error + RateLimitConfig list" where
  "decodeRateLimits raw =
     (case raw of RawAbsent \<Rightarrow> Inr [] | RawNull \<Rightarrow> Inr [] | RawInvalid \<Rightarrow> Inl DecodeRateLimits
      | RawValue got \<Rightarrow> Inr (map rate_limit_config got))"

definition remote_origin_url :: "remoteOrigin \<Rightarrow> string" where
  "remote_origin_url ro =
     (if ro_URL ro = [] \<and> ro_Scheme ro \<noteq> [] \<and> ro_Host ro \<noteq> []
      then ro_Scheme ro @ ''://'' @ ro_Host ro @ (if 0 < ro_Port ro then '':'' @ strconv_Itoa (ro_Port ro) else [])
      else ro_URL ro)"

definition remote_config ::
  "unicode \<Rightarrow> gatewayPolicy \<Rightarrow> string \<Rightarrow> (string, string list) gomap \<Rightarrow> CustomRuleConfig list \<Rightarrow> RateLimitConfig list \<Rightarrow> AppConfig" where
  "remote_config U p hostname ipSets customRules rateLimits =
     \<lparr>ac_ID = gp_AppID p, ac_TenantID = gp_TenantID p, ac_Hostnames = [NormalizeHost U hostname],
      ac_OriginURL = remote_origin_url (gp_Origin p),
      ac_Policy = \<lparr>pc_Mode = gp_Mode p, pc_DefaultAction = ''allow'', pc_IPBlocklist = [], pc_IPAllowlist = [],
        pc_IPSets = ipSets, pc_RateLimits = rateLimits, pc_CustomRules = customRules\<rparr>\<rparr>"

definition toApp :: "unicode \<Rightarrow> gatewayPolicy \<Rightarrow> string \<Rightarrow> fetch_error + App" where
  "toApp U p hostname =
     (if gp_TenantID p = [] \<or> gp_AppID p = [] \<or> gp_PolicyID p = [] \<or> gp_PolicyVersionID p = [] then Inl MissingIdentifiers
      else if remote_origin_url (gp_Origin p) = [] then Inl MissingOrigin
      else (case decodeIPSets (gp_IPSets p) of Inl e \<Rightarrow> Inl e
      | Inr ipSets \<Rightarrow> (case decodeCustomRules (gp_CustomRules p) of Inl e \<Rightarrow> Inl e
      | Inr customRules \<Rightarrow> (case decodeRateLimits (gp_RateLimits p) of Inl e \<Rightarrow> Inl e
      | Inr rateLimits \<Rightarrow>
          (case NewApp (remote_config U p hostname ipSets customRules rateLimits) of
             Inl e \<Rightarrow> Inl (PolicyRejected e)
           | Inr app \<Rightarrow> Inr (app\<lparr>app_PolicyID := gp_PolicyID p, app_PolicyVersion := gp_PolicyVersionID p\<rparr>))))))"

section \<open>The client\<close>

record Client =
  cl_baseURL :: URL
  cl_gatewayAPIKey :: string
  cl_timeout :: int

definition NewClient :: "ControlAPIConfig \<Rightarrow> Client option" where
  "NewClient cfg =
     (case url_Parse (strings_TrimRight (cac_BaseURL cfg) ''/'') of
        None \<Rightarrow> None
      | Some base \<Rightarrow>
          if url_Scheme base = [] \<or> url_Host base = [] then None
          else Some \<lparr>cl_baseURL = base, cl_gatewayAPIKey = cac_GatewayAPIKey cfg, cl_timeout = 3000000000\<rparr>)"

datatype http_answer = AnswerError | Answer int "gatewayPolicy option"

definition policy_path :: "unicode \<Rightarrow> string \<Rightarrow> string" where
  "policy_path U hostname =
     ''/v1/gateway/apps/'' @ url_escape EncodePathSegment (NormalizeHost U hostname) @ ''/policy''"

text \<open>\<open>do base path authorization\<close> stands for the HTTP client and the JSON decoder.\<close>

definition FetchPolicy ::
  "unicode \<Rightarrow> (URL \<Rightarrow> string \<Rightarrow> string \<Rightarrow> 's \<Rightarrow> 's \<times> http_answer) \<Rightarrow> Client \<Rightarrow> string \<Rightarrow> 's \<Rightarrow> 's \<times> (fetch_error + App)" where
  "FetchPolicy U do c hostname w =
     (case do (cl_baseURL c) (policy_path U hostname) (''Bearer '' @ cl_gatewayAPIKey c) w of
        (w', AnswerError) \<Rightarrow> (w', Inl HTTPFailed)
      | (w', Answer code decoded) \<Rightarrow>
          (w', if code \<noteq> 200 then Inl (HTTPStatus code)
               else (case decoded of None \<Rightarrow> Inl DecodePolicy | Some remote \<Rightarrow> toApp U remote hostname)))"

section \<open>The provider\<close>

record cacheEntry =
  ent_app :: App
  ent_expiresAt :: int

record Provider =
  pv_ttl :: int
  pv_failBehavior :: string
  pv_cache :: "string \<rightharpoonup> cacheEntry"
  pv_hits :: nat
  pv_misses :: nat
  pv_fetchErrors :: nat

text \<open>Durations are in nanoseconds; the multiplication is Go's 64-bit one.\<close>

definition NewProvider :: "ControlAPIConfig \<Rightarrow> Provider" where
  "NewProvider cfg =
     (let ttl = wrap64 (cac_CacheTTLSeconds cfg * 1000000000) in
      \<lparr>pv_ttl = (if ttl \<le> 0 then 30000000000 else ttl),
       pv_failBehavior = default_string ''use_stale_then_fail_open'' (cac_FailBehavior cfg),
       pv_cache = (\<lambda>_. None), pv_hits = 0, pv_misses = 0, pv_fetchErrors = 0\<rparr>)"

definition fresh :: "int \<Rightarrow> string \<Rightarrow> Provider \<Rightarrow> App option" where
  "fresh now host p =
     (case pv_cache p host of
        Some entry \<Rightarrow> if now < ent_expiresAt entry then Some (ent_app entry) else None
      | None \<Rightarrow> None)"

definition found_result :: "App \<Rightarrow> LookupResult" where
  "found_result a = zero_LookupResult\<lparr>lr_App := Some a, lr_Found := True\<rparr>"

definition hit :: "Provider \<Rightarrow> Provider" where
  "hit p = p\<lparr>pv_hits := pv_hits p + 1\<rparr>"

text \<open>What a lookup does with the outcome of its fetch, still holding the host's lock.\<close>

definition after_fetch :: "int \<Rightarrow> string \<Rightarrow> (fetch_error + App) \<Rightarrow> Provider \<Rightarrow> Provider \<times> LookupResult" where
  "after_fetch now host outcome p =
     (case outcome of
        Inr app \<Rightarrow>
          (p\<lparr>pv_cache := (pv_cache p)(host \<mapsto> \<lparr>ent_app = app, ent_expiresAt = now + pv_ttl p\<rparr>)\<rparr>, found_result app)
      | Inl _ \<Rightarrow>
          (let p' = p\<lparr>pv_fetchErrors := pv_fetchErrors p + 1\<rparr> in
           case pv_cache p' host of
             Some stale \<Rightarrow>
               (p', (found_result (ent_app stale))\<lparr>lr_Stale := True, lr_Warning := ''policy_fetch_failed_using_stale''\<rparr>)
           | None \<Rightarrow>
               (p', if pv_failBehavior p' = ''fail_closed''
                    then zero_LookupResult\<lparr>lr_StatusCode := 503, lr_Reason := ''policy_fetch_failed''\<rparr>
                    else zero_LookupResult\<lparr>lr_FailOpen := True, lr_Reason := ''policy_fetch_failed_fail_open'',
                      lr_Warning := ''policy_fetch_failed_fail_open''\<rparr>)))"

text \<open>\<open>Provider.Lookup\<close> run by one caller: \<open>now1\<close> and \<open>now2\<close> are the two readings of the clock.\<close>

definition Provider_Lookup ::
  "unicode \<Rightarrow> (string \<Rightarrow> 's \<Rightarrow> 's \<times> (fetch_error + App)) \<Rightarrow> int \<Rightarrow> int \<Rightarrow> string \<Rightarrow> Provider \<times> 's \<Rightarrow>
     (Provider \<times> 's) \<times> LookupResult" where
  "Provider_Lookup U fetch now1 now2 h pw =
     (case pw of (p, w) \<Rightarrow>
        let host = NormalizeHost U h in
        if host = [] then ((p, w), zero_LookupResult\<lparr>lr_Reason := ''empty_host''\<rparr>)
        else (case fresh now1 host p of
            Some app \<Rightarrow> ((hit p, w), found_result app)
          | None \<Rightarrow>
              (let p1 = p\<lparr>pv_misses := pv_misses p + 1\<rparr> in
               case fresh now2 host p1 of
                 Some app \<Rightarrow> ((hit p1, w), found_result app)
               | None \<Rightarrow>
                   (case fetch host w of (w', outcome) \<Rightarrow>
                      (case after_fetch now2 host outcome p1 of (p2, r) \<Rightarrow> ((p2, w'), r))))))"

section \<open>Concurrent lookups\<close>

datatype pc =
    Idle
  | WaitingLock string
  | Rechecking string
  | Fetching string int
  | Returned LookupResult

record 's lookups =
  lk_p :: Provider
  lk_w :: 's
  lk_lock :: "string \<rightharpoonup> nat"
  lk_pc :: "nat \<Rightarrow> pc"

text \<open>One step of caller \<open>t\<close>.  The provider's own mutex makes each access to the cache atomic; the host's
  mutex is held from \<open>acquire\<close> until the caller returns.\<close>

inductive lookup_step :: "unicode \<Rightarrow> (string \<Rightarrow> 's \<Rightarrow> 's \<times> (fetch_error + App)) \<Rightarrow> 's lookups \<Rightarrow> 's lookups \<Rightarrow> bool"
  for U fetch where
  empty_host: "lk_pc s t = Idle \<Longrightarrow> NormalizeHost U h = [] \<Longrightarrow>
    lookup_step U fetch s (s\<lparr>lk_pc := (lk_pc s)(t := Returned (zero_LookupResult\<lparr>lr_Reason := ''empty_host''\<rparr>))\<rparr>)"
| first_hit: "lk_pc s t = Idle \<Longrightarrow> host = NormalizeHost U h \<Longrightarrow> host \<noteq> [] \<Longrightarrow> fresh now host (lk_p s) = Some app \<Longrightarrow>
    lookup_step U fetch s (s\<lparr>lk_p := hit (lk_p s), lk_pc := (lk_pc s)(t := Returned (found_result app))\<rparr>)"
| first_miss: "lk_pc s t = Idle \<Longrightarrow> host = NormalizeHost U h \<Longrightarrow> host \<noteq> [] \<Longrightarrow> fresh now host (lk_p s) = None \<Longrightarrow>
    lookup_step U fetch s (s\<lparr>lk_p := (lk_p s)\<lparr>pv_misses := pv_misses (lk_p s) + 1\<rparr>,
      lk_pc := (lk_pc s)(t := WaitingLock host)\<rparr>)"
| acquire: "lk_pc s t = WaitingLock host \<Longrightarrow> lk_lock s host = None \<Longrightarrow>
    lookup_step U fetch s (s\<lparr>lk_lock := (lk_lock s)(host \<mapsto> t), lk_pc := (lk_pc s)(t := Rechecking host)\<rparr>)"
| second_hit: "lk_pc s t = Rechecking host \<Longrightarrow> fresh now host (lk_p s) = Some app \<Longrightarrow>
    lookup_step U fetch s (s\<lparr>lk_p := hit (lk_p s), lk_lock := (lk_lock s)(host := None),
      lk_pc := (lk_pc s)(t := Returned (found_result app))\<rparr>)"
| second_miss: "lk_pc s t = Rechecking host \<Longrightarrow> fresh now host (lk_p s) = None \<Longrightarrow>
    lookup_step U fetch s (s\<lparr>lk_pc := (lk_pc s)(t := Fetching host now)\<rparr>)"
| fetched: "lk_pc s t = Fetching host now \<Longrightarrow> fetch host (lk_w s) = (w', outcome) \<Longrightarrow>
    after_fetch now host outcome (lk_p s) = (p', r) \<Longrightarrow>
    lookup_step U fetch s (s\<lparr>lk_p := p', lk_w := w', lk_lock := (lk_lock s)(host := None),
      lk_pc := (lk_pc s)(t := Returned r)\<rparr>)"
| again: "lk_pc s t = Returned r \<Longrightarrow> lookup_step U fetch s (s\<lparr>lk_pc := (lk_pc s)(t := Idle)\<rparr>)"

definition lookups_init :: "Provider \<Rightarrow> 's \<Rightarrow> 's lookups" where
  "lookups_init p w = \<lparr>lk_p = p, lk_w = w, lk_lock = (\<lambda>_. None), lk_pc = (\<lambda>_. Idle)\<rparr>"

section \<open>Remote applications satisfy the invariant\<close>

lemma toApp_ok: "toApp U p h = Inr app \<Longrightarrow> app_ok app"
proof -
  assume "toApp U p h = Inr app"
  then obtain cfg a where "newApp cfg = Inr a"
    and app: "app = a\<lparr>app_PolicyID := gp_PolicyID p, app_PolicyVersion := gp_PolicyVersionID p\<rparr>"
    by (auto simp: toApp_def NewApp_def split: if_splits sum.splits)
  from newApp_wf [OF this(1)] show ?thesis unfolding app by (simp add: app_ok_def)
qed

lemma FetchPolicy_ok: "FetchPolicy U do c h w = (w', Inr app) \<Longrightarrow> app_ok app"
  by (auto simp: FetchPolicy_def toApp_ok split: prod.splits http_answer.splits option.splits if_splits)

definition fetches_ok :: "(string \<Rightarrow> 's \<Rightarrow> 's \<times> (fetch_error + App)) \<Rightarrow> bool" where
  "fetches_ok fetch \<longleftrightarrow> (\<forall>h w w' app. fetch h w = (w', Inr app) \<longrightarrow> app_ok app)"

definition cache_ok :: "Provider \<Rightarrow> bool" where
  "cache_ok p \<longleftrightarrow> (\<forall>h e. pv_cache p h = Some e \<longrightarrow> app_ok (ent_app e))"

lemma cache_ok_counters [simp]:
  "cache_ok (hit p) = cache_ok p" "cache_ok (p\<lparr>pv_misses := n\<rparr>) = cache_ok p"
  "cache_ok (p\<lparr>pv_fetchErrors := n\<rparr>) = cache_ok p"
  by (simp_all add: cache_ok_def hit_def)

lemma fresh_ok: "cache_ok p \<Longrightarrow> fresh now h p = Some app \<Longrightarrow> app_ok app"
  by (auto simp: fresh_def cache_ok_def split: option.splits if_splits)

lemma found_result_simps [simp]:
  "lr_App (found_result a) = Some a" "lr_Found (found_result a)" "\<not> lr_FailOpen (found_result a)"
  "lr_Warning (found_result a) = []" "\<not> lr_Stale (found_result a)"
  by (simp_all add: found_result_def zero_LookupResult_def)

lemma after_fetch_ok:
  assumes "cache_ok p" "\<And>app. outcome = Inr app \<Longrightarrow> app_ok app" "after_fetch now h outcome p = (p', r)"
  shows "cache_ok p'" "lr_Found r \<Longrightarrow> \<exists>a. lr_App r = Some a \<and> app_ok a" "lr_FailOpen r \<Longrightarrow> \<not> lr_Found r"
  using assms
  by (auto simp: after_fetch_def cache_ok_def Let_def zero_LookupResult_def split: sum.splits option.splits if_splits)

text \<open>The four ways a lookup goes.\<close>

lemma Provider_Lookup_cases:
  obtains (empty) "NormalizeHost U h = []"
      "Provider_Lookup U fetch n1 n2 h (p, w) = ((p, w), zero_LookupResult\<lparr>lr_Reason := ''empty_host''\<rparr>)"
  | (first) app where "NormalizeHost U h \<noteq> []" "fresh n1 (NormalizeHost U h) p = Some app"
      "Provider_Lookup U fetch n1 n2 h (p, w) = ((hit p, w), found_result app)"
  | (second) app where "NormalizeHost U h \<noteq> []" "fresh n1 (NormalizeHost U h) p = None"
      "fresh n2 (NormalizeHost U h) p = Some app"
      "Provider_Lookup U fetch n1 n2 h (p, w) = ((hit (p\<lparr>pv_misses := pv_misses p + 1\<rparr>), w), found_result app)"
  | (fetch) w' outcome p' r where "NormalizeHost U h \<noteq> []" "fresh n1 (NormalizeHost U h) p = None"
      "fresh n2 (NormalizeHost U h) p = None" "fetch (NormalizeHost U h) w = (w', outcome)"
      "after_fetch n2 (NormalizeHost U h) outcome (p\<lparr>pv_misses := pv_misses p + 1\<rparr>) = (p', r)"
      "Provider_Lookup U fetch n1 n2 h (p, w) = ((p', w'), r)"
proof (cases "NormalizeHost U h = []")
  case True
  then show thesis by (intro empty) (simp_all add: Provider_Lookup_def)
next
  case host: False
  have same: "fresh n2 (NormalizeHost U h) (p\<lparr>pv_misses := k\<rparr>) = fresh n2 (NormalizeHost U h) p" for k
    by (simp add: fresh_def)
  show thesis
  proof (cases "fresh n1 (NormalizeHost U h) p")
    case (Some app)
    with host show thesis by (intro first) (simp_all add: Provider_Lookup_def)
  next
    case miss1: None
    show thesis
    proof (cases "fresh n2 (NormalizeHost U h) p")
      case (Some app)
      with host miss1 show thesis by (intro second) (simp_all add: Provider_Lookup_def same)
    next
      case miss2: None
      obtain w' outcome where f: "fetch (NormalizeHost U h) w = (w', outcome)" by fastforce
      obtain p' r where a: "after_fetch n2 (NormalizeHost U h) outcome (p\<lparr>pv_misses := pv_misses p + 1\<rparr>) = (p', r)"
        by fastforce
      show thesis
        by (rule fetch [OF host miss1 miss2 f a]) (use host miss1 miss2 f a in \<open>simp add: Provider_Lookup_def same\<close>)
    qed
  qed
qed

lemma Provider_Lookup_ok:
  assumes "cache_ok p" "fetches_ok fetch" "Provider_Lookup U fetch n1 n2 h (p, w) = (pw', r)"
  shows "cache_ok (fst pw')" "lr_Found r \<Longrightarrow> \<exists>a. lr_App r = Some a \<and> app_ok a" "lr_FailOpen r \<Longrightarrow> \<not> lr_Found r"
proof -
  have "cache_ok (fst pw') \<and> (lr_Found r \<longrightarrow> (\<exists>a. lr_App r = Some a \<and> app_ok a)) \<and> (lr_FailOpen r \<longrightarrow> \<not> lr_Found r)"
  proof (cases rule: Provider_Lookup_cases [of U h fetch n1 n2 p w])
    case empty
    with assms show ?thesis by (auto simp: zero_LookupResult_def)
  next
    case (first app)
    with assms show ?thesis by (auto intro: fresh_ok)
  next
    case (second app)
    with assms show ?thesis by (auto intro: fresh_ok)
  next
    case (fetch w' outcome p' r')
    have "cache_ok (p\<lparr>pv_misses := pv_misses p + 1\<rparr>)" using assms(1) by simp
    moreover have "\<And>app. outcome = Inr app \<Longrightarrow> app_ok app"
      using assms(2) fetch(4) by (auto simp: fetches_ok_def)
    ultimately show ?thesis using after_fetch_ok fetch(5,6) assms(3) by (metis fst_conv prod.inject)
  qed
  then show "cache_ok (fst pw')" "lr_Found r \<Longrightarrow> \<exists>a. lr_App r = Some a \<and> app_ok a"
    "lr_FailOpen r \<Longrightarrow> \<not> lr_Found r" by blast+
qed

lemma after_fetch_not_both: "after_fetch now h outcome p = (p', r) \<Longrightarrow> lr_FailOpen r \<Longrightarrow> \<not> lr_Found r"
  by (auto simp: after_fetch_def Let_def zero_LookupResult_def split: sum.splits option.splits if_splits)

lemma Provider_Lookup_not_both:
  "Provider_Lookup U fetch n1 n2 h pw = (pw', r) \<Longrightarrow> lr_FailOpen r \<Longrightarrow> \<not> lr_Found r"
proof -
  assume r: "Provider_Lookup U fetch n1 n2 h pw = (pw', r)" "lr_FailOpen r"
  obtain p w where pw: "pw = (p, w)" by fastforce
  show ?thesis
  proof (cases rule: Provider_Lookup_cases [of U h fetch n1 n2 p w])
    case (fetch w' outcome p' r')
    then show ?thesis using r pw after_fetch_not_both by (metis prod.inject)
  qed (use r pw in \<open>auto simp: zero_LookupResult_def\<close>)
qed

lemma fetches_ok_FetchPolicy: "fetches_ok (FetchPolicy U do c)"
  by (auto simp: fetches_ok_def FetchPolicy_ok)

interpretation remote: policy_provider
  "Provider_Lookup U (FetchPolicy U do c) n1 n2" "\<lambda>pw. cache_ok (fst pw)" for U do c n1 n2
proof
  fix pw pw' :: "Provider \<times> 'a" and h r
  assume ok: "cache_ok (fst pw)" and l: "Provider_Lookup U (FetchPolicy U do c) n1 n2 h pw = (pw', r)"
  have l': "Provider_Lookup U (FetchPolicy U do c) n1 n2 h (fst pw, snd pw) = (pw', r)" using l by simp
  note facts = Provider_Lookup_ok [OF ok fetches_ok_FetchPolicy l']
  show "cache_ok (fst pw')" by (rule facts(1))
  show "lr_Found r \<Longrightarrow> \<exists>a. lr_App r = Some a \<and> app_ok a" by (rule facts(2))
qed (rule Provider_Lookup_not_both)

section \<open>Mutual exclusion\<close>

definition holds_lock :: "pc \<Rightarrow> string \<Rightarrow> bool" where
  "holds_lock q host \<longleftrightarrow> q = Rechecking host \<or> (\<exists>now. q = Fetching host now)"

definition lock_inv :: "'s lookups \<Rightarrow> bool" where
  "lock_inv s \<longleftrightarrow> (\<forall>t host. holds_lock (lk_pc s t) host \<longleftrightarrow> lk_lock s host = Some t)"

lemma holds_lock_simps [simp]:
  "\<not> holds_lock Idle host" "\<not> holds_lock (WaitingLock h) host" "\<not> holds_lock (Returned r) host"
  "holds_lock (Rechecking h) host \<longleftrightarrow> h = host" "holds_lock (Fetching h now) host \<longleftrightarrow> h = host"
  by (auto simp: holds_lock_def)

lemma lock_inv_step: "lookup_step U fetch s s' \<Longrightarrow> lock_inv s \<Longrightarrow> lock_inv s'"
proof (induction rule: lookup_step.induct)
  case (acquire s t host)
  then show ?case by (auto simp: lock_inv_def) (metis holds_lock_simps(2) option.distinct(1))+
next
  case (second_hit s t host now app)
  then show ?case by (auto simp: lock_inv_def) (metis holds_lock_simps(4) option.inject)+
next
  case (fetched s t host now w' outcome p' r)
  then show ?case by (auto simp: lock_inv_def) (metis holds_lock_simps(5) option.inject)+
qed (auto simp: lock_inv_def; metis holds_lock_simps)+

lemma lock_inv_reachable: "(lookup_step U fetch)\<^sup>*\<^sup>* (lookups_init p w) s \<Longrightarrow> lock_inv s"
proof (induction rule: rtranclp_induct)
  case base
  then show ?case by (simp add: lookups_init_def lock_inv_def)
next
  case (step s s')
  then show ?case by (blast intro: lock_inv_step)
qed

section \<open>Progress\<close>

text \<open>A caller between its first miss and its result, and the steps it has left.\<close>

definition inside :: "pc \<Rightarrow> bool" where
  "inside q \<longleftrightarrow> (case q of Idle \<Rightarrow> False | Returned _ \<Rightarrow> False | _ \<Rightarrow> True)"

definition steps_left :: "pc \<Rightarrow> nat" where
  "steps_left q = (case q of WaitingLock _ \<Rightarrow> 3 | Rechecking _ \<Rightarrow> 2 | Fetching _ _ \<Rightarrow> 1 | _ \<Rightarrow> 0)"

lemma inside_simps [simp]:
  "\<not> inside Idle" "\<not> inside (Returned r)" "inside (WaitingLock h)" "inside (Rechecking h)" "inside (Fetching h n)"
  by (simp_all add: inside_def)

lemma steps_left_simps [simp]:
  "steps_left Idle = 0" "steps_left (Returned r) = 0" "steps_left (WaitingLock h) = 3" "steps_left (Rechecking h) = 2"
  "steps_left (Fetching h n) = 1"
  by (simp_all add: steps_left_def)

lemma steps_left_inside: "\<not> inside q \<Longrightarrow> steps_left q = 0" "steps_left q \<le> 3"
  by (cases q; simp)+

text \<open>A step of a caller that is inside a lookup, and none of the steps that begin a lookup.\<close>

definition progress_step ::
  "unicode \<Rightarrow> (string \<Rightarrow> 's \<Rightarrow> 's \<times> (fetch_error + App)) \<Rightarrow> 's lookups \<Rightarrow> 's lookups \<Rightarrow> bool" where
  "progress_step U fetch s s' \<longleftrightarrow> lookup_step U fetch s s' \<and> (\<exists>t. inside (lk_pc s t) \<and> lk_pc s' t \<noteq> lk_pc s t)"

lemma lookup_step_moves:
  "lookup_step U fetch s s' \<Longrightarrow>
     \<exists>t q. lk_pc s' = (lk_pc s)(t := q) \<and> (inside (lk_pc s t) \<longrightarrow> steps_left q < steps_left (lk_pc s t))"
proof (induction rule: lookup_step.induct)
  case (acquire s t host)
  then show ?case by (intro exI [of _ t] exI [of _ "Rechecking host"]) simp
next
  case (second_hit s t host now app)
  then show ?case by (intro exI [of _ t] exI [of _ "Returned (found_result app)"]) simp
next
  case (second_miss s t host now)
  then show ?case by (intro exI [of _ t] exI [of _ "Fetching host now"]) simp
next
  case (fetched s t host now w' outcome p' r)
  then show ?case by (intro exI [of _ t] exI [of _ "Returned r"]) simp
next
  case (empty_host s t h)
  then show ?case by (intro exI [of _ t] exI [of _ "Returned (zero_LookupResult\<lparr>lr_Reason := ''empty_host''\<rparr>)"]) simp
next
  case (first_hit s t host h now app)
  then show ?case by (intro exI [of _ t] exI [of _ "Returned (found_result app)"]) simp
next
  case (first_miss s t host h now)
  then show ?case by (intro exI [of _ t] exI [of _ "WaitingLock host"]) simp
next
  case (again s t r)
  then show ?case by (intro exI [of _ t] exI [of _ Idle]) simp
qed

lemma progress_decreases:
  assumes "progress_step U fetch s s'"
  obtains t q where "inside (lk_pc s t)" "lk_pc s' = (lk_pc s)(t := q)" "steps_left q < steps_left (lk_pc s t)"
proof -
  obtain u where u: "inside (lk_pc s u)" "lk_pc s' u \<noteq> lk_pc s u" and step: "lookup_step U fetch s s'"
    using assms by (auto simp: progress_step_def)
  from lookup_step_moves [OF step] obtain t q where t: "lk_pc s' = (lk_pc s)(t := q)"
    "inside (lk_pc s t) \<longrightarrow> steps_left q < steps_left (lk_pc s t)" by blast
  moreover have "t = u" using u t(1) by (auto split: if_splits)
  ultimately show thesis using that u(1) by blast
qed

definition callers :: "'s lookups \<Rightarrow> nat set" where
  "callers s = {t. inside (lk_pc s t)}"

definition steps_pending :: "'s lookups \<Rightarrow> nat" where
  "steps_pending s = sum (\<lambda>t. steps_left (lk_pc s t)) (callers s)"

lemma finite_callers:
  "(lookup_step U fetch)\<^sup>*\<^sup>* (lookups_init p w) s \<Longrightarrow> finite (callers s)"
proof (induction rule: rtranclp_induct)
  case base
  then show ?case by (simp add: callers_def lookups_init_def)
next
  case (step s s')
  from lookup_step_moves [OF step.hyps(2)] obtain t q where "lk_pc s' = (lk_pc s)(t := q)" by blast
  then have "callers s' \<subseteq> insert t (callers s)" by (auto simp: callers_def)
  with step.IH show ?case by (meson finite.insertI finite_subset)
qed

lemma steps_pending_decreases:
  assumes "progress_step U fetch s s'" "finite (callers s)"
  shows "steps_pending s' < steps_pending s \<and> finite (callers s')"
proof (rule progress_decreases [OF assms(1)])
  fix t q
  assume t: "inside (lk_pc s t)" "lk_pc s' = (lk_pc s)(t := q)" "steps_left q < steps_left (lk_pc s t)"
  have sub: "callers s' \<subseteq> callers s" using t by (auto simp: callers_def split: if_splits)
  have "steps_pending s' = sum (\<lambda>t. steps_left (lk_pc s' t)) (callers s)"
    unfolding steps_pending_def by (rule sum.mono_neutral_left [OF assms(2) sub]) (simp add: callers_def steps_left_inside)
  also have "\<dots> < steps_pending s"
    unfolding steps_pending_def using t by (intro sum_strict_mono_ex1 [OF assms(2)]) (auto simp: callers_def)
  finally show ?thesis using finite_subset [OF sub assms(2)] by blast
qed

lemma progress_bound: "(progress_step U fetch ^^ k) s s' \<Longrightarrow> finite (callers s) \<Longrightarrow> k + steps_pending s' \<le> steps_pending s"
proof (induction k arbitrary: s)
  case (Suc k)
  then obtain s1 where s1: "progress_step U fetch s s1" "(progress_step U fetch ^^ k) s1 s'"
    by (metis relpowp_Suc_D2)
  with steps_pending_decreases [OF s1(1) Suc.prems(2)] Suc.IH [OF s1(2)] show ?case by simp
qed simp

lemma steps_pending_le: "steps_pending s \<le> 3 * card (callers s)"
  using sum_bounded_above [of "callers s" "\<lambda>t. steps_left (lk_pc s t)" 3] by (simp add: steps_pending_def steps_left_inside)

text \<open>A caller that waits for a lock waits for one that can move.\<close>

lemma progress_possible:
  assumes "lock_inv s" "inside (lk_pc s t)"
  shows "\<exists>s'. progress_step U fetch s s'"
proof -
  have holder: "\<exists>s'. progress_step U fetch s s'" if h: "holds_lock (lk_pc s u) host" for u host
  proof (cases "lk_pc s u")
    case (Rechecking g)
    then show ?thesis
    proof (cases "fresh 0 g (lk_p s)")
      case None
      then show ?thesis using lookup_step.second_miss [OF Rechecking, of 0 U fetch] Rechecking
        by (force simp: progress_step_def)
    next
      case (Some app)
      then show ?thesis using lookup_step.second_hit [OF Rechecking, of 0 app U fetch] Rechecking
        by (force simp: progress_step_def)
    qed
  next
    case (Fetching g now)
    obtain w' outcome p' r where "fetch g (lk_w s) = (w', outcome)" "after_fetch now g outcome (lk_p s) = (p', r)"
      by (metis surj_pair)
    then show ?thesis using lookup_step.fetched [OF Fetching, of fetch w' outcome p' r U] Fetching
      by (force simp: progress_step_def)
  qed (use h in auto)
  show ?thesis
  proof (cases "lk_pc s t")
    case (WaitingLock host)
    show ?thesis
    proof (cases "lk_lock s host")
      case None
      then show ?thesis using lookup_step.acquire [OF WaitingLock, of U fetch] WaitingLock by (force simp: progress_step_def)
    next
      case (Some u)
      then have "holds_lock (lk_pc s u) host" using assms(1) by (simp add: lock_inv_def)
      then show ?thesis by (rule holder)
    qed
  qed (use assms(2) holder [of t] in \<open>auto\<close>)
qed

section \<open>Properties\<close>

text \<open>C30: A lookup serves a cached policy without a fetch exactly while it has not expired; otherwise it
  fetches once.  A fetched policy is served and cached for the configured time; when the fetch fails,
  an expired policy is served with a warning whatever the configured fail behaviour, and without
  one the lookup fails closed with 503 or open as configured.\<close>

theorem provider_behaviour:
  assumes "NormalizeHost U h = host" "host \<noteq> []" "fetch host w = (w', outcome)" "now1 \<le> now2"
    and "Provider_Lookup U fetch now1 now2 h (p, w) = ((p', w''), r)"
  shows "case pv_cache p host of
      Some e \<Rightarrow>
        (if now1 < ent_expiresAt e then r = found_result (ent_app e) \<and> w'' = w \<and> pv_cache p' = pv_cache p
         else (case outcome of
            Inr app \<Rightarrow> r = found_result app \<and> w'' = w' \<and> pv_cache p' = (pv_cache p)(host \<mapsto> \<lparr>ent_app = app, ent_expiresAt = now2 + pv_ttl p\<rparr>)
          | Inl _ \<Rightarrow> lr_Found r \<and> lr_App r = Some (ent_app e) \<and> lr_Stale r \<and> lr_Warning r \<noteq> [] \<and> w'' = w' \<and> pv_cache p' = pv_cache p))
    | None \<Rightarrow>
        (case outcome of
            Inr app \<Rightarrow> r = found_result app \<and> w'' = w' \<and> pv_cache p' = (pv_cache p)(host \<mapsto> \<lparr>ent_app = app, ent_expiresAt = now2 + pv_ttl p\<rparr>)
          | Inl _ \<Rightarrow> \<not> lr_Found r \<and> w'' = w' \<and> pv_cache p' = pv_cache p \<and>
              (if pv_failBehavior p = ''fail_closed'' then lr_StatusCode r = 503 \<and> \<not> lr_FailOpen r else lr_FailOpen r))"
proof (cases rule: Provider_Lookup_cases [of U h fetch now1 now2 p w])
  case empty
  with assms show ?thesis by simp
next
  case (first app)
  with assms show ?thesis by (auto simp: fresh_def hit_def split: option.splits if_splits)
next
  case (second app)
  with assms show ?thesis by (auto simp: fresh_def split: option.splits if_splits)
next
  case (fetch v outcome' p2 r2)
  with assms have "outcome' = outcome" "v = w'" "p2 = p'" "r2 = r" "w'' = w'" by auto
  note eqs = fetch [unfolded this assms(1)]
  show ?thesis
  proof (cases "pv_cache p host")
    case None
    then show ?thesis using eqs(5) \<open>w'' = w'\<close>
      by (cases outcome) (auto simp: after_fetch_def Let_def zero_LookupResult_def split: if_splits)
  next
    case (Some e)
    then have "\<not> now1 < ent_expiresAt e" using eqs(2) by (auto simp: fresh_def split: if_splits)
    with Some show ?thesis using eqs(5) \<open>w'' = w'\<close>
      by (cases outcome) (auto simp: after_fetch_def Let_def)
  qed
qed

definition sample_provider :: "string \<Rightarrow> Provider" where
  "sample_provider behaviour = \<lparr>pv_ttl = 30, pv_failBehavior = behaviour,
     pv_cache = [''example.com'' \<mapsto> \<lparr>ent_app = sample_compiled, ent_expiresAt = 100\<rparr>],
     pv_hits = 0, pv_misses = 0, pv_fetchErrors = 0\<rparr>"

lemma NormalizeHost_example [simp]: "NormalizeHost U ''example.com'' = ''example.com''"
  using NormalizeHost_plain [of "''example.com''" U] by (simp add: plain_host_def go_eval)

theorem provider_behaviour_witness:
  "lr_App (snd (Provider_Lookup ascii_tables (\<lambda>_ w. (w, Inl HTTPFailed)) 200 201 ''example.com''
      (sample_provider ''fail_closed'', ()))) = Some sample_compiled"
proof -
  obtain p' w'' r where l: "Provider_Lookup ascii_tables (\<lambda>_ w. (w, Inl HTTPFailed)) 200 201 ''example.com''
      (sample_provider ''fail_closed'', ()) = ((p', w''), r)" by (metis surj_pair)
  have "lr_App r = Some sample_compiled"
    using provider_behaviour [OF NormalizeHost_example _ refl _ l] by (simp add: sample_provider_def)
  with l show ?thesis by simp
qed

text \<open>C31: Concurrent lookups are single-flight: in every interleaving of callers, at most one of them is
  fetching the policy of a given host.\<close>

theorem single_flight:
  assumes "(lookup_step U fetch)\<^sup>*\<^sup>* (lookups_init p w) s"
    and "lk_pc s t = Fetching host now" "lk_pc s t' = Fetching host now'"
  shows "t = t'"
  using lock_inv_reachable [OF assms(1)] assms(2,3) unfolding lock_inv_def by (metis holds_lock_simps(5) option.inject)

definition sample_lookups :: "unit lookups" where
  "sample_lookups = (lookups_init (sample_provider ''fail_open'') ())\<lparr>
     lk_p := (sample_provider ''fail_open'')\<lparr>pv_misses := 1\<rparr>, lk_lock := [''example.com'' \<mapsto> 0],
     lk_pc := (\<lambda>_. Idle)(0 := Fetching ''example.com'' 200)\<rparr>"

lemma sample_lookups_reachable:
  "(lookup_step ascii_tables fetch)\<^sup>*\<^sup>* (lookups_init (sample_provider ''fail_open'') ()) sample_lookups"
proof -
  let ?s0 = "lookups_init (sample_provider ''fail_open'') ()"
  let ?s1 = "?s0\<lparr>lk_p := (sample_provider ''fail_open'')\<lparr>pv_misses := 1\<rparr>, lk_pc := (\<lambda>_. Idle)(0 := WaitingLock ''example.com'')\<rparr>"
  let ?s2 = "?s1\<lparr>lk_lock := [''example.com'' \<mapsto> 0], lk_pc := (\<lambda>_. Idle)(0 := Rechecking ''example.com'')\<rparr>"
  have "lookup_step ascii_tables fetch ?s0 ?s1"
    using lookup_step.first_miss [of ?s0 0 "''example.com''" ascii_tables "''example.com''" 200 fetch]
    by (simp add: lookups_init_def sample_provider_def fresh_def)
  moreover have "lookup_step ascii_tables fetch ?s1 ?s2"
    using lookup_step.acquire [of ?s1 0 "''example.com''" ascii_tables fetch]
    by (simp add: lookups_init_def)
  moreover have "lookup_step ascii_tables fetch ?s2 sample_lookups"
    using lookup_step.second_miss [of ?s2 0 "''example.com''" 200 ascii_tables fetch]
    by (simp add: lookups_init_def sample_provider_def fresh_def sample_lookups_def)
  ultimately show ?thesis by (meson converse_rtranclp_into_rtranclp rtranclp.rtrancl_refl)
qed

theorem single_flight_witness:
  "{t. \<exists>now. lk_pc sample_lookups t = Fetching ''example.com'' now} = {0}"
proof -
  have "lk_pc sample_lookups 0 = Fetching ''example.com'' 200" by (simp add: sample_lookups_def)
  with single_flight [OF sample_lookups_reachable [of "\<lambda>_ w. (w, Inl HTTPFailed)"] this] this show ?thesis by blast
qed

text \<open>C32: No lookup waits forever.  In every state that concurrent callers reach, the callers that are inside a lookup
  need at most three steps each, in whatever order they run; and as long as one of them is inside, one of them can
  move, so that a run only rests when each has its result and every lock has been released.  A fetch that takes its time
  is one step; the timeout of the HTTP client ends it.\<close>

theorem lookups_complete:
  assumes "(lookup_step U fetch)\<^sup>*\<^sup>* (lookups_init p w) s" and "(progress_step U fetch ^^ k) s s'"
  shows "k \<le> 3 * card {t. inside (lk_pc s t)} \<and>
    ((\<forall>s''. \<not> progress_step U fetch s' s'') = ((\<forall>t. \<not> inside (lk_pc s' t)) \<and> (\<forall>host. lk_lock s' host = None)))"
proof -
  have "(progress_step U fetch)\<^sup>*\<^sup>* s s'" using assms(2) by (rule relpowp_imp_rtranclp)
  then have "(lookup_step U fetch)\<^sup>*\<^sup>* s s'"
    by (rule rtranclp_mono [THEN predicate2D, rotated]) (auto simp: progress_step_def)
  with assms(1) have li: "lock_inv s'" by (meson lock_inv_reachable rtranclp_trans)
  have "k \<le> 3 * card {t. inside (lk_pc s t)}"
    using progress_bound [OF assms(2) finite_callers [OF assms(1)]] steps_pending_le [of s] by (simp add: callers_def)
  moreover have "lk_lock s' host = None" if "\<forall>t. \<not> inside (lk_pc s' t)" for host
  proof (cases "lk_lock s' host")
    case (Some u)
    then have "holds_lock (lk_pc s' u) host" using li by (simp add: lock_inv_def)
    with that [rule_format, of u] show ?thesis by (auto simp: holds_lock_def)
  qed
  moreover have "(\<forall>s''. \<not> progress_step U fetch s' s'') = (\<forall>t. \<not> inside (lk_pc s' t))"
    using progress_possible [OF li] unfolding progress_step_def by blast
  ultimately show ?thesis by blast
qed

theorem lookups_complete_witness:
  "\<exists>s'. progress_step ascii_tables (\<lambda>_ w. (w, Inl HTTPFailed)) sample_lookups s' \<and>
     (\<forall>s''. \<not> progress_step ascii_tables (\<lambda>_ w. (w, Inl HTTPFailed)) s' s'') \<and> lk_lock s' ''example.com'' = None"
proof -
  let ?f = "\<lambda>_ w. (w, Inl HTTPFailed)"
  have inside: "inside (lk_pc sample_lookups t) \<longleftrightarrow> t = 0" for t by (simp add: sample_lookups_def)
  note reach = sample_lookups_reachable [of ?f]
  from lookups_complete [OF reach, of 0 sample_lookups] obtain s' where s': "progress_step ascii_tables ?f sample_lookups s'"
    using inside by auto
  from s' have one: "(progress_step ascii_tables ?f ^^ 1) sample_lookups s'" by (simp add: relcompp_apply)
  obtain t q where t: "inside (lk_pc sample_lookups t)" "lk_pc s' = (lk_pc sample_lookups)(t := q)"
    "steps_left q < steps_left (lk_pc sample_lookups t)" by (rule progress_decreases [OF s'])
  then have "steps_left q = 0" by (simp add: inside) (simp add: sample_lookups_def)
  then have "\<not> inside q" by (cases q) simp_all
  then have "\<forall>u. \<not> inside (lk_pc s' u)" using t inside by auto
  then have rest: "\<forall>s''. \<not> progress_step ascii_tables ?f s' s''" by (simp add: progress_step_def)
  with lookups_complete [OF reach one] s' show ?thesis by blast
qed

lemma lookup_acquires:
  assumes "lk_pc s t = Idle" "lk_lock s host = None" "host = NormalizeHost U h" "host \<noteq> []" "fresh n1 host (lk_p s) = None"
  shows "(lookup_step U fetch)\<^sup>*\<^sup>* s (s\<lparr>lk_p := (lk_p s)\<lparr>pv_misses := pv_misses (lk_p s) + 1\<rparr>,
    lk_lock := (lk_lock s)(host \<mapsto> t), lk_pc := (lk_pc s)(t := Rechecking host)\<rparr>)"
proof -
  let ?s1 = "s\<lparr>lk_p := (lk_p s)\<lparr>pv_misses := pv_misses (lk_p s) + 1\<rparr>, lk_pc := (lk_pc s)(t := WaitingLock host)\<rparr>"
  have "lookup_step U fetch s ?s1" by (rule lookup_step.first_miss [OF assms(1,3-5)])
  moreover have "lookup_step U fetch ?s1 (s\<lparr>lk_p := (lk_p s)\<lparr>pv_misses := pv_misses (lk_p s) + 1\<rparr>,
      lk_lock := (lk_lock s)(host \<mapsto> t), lk_pc := (lk_pc s)(t := Rechecking host)\<rparr>)"
    using lookup_step.acquire [of ?s1 t host U fetch] assms(2) by simp
  ultimately show ?thesis by (meson converse_rtranclp_into_rtranclp rtranclp.rtrancl_refl)
qed

text \<open>The sequential method is one of these interleavings: a caller that runs alone, with the
  host's lock free, takes steps to the result and the state that \<open>Provider.Lookup\<close> computes.\<close>

theorem lookup_refines_steps:
  assumes "lk_pc s t = Idle" "lk_lock s (NormalizeHost U h) = None"
    and "Provider_Lookup U fetch n1 n2 h (lk_p s, lk_w s) = ((p', w'), r)"
  shows "(lookup_step U fetch)\<^sup>*\<^sup>* s (s\<lparr>lk_p := p', lk_w := w', lk_pc := (lk_pc s)(t := Returned r)\<rparr>)"
proof (cases rule: Provider_Lookup_cases [of U h fetch n1 n2 "lk_p s" "lk_w s"])
  case empty
  with assms(3) have "s\<lparr>lk_p := p', lk_w := w', lk_pc := (lk_pc s)(t := Returned r)\<rparr>
      = s\<lparr>lk_pc := (lk_pc s)(t := Returned (zero_LookupResult\<lparr>lr_Reason := ''empty_host''\<rparr>))\<rparr>" by simp
  with lookup_step.empty_host [where fetch = fetch, OF assms(1) empty(1)] show ?thesis
    by (metis r_into_rtranclp)
next
  case (first app)
  with assms(3) have "s\<lparr>lk_p := p', lk_w := w', lk_pc := (lk_pc s)(t := Returned r)\<rparr>
      = s\<lparr>lk_p := hit (lk_p s), lk_pc := (lk_pc s)(t := Returned (found_result app))\<rparr>" by simp
  with lookup_step.first_hit [where fetch = fetch, OF assms(1) refl first(1,2)] show ?thesis
    by (metis r_into_rtranclp)
next
  case (second app)
  note acquired = lookup_acquires [OF assms(1,2) refl second(1,2), of fetch]
  let ?s2 = "s\<lparr>lk_p := (lk_p s)\<lparr>pv_misses := pv_misses (lk_p s) + 1\<rparr>,
    lk_lock := (lk_lock s)(NormalizeHost U h \<mapsto> t), lk_pc := (lk_pc s)(t := Rechecking (NormalizeHost U h))\<rparr>"
  have "lookup_step U fetch ?s2 (s\<lparr>lk_p := p', lk_w := w', lk_pc := (lk_pc s)(t := Returned r)\<rparr>)"
    using lookup_step.second_hit [of ?s2 t "NormalizeHost U h" n2 app U fetch] second assms(2,3)
    by (simp add: fresh_def fun_upd_idem)
  with acquired show ?thesis by (rule rtranclp.rtrancl_into_rtrancl)
next
  case (fetch v outcome p2 r2)
  note acquired = lookup_acquires [OF assms(1,2) refl fetch(1,2), of fetch]
  let ?s2 = "s\<lparr>lk_p := (lk_p s)\<lparr>pv_misses := pv_misses (lk_p s) + 1\<rparr>,
    lk_lock := (lk_lock s)(NormalizeHost U h \<mapsto> t), lk_pc := (lk_pc s)(t := Rechecking (NormalizeHost U h))\<rparr>"
  let ?s3 = "?s2\<lparr>lk_pc := (lk_pc s)(t := Fetching (NormalizeHost U h) n2)\<rparr>"
  have "lookup_step U fetch ?s2 ?s3"
    using lookup_step.second_miss [of ?s2 t "NormalizeHost U h" n2 U fetch] fetch(3) by (simp add: fresh_def)
  moreover have "lookup_step U fetch ?s3 (s\<lparr>lk_p := p', lk_w := w', lk_pc := (lk_pc s)(t := Returned r)\<rparr>)"
    using lookup_step.fetched [of ?s3 t "NormalizeHost U h" n2 fetch v outcome p2 r2 U] fetch assms(2,3)
    by (simp add: fun_upd_idem)
  ultimately show ?thesis using acquired by (meson rtranclp.rtrancl_into_rtrancl)
qed

theorem lookup_refines_steps_witness:
  "(lookup_step ascii_tables (\<lambda>_ w. (w, Inl HTTPFailed)))\<^sup>*\<^sup>* (lookups_init (sample_provider ''fail_open'') ())
     ((lookups_init (sample_provider ''fail_open'') ())\<lparr>lk_p := hit (sample_provider ''fail_open''),
        lk_pc := (\<lambda>_. Idle)(3 := Returned (found_result sample_compiled))\<rparr>)"
proof -
  have "Provider_Lookup ascii_tables (\<lambda>_ w. (w, Inl HTTPFailed)) 50 51 ''example.com'' (sample_provider ''fail_open'', ())
      = ((hit (sample_provider ''fail_open''), ()), found_result sample_compiled)"
    by (simp add: Provider_Lookup_def fresh_def sample_provider_def)
  then show ?thesis
    using lookup_refines_steps [of "lookups_init (sample_provider ''fail_open'') ()" 3 ascii_tables "''example.com''"]
    by (simp add: lookups_init_def)
qed

end
