(* ===== verification/Policy_Json.thy ===== *)
theory Policy_Json
  imports Go_Json Policy_Client
begin

text \<open>
  How the gateway reads the JSON of a remote policy (the struct tags of
  \<open>services/gateway/internal/config/config.go\<close> and \<open>policyclient/client.go\<close>): conditions, custom rules, rate
  limits, IP sets and the policy itself.
\<close>

section \<open>Conditions\<close>

definition header_match_fields :: "HeaderMatch json_fields" where
  "header_match_fields = [(''name'', \<lambda>j r. map_option (\<lambda>x. r\<lparr>hm_Name := x\<rparr>) (json_string j (hm_Name r))),
     (''value'', \<lambda>j r. map_option (\<lambda>x. r\<lparr>hm_Value := x\<rparr>) (json_string j (hm_Value r)))]"

definition query_match_fields :: "QueryParamMatch json_fields" where
  "query_match_fields = [(''name'', \<lambda>j r. map_option (\<lambda>x. r\<lparr>qm_Name := x\<rparr>) (json_string j (qm_Name r))),
     (''value'', \<lambda>j r. map_option (\<lambda>x. r\<lparr>qm_Value := x\<rparr>) (json_string j (qm_Value r)))]"

definition decode_header_match :: "unicode \<Rightarrow> json \<Rightarrow> HeaderMatch option \<Rightarrow> HeaderMatch option option" where
  "decode_header_match U = json_ptr (json_struct U False header_match_fields) \<lparr>hm_Name = [], hm_Value = []\<rparr>"

definition decode_query_match :: "unicode \<Rightarrow> json \<Rightarrow> QueryParamMatch option \<Rightarrow> QueryParamMatch option option" where
  "decode_query_match U = json_ptr (json_struct U False query_match_fields) \<lparr>qm_Name = [], qm_Value = []\<rparr>"

text \<open>The field of a condition that a key names; \<open>children\<close> decodes the value into a list of conditions.\<close>

definition condition_keys :: "string list" where
  "condition_keys = [''all'', ''any'', ''method_equals'', ''path_equals'', ''path_starts_with'', ''host_equals'',
     ''header_contains'', ''header_equals'', ''query_parameter_contains'', ''client_ip_in_ip_set'', ''client_ip_not_in_ip_set'']"

fun condition_field :: "unicode \<Rightarrow> string \<Rightarrow> json \<Rightarrow> (ConditionConfig list \<Rightarrow> ConditionConfig list option) \<Rightarrow> ConditionConfig \<Rightarrow> ConditionConfig option" where
  "condition_field U n v children (ConditionConfig al an me pe ps he hct heq qp ini nini) =
     (if n = ''all'' then map_option (\<lambda>x. ConditionConfig x an me pe ps he hct heq qp ini nini) (children al)
      else if n = ''any'' then map_option (\<lambda>x. ConditionConfig al x me pe ps he hct heq qp ini nini) (children an)
      else if n = ''method_equals'' then map_option (\<lambda>x. ConditionConfig al an x pe ps he hct heq qp ini nini) (json_string v me)
      else if n = ''path_equals'' then map_option (\<lambda>x. ConditionConfig al an me x ps he hct heq qp ini nini) (json_string v pe)
      else if n = ''path_starts_with'' then map_option (\<lambda>x. ConditionConfig al an me pe x he hct heq qp ini nini) (json_string v ps)
      else if n = ''host_equals'' then map_option (\<lambda>x. ConditionConfig al an me pe ps x hct heq qp ini nini) (json_string v he)
      else if n = ''header_contains'' then map_option (\<lambda>x. ConditionConfig al an me pe ps he x heq qp ini nini) (decode_header_match U v hct)
      else if n = ''header_equals'' then map_option (\<lambda>x. ConditionConfig al an me pe ps he hct x qp ini nini) (decode_header_match U v heq)
      else if n = ''query_parameter_contains'' then map_option (\<lambda>x. ConditionConfig al an me pe ps he hct heq x ini nini) (decode_query_match U v qp)
      else if n = ''client_ip_in_ip_set'' then map_option (\<lambda>x. ConditionConfig al an me pe ps he hct heq qp x nini) (json_string v ini)
      else map_option (\<lambda>x. ConditionConfig al an me pe ps he hct heq qp ini x) (json_string v nini))"

lemma condition_field_cong [fundef_cong]:
  assumes "U = U'" "n = n'" "v = v'" "\<And>xs. children xs = children' xs" "c = c'"
  shows "condition_field U n v children c = condition_field U' n' v' children' c'"
proof -
  have "children = children'" using assms(4) by (rule ext)
  with assms show ?thesis by simp
qed

function decode_condition :: "unicode \<Rightarrow> json \<Rightarrow> ConditionConfig \<Rightarrow> ConditionConfig option" where
  "decode_condition U j old =
     (case j of
        JNull \<Rightarrow> Some old
      | JObj es \<Rightarrow>
          fold_opt (\<lambda>e c. case find (\<lambda>n. json_name U (fst e) = field_key n) condition_keys of
              None \<Rightarrow> Some c
            | Some n \<Rightarrow> condition_field U n (snd e) 
                (\<lambda>xs. json_slice (\<lambda>x y. decode_condition U x y) zero_ConditionConfig (snd e) xs) c) es old
      | _ \<Rightarrow> None)"
  by pat_completeness auto
termination
proof (relation "measure (\<lambda>(_, j, _). size j)")
  fix U j old es e c n xs js x y
  assume a: "j = JObj es" "e \<in> set es" "snd e = JArr js" "x \<in> set js"
  have "size x < size (snd e)" using a(3,4) json_arr_smaller by simp
  moreover have "size (snd e) < size j" using a(1,2) json_obj_smaller [of "fst e" "snd e" es] by simp
  ultimately show "((U, x, y), U, j, old) \<in> measure (\<lambda>(_, j, _). size j)" by simp
qed simp

declare decode_condition.simps [simp del]


section \<open>Rules and IP sets\<close>

definition zero_customRule :: customRule where
  "zero_customRule = \<lparr>rcr_ID = [], rcr_Name = [], rcr_Priority = 0, rcr_Enabled = False, rcr_Action = [], rcr_StatusCode = 0,
     rcr_TerminalAllow = False, rcr_When = zero_ConditionConfig\<rparr>"

definition custom_rule_fields :: "unicode \<Rightarrow> customRule json_fields" where
  "custom_rule_fields U =
     [(''id'', \<lambda>j r. map_option (\<lambda>x. r\<lparr>rcr_ID := x\<rparr>) (json_string j (rcr_ID r))),
      (''name'', \<lambda>j r. map_option (\<lambda>x. r\<lparr>rcr_Name := x\<rparr>) (json_string j (rcr_Name r))),
      (''priority'', \<lambda>j r. map_option (\<lambda>x. r\<lparr>rcr_Priority := x\<rparr>) (json_int j (rcr_Priority r))),
      (''enabled'', \<lambda>j r. map_option (\<lambda>x. r\<lparr>rcr_Enabled := x\<rparr>) (json_bool j (rcr_Enabled r))),
      (''action'', \<lambda>j r. map_option (\<lambda>x. r\<lparr>rcr_Action := x\<rparr>) (json_string j (rcr_Action r))),
      (''status_code'', \<lambda>j r. map_option (\<lambda>x. r\<lparr>rcr_StatusCode := x\<rparr>) (json_int j (rcr_StatusCode r))),
      (''terminal_allow'', \<lambda>j r. map_option (\<lambda>x. r\<lparr>rcr_TerminalAllow := x\<rparr>) (json_bool j (rcr_TerminalAllow r))),
      (''when'', \<lambda>j r. map_option (\<lambda>x. r\<lparr>rcr_When := x\<rparr>) (decode_condition U j (rcr_When r)))]"

definition decode_customRule :: "unicode \<Rightarrow> json \<Rightarrow> customRule \<Rightarrow> customRule option" where
  "decode_customRule U = json_struct U False (custom_rule_fields U)"

definition zero_rateLimit :: rateLimit where
  "zero_rateLimit = \<lparr>rrl_ID = [], rrl_Name = [], rrl_Enabled = False, rrl_Priority = 0, rrl_Match = zero_ConditionConfig,
     rrl_KeyType = [], rrl_KeyHeader = [], rrl_Limit = 0, rrl_WindowSeconds = 0, rrl_Action = [], rrl_StatusCode = 0\<rparr>"

definition rate_limit_fields :: "unicode \<Rightarrow> rateLimit json_fields" where
  "rate_limit_fields U =
     [(''id'', \<lambda>j r. map_option (\<lambda>x. r\<lparr>rrl_ID := x\<rparr>) (json_string j (rrl_ID r))),
      (''name'', \<lambda>j r. map_option (\<lambda>x. r\<lparr>rrl_Name := x\<rparr>) (json_string j (rrl_Name r))),
      (''enabled'', \<lambda>j r. map_option (\<lambda>x. r\<lparr>rrl_Enabled := x\<rparr>) (json_bool j (rrl_Enabled r))),
      (''priority'', \<lambda>j r. map_option (\<lambda>x. r\<lparr>rrl_Priority := x\<rparr>) (json_int j (rrl_Priority r))),
      (''match'', \<lambda>j r. map_option (\<lambda>x. r\<lparr>rrl_Match := x\<rparr>) (decode_condition U j (rrl_Match r))),
      (''key_type'', \<lambda>j r. map_option (\<lambda>x. r\<lparr>rrl_KeyType := x\<rparr>) (json_string j (rrl_KeyType r))),
      (''key_header'', \<lambda>j r. map_option (\<lambda>x. r\<lparr>rrl_KeyHeader := x\<rparr>) (json_string j (rrl_KeyHeader r))),
      (''limit'', \<lambda>j r. map_option (\<lambda>x. r\<lparr>rrl_Limit := x\<rparr>) (json_int j (rrl_Limit r))),
      (''window_seconds'', \<lambda>j r. map_option (\<lambda>x. r\<lparr>rrl_WindowSeconds := x\<rparr>) (json_int j (rrl_WindowSeconds r))),
      (''action'', \<lambda>j r. map_option (\<lambda>x. r\<lparr>rrl_Action := x\<rparr>) (json_string j (rrl_Action r))),
      (''status_code'', \<lambda>j r. map_option (\<lambda>x. r\<lparr>rrl_StatusCode := x\<rparr>) (json_int j (rrl_StatusCode r)))]"

definition decode_rateLimit :: "unicode \<Rightarrow> json \<Rightarrow> rateLimit \<Rightarrow> rateLimit option" where
  "decode_rateLimit U = json_struct U False (rate_limit_fields U)"

text \<open>The value of a map key is decoded afresh, also when the key occurs twice.\<close>

definition decode_ip_sets :: "json \<Rightarrow> (string, string list) gomap \<Rightarrow> (string, string list) gomap option" where
  "decode_ip_sets = json_map (\<lambda>j. json_slice json_string [] j [])"

section \<open>The policy\<close>

text \<open>What \<open>json.Unmarshal\<close> makes of a raw field.\<close>

definition raw_message :: "(json \<Rightarrow> 'a option) \<Rightarrow> json option \<Rightarrow> 'a raw_json" where
  "raw_message f raw =
     (case raw of
        None \<Rightarrow> RawAbsent
      | Some j \<Rightarrow> if j = JNull then RawNull else (case f j of None \<Rightarrow> RawInvalid | Some v \<Rightarrow> RawValue v))"

record remote_document =
  rd_TenantID :: string
  rd_AppID :: string
  rd_PolicyID :: string
  rd_PolicyVersionID :: string
  rd_Mode :: string
  rd_Origin :: remoteOrigin
  rd_IPSets :: "json option"
  rd_CustomRules :: "json option"
  rd_RateLimits :: "json option"

definition origin_fields :: "remoteOrigin json_fields" where
  "origin_fields =
     [(''url'', \<lambda>j r. map_option (\<lambda>x. r\<lparr>ro_URL := x\<rparr>) (json_string j (ro_URL r))),
      (''scheme'', \<lambda>j r. map_option (\<lambda>x. r\<lparr>ro_Scheme := x\<rparr>) (json_string j (ro_Scheme r))),
      (''host'', \<lambda>j r. map_option (\<lambda>x. r\<lparr>ro_Host := x\<rparr>) (json_string j (ro_Host r))),
      (''port'', \<lambda>j r. map_option (\<lambda>x. r\<lparr>ro_Port := x\<rparr>) (json_int j (ro_Port r)))]"

definition document_fields :: "unicode \<Rightarrow> remote_document json_fields" where
  "document_fields U =
     [(''tenant_id'', \<lambda>j r. map_option (\<lambda>x. r\<lparr>rd_TenantID := x\<rparr>) (json_string j (rd_TenantID r))),
      (''app_id'', \<lambda>j r. map_option (\<lambda>x. r\<lparr>rd_AppID := x\<rparr>) (json_string j (rd_AppID r))),
      (''policy_id'', \<lambda>j r. map_option (\<lambda>x. r\<lparr>rd_PolicyID := x\<rparr>) (json_string j (rd_PolicyID r))),
      (''policy_version_id'', \<lambda>j r. map_option (\<lambda>x. r\<lparr>rd_PolicyVersionID := x\<rparr>) (json_string j (rd_PolicyVersionID r))),
      (''mode'', \<lambda>j r. map_option (\<lambda>x. r\<lparr>rd_Mode := x\<rparr>) (json_string j (rd_Mode r))),
      (''origin'', \<lambda>j r. map_option (\<lambda>x. r\<lparr>rd_Origin := x\<rparr>) (json_struct U False origin_fields j (rd_Origin r))),
      (''ip_sets'', \<lambda>j r. Some (r\<lparr>rd_IPSets := Some j\<rparr>)),
      (''custom_rules'', \<lambda>j r. Some (r\<lparr>rd_CustomRules := Some j\<rparr>)),
      (''rate_limits'', \<lambda>j r. Some (r\<lparr>rd_RateLimits := Some j\<rparr>)),
      (''waf'', \<lambda>j r. Some r),
      (''published_at'', \<lambda>j r. map_option (\<lambda>_. r) (json_string j []))]"

definition remote_policy_of :: "unicode \<Rightarrow> remote_document \<Rightarrow> gatewayPolicy" where
  "remote_policy_of U d = \<lparr>gp_TenantID = rd_TenantID d, gp_AppID = rd_AppID d, gp_PolicyID = rd_PolicyID d,
     gp_PolicyVersionID = rd_PolicyVersionID d, gp_Mode = rd_Mode d, gp_Origin = rd_Origin d,
     gp_IPSets = raw_message (\<lambda>j. decode_ip_sets j []) (rd_IPSets d),
     gp_CustomRules = raw_message (\<lambda>j. json_slice (decode_customRule U) zero_customRule j []) (rd_CustomRules d),
     gp_RateLimits = raw_message (\<lambda>j. json_slice (decode_rateLimit U) zero_rateLimit j []) (rd_RateLimits d)\<rparr>"

definition decode_gatewayPolicy :: "unicode \<Rightarrow> json \<Rightarrow> gatewayPolicy option" where
  "decode_gatewayPolicy U j = map_option (remote_policy_of U)
     (json_struct U False (document_fields U) j \<lparr>rd_TenantID = [], rd_AppID = [], rd_PolicyID = [], rd_PolicyVersionID = [],
        rd_Mode = [], rd_Origin = \<lparr>ro_URL = [], ro_Scheme = [], ro_Host = [], ro_Port = 0\<rparr>, rd_IPSets = None,
        rd_CustomRules = None, rd_RateLimits = None\<rparr>)"

end
