(* ===== verification/Control_Validation.thy ===== *)
theory Control_Validation
  imports Policy_Json
begin

text \<open>
  What the control plane checks before it stores anything (\<open>services/control-api/internal/httpapi/validation.go\<close> and
  the validation part of \<open>server.go\<close>): slugs, hostnames, origin URLs, modes, actions and policy
  snapshots.  A JSON message is its value (\<open>Go_Json\<close>), so \<open>validateJSON\<close> cannot fail here.  The conditions of a
  snapshot have the same JSON shape as the gateway's and share its type.  The lemmas compare these
  checks with what the gateway accepts.
\<close>

datatype validation_error =
    SlugInvalid
  | HostnamesRequired
  | HostnameEmpty
  | HostnameNotBare string
  | HostnamePortSyntax string
  | HostnameIsIP string
  | HostnameTooLong string
  | HostnameLabel string
  | HostnameHyphen string
  | HostnameCharacters string
  | HostnameDuplicated string
  | OriginSyntax
  | OriginScheme
  | OriginHost
  | OriginQueryOrFragment
  | OriginPort
  | ModeInvalid
  | ActionInvalid
  | CIDRInvalid string
  | SnapshotType
  | CustomRuleID
  | CustomRuleName
  | CustomRuleAction
  | RateLimitID
  | RateLimitName
  | RateLimitAction
  | RateLimitValues
  | RateLimitKeyType
  | RateLimitKeyHeader
  | ConditionOperators nat
  | ConditionHeaderContains
  | ConditionHeaderEquals
  | ConditionQueryContains
  | ConditionIPSet string

section \<open>Names and origins\<close>

definition slug_start :: "char \<Rightarrow> bool" where
  "slug_start c \<longleftrightarrow> (97 \<le> byte c \<and> byte c \<le> 122) \<or> ascii_digit (byte c)"

definition validateSlug :: "string \<Rightarrow> validation_error option" where
  "validateSlug v =
     (case v of
        [] \<Rightarrow> Some SlugInvalid
      | c # rest \<Rightarrow>
          if slug_start c \<and> length rest \<le> 62 \<and> list_all (\<lambda>d. slug_start d \<or> d = CHR ''-'') rest
          then None else Some SlugInvalid)"

definition dns_char :: "char \<Rightarrow> bool" where
  "dns_char c \<longleftrightarrow> slug_start c \<or> c = CHR ''-''"

definition check_label :: "string \<Rightarrow> string \<Rightarrow> validation_error option" where
  "check_label host l =
     (if l = [] \<or> 63 < length l then Some (HostnameLabel host)
      else if strings_HasPrefix l ''-'' \<or> strings_HasSuffix l ''-'' then Some (HostnameHyphen host)
      else if \<not> list_all dns_char l then Some (HostnameCharacters host)
      else None)"

definition validateDNSName :: "string \<Rightarrow> validation_error option" where
  "validateDNSName host =
     (if 253 < length host then Some (HostnameTooLong host)
      else find_error (check_label host) (split_on CHR ''.'' host))"

text \<open>The host that an entry of the list stands for.\<close>

definition hostname_host :: "unicode \<Rightarrow> string \<Rightarrow> validation_error + string" where
  "hostname_host U v =
     (let host = strings_TrimSpace (strings_ToLower U v) in
      if host = [] then Inl HostnameEmpty
      else if strings_Contains host ''://'' \<or> strings_ContainsAny host ''/?#'' then Inl (HostnameNotBare v)
      else if strings_Contains host '':'' then
        (case net_SplitHostPort host of None \<Rightarrow> Inl (HostnamePortSyntax v) | Some (h, _) \<Rightarrow> Inr h)
      else Inr host)"

fun validate_hosts :: "unicode \<Rightarrow> string list \<Rightarrow> string list \<Rightarrow> validation_error option" where
  "validate_hosts U seen [] = None"
| "validate_hosts U seen (v # vs) =
     (case hostname_host U v of
        Inl e \<Rightarrow> Some e
      | Inr host \<Rightarrow>
          if netip_ParseAddr host \<noteq> None then Some (HostnameIsIP v)
          else (case validateDNSName host of
              Some e \<Rightarrow> Some e
            | None \<Rightarrow> if host \<in> set seen then Some (HostnameDuplicated v) else validate_hosts U (host # seen) vs))"

definition validateHostnames :: "unicode \<Rightarrow> string list \<Rightarrow> validation_error option" where
  "validateHostnames U vs = (if vs = [] then Some HostnamesRequired else validate_hosts U [] vs)"

text \<open>\<open>net.LookupPort\<close> of a decimal port accepts the values up to 65535.\<close>

definition parseOriginURL :: "string \<Rightarrow> validation_error + URL" where
  "parseOriginURL raw =
     (case url_Parse (strings_TrimSpace raw) of
        None \<Rightarrow> Inl OriginSyntax
      | Some parsed \<Rightarrow>
          if url_Scheme parsed \<noteq> ''http'' \<and> url_Scheme parsed \<noteq> ''https'' then Inl OriginScheme
          else if url_Hostname parsed = [] then Inl OriginHost
          else if url_RawQuery parsed \<noteq> [] \<or> url_Fragment parsed \<noteq> [] then Inl OriginQueryOrFragment
          else if url_Port parsed \<noteq> [] \<and> 65535 < read_nat (url_Port parsed) then Inl OriginPort
          else Inr parsed)"

definition validateMode :: "string \<Rightarrow> validation_error option" where
  "validateMode mode = (if mode = ''count'' \<or> mode = ''block'' then None else Some ModeInvalid)"

definition validateAction :: "string \<Rightarrow> validation_error option" where
  "validateAction action =
     (if action \<in> {''allow'', ''count'', ''block'', ''rate_limit''} then None else Some ActionInvalid)"

definition validateCIDR :: "string \<Rightarrow> validation_error option" where
  "validateCIDR v = (if netip_ParsePrefix v = None then Some (CIDRInvalid v) else None)"

section \<open>Policy snapshots\<close>

record policyCustomRuleSnapshot =
  pcr_ID :: string
  pcr_Name :: string
  pcr_Action :: string
  pcr_When :: ConditionConfig

record policyRateLimitRuleSnapshot =
  prl_ID :: string
  prl_Name :: string
  prl_Match :: ConditionConfig
  prl_KeyType :: string
  prl_KeyHeader :: string
  prl_Limit :: int
  prl_WindowSeconds :: int
  prl_Action :: string

record policySnapshot =
  ps_Mode :: string
  ps_Rules :: "(string, string) gomap list"
  ps_IPBlocks :: "string list"
  ps_IPSets :: "(string, string list) gomap"
  ps_CustomRules :: "policyCustomRuleSnapshot list"
  ps_RateLimits :: "policyRateLimitRuleSnapshot list"

definition snapshot_custom_fields :: "unicode \<Rightarrow> policyCustomRuleSnapshot json_fields" where
  "snapshot_custom_fields U =
     [(''id'', \<lambda>j r. map_option (\<lambda>x. r\<lparr>pcr_ID := x\<rparr>) (json_string j (pcr_ID r))),
      (''name'', \<lambda>j r. map_option (\<lambda>x. r\<lparr>pcr_Name := x\<rparr>) (json_string j (pcr_Name r))),
      (''action'', \<lambda>j r. map_option (\<lambda>x. r\<lparr>pcr_Action := x\<rparr>) (json_string j (pcr_Action r))),
      (''when'', \<lambda>j r. map_option (\<lambda>x. r\<lparr>pcr_When := x\<rparr>) (decode_condition U j (pcr_When r)))]"

definition decode_snapshot_custom :: "unicode \<Rightarrow> json \<Rightarrow> policyCustomRuleSnapshot \<Rightarrow> policyCustomRuleSnapshot option" where
  "decode_snapshot_custom U = json_struct U False (snapshot_custom_fields U)"

definition zero_snapshot_custom :: policyCustomRuleSnapshot where
  "zero_snapshot_custom = \<lparr>pcr_ID = [], pcr_Name = [], pcr_Action = [], pcr_When = zero_ConditionConfig\<rparr>"

definition snapshot_rate_fields :: "unicode \<Rightarrow> policyRateLimitRuleSnapshot json_fields" where
  "snapshot_rate_fields U =
     [(''id'', \<lambda>j r. map_option (\<lambda>x. r\<lparr>prl_ID := x\<rparr>) (json_string j (prl_ID r))),
      (''name'', \<lambda>j r. map_option (\<lambda>x. r\<lparr>prl_Name := x\<rparr>) (json_string j (prl_Name r))),
      (''match'', \<lambda>j r. map_option (\<lambda>x. r\<lparr>prl_Match := x\<rparr>) (decode_condition U j (prl_Match r))),
      (''key_type'', \<lambda>j r. map_option (\<lambda>x. r\<lparr>prl_KeyType := x\<rparr>) (json_string j (prl_KeyType r))),
      (''key_header'', \<lambda>j r. map_option (\<lambda>x. r\<lparr>prl_KeyHeader := x\<rparr>) (json_string j (prl_KeyHeader r))),
      (''limit'', \<lambda>j r. map_option (\<lambda>x. r\<lparr>prl_Limit := x\<rparr>) (json_int j (prl_Limit r))),
      (''window_seconds'', \<lambda>j r. map_option (\<lambda>x. r\<lparr>prl_WindowSeconds := x\<rparr>) (json_int j (prl_WindowSeconds r))),
      (''action'', \<lambda>j r. map_option (\<lambda>x. r\<lparr>prl_Action := x\<rparr>) (json_string j (prl_Action r)))]"

definition decode_snapshot_rate :: "unicode \<Rightarrow> json \<Rightarrow> policyRateLimitRuleSnapshot \<Rightarrow> policyRateLimitRuleSnapshot option" where
  "decode_snapshot_rate U = json_struct U False (snapshot_rate_fields U)"

definition zero_snapshot_rate :: policyRateLimitRuleSnapshot where
  "zero_snapshot_rate = \<lparr>prl_ID = [], prl_Name = [], prl_Match = zero_ConditionConfig, prl_KeyType = [], prl_KeyHeader = [], prl_Limit = 0,
      prl_WindowSeconds = 0, prl_Action = []\<rparr>"

definition snapshot_fields :: "unicode \<Rightarrow> policySnapshot json_fields" where
  "snapshot_fields U =
     [(''mode'', \<lambda>j r. map_option (\<lambda>x. r\<lparr>ps_Mode := x\<rparr>) (json_string j (ps_Mode r))),
      (''rules'', \<lambda>j r. map_option (\<lambda>x. r\<lparr>ps_Rules := x\<rparr>) (json_slice (json_map (\<lambda>x. json_string x [])) [] j (ps_Rules r))),
      (''ip_blocklist'', \<lambda>j r. map_option (\<lambda>x. r\<lparr>ps_IPBlocks := x\<rparr>) (json_slice json_string [] j (ps_IPBlocks r))),
      (''ip_sets'', \<lambda>j r. map_option (\<lambda>x. r\<lparr>ps_IPSets := x\<rparr>) (decode_ip_sets j (ps_IPSets r))),
      (''custom_rules'', \<lambda>j r. map_option (\<lambda>x. r\<lparr>ps_CustomRules := x\<rparr>) (json_slice (decode_snapshot_custom U) zero_snapshot_custom j (ps_CustomRules r))),
      (''rate_limits'', \<lambda>j r. map_option (\<lambda>x. r\<lparr>ps_RateLimits := x\<rparr>) (json_slice (decode_snapshot_rate U) zero_snapshot_rate j (ps_RateLimits r)))]"

definition decode_snapshot :: "unicode \<Rightarrow> json \<Rightarrow> policySnapshot option" where
  "decode_snapshot U j = json_struct U False (snapshot_fields U) j
     \<lparr>ps_Mode = [], ps_Rules = [], ps_IPBlocks = [], ps_IPSets = [], ps_CustomRules = [], ps_RateLimits = []\<rparr>"

definition hasPolicyCondition :: "ConditionConfig \<Rightarrow> bool" where
  "hasPolicyCondition v \<longleftrightarrow>
     0 < length (cc_All v) \<or> 0 < length (cc_Any v) \<or> cc_MethodEquals v \<noteq> [] \<or> cc_PathEquals v \<noteq> [] \<or>
     cc_PathStartsWith v \<noteq> [] \<or> cc_HostEquals v \<noteq> [] \<or> cc_HeaderContains v \<noteq> None \<or>
     cc_HeaderEquals v \<noteq> None \<or> cc_QueryParamContains v \<noteq> None \<or> cc_ClientIPInIPSet v \<noteq> [] \<or>
     cc_ClientIPNotInIPSet v \<noteq> []"

text \<open>The number of operators that are present, counted by the closure \<open>check\<close>.\<close>

definition policy_operators :: "ConditionConfig \<Rightarrow> nat" where
  "policy_operators v = length (filter id
     [0 < length (cc_All v), 0 < length (cc_Any v), cc_MethodEquals v \<noteq> [], cc_PathEquals v \<noteq> [],
      cc_PathStartsWith v \<noteq> [], cc_HostEquals v \<noteq> [], cc_HeaderContains v \<noteq> None,
      cc_HeaderEquals v \<noteq> None, cc_QueryParamContains v \<noteq> None, cc_ClientIPInIPSet v \<noteq> [],
      cc_ClientIPNotInIPSet v \<noteq> []])"

definition policy_operands :: "(string, string list) gomap \<Rightarrow> ConditionConfig \<Rightarrow> validation_error option" where
  "policy_operands ipSets v =
     (if (case cc_HeaderContains v of None \<Rightarrow> False | Some m \<Rightarrow> strings_TrimSpace (hm_Name m) = [] \<or> hm_Value m = [])
      then Some ConditionHeaderContains
      else if (case cc_HeaderEquals v of None \<Rightarrow> False | Some m \<Rightarrow> strings_TrimSpace (hm_Name m) = [] \<or> hm_Value m = [])
      then Some ConditionHeaderEquals
      else if (case cc_QueryParamContains v of None \<Rightarrow> False | Some m \<Rightarrow> strings_TrimSpace (qm_Name m) = [] \<or> qm_Value m = [])
      then Some ConditionQueryContains
      else if cc_ClientIPInIPSet v \<noteq> [] \<and> map_of ipSets (cc_ClientIPInIPSet v) = None
      then Some (ConditionIPSet (cc_ClientIPInIPSet v))
      else if cc_ClientIPNotInIPSet v \<noteq> [] \<and> map_of ipSets (cc_ClientIPNotInIPSet v) = None
      then Some (ConditionIPSet (cc_ClientIPNotInIPSet v))
      else None)"

fun validatePolicyCondition :: "(string, string list) gomap \<Rightarrow> ConditionConfig \<Rightarrow> validation_error option" where
  "validatePolicyCondition ipSets (ConditionConfig al an me pe ps he hct heq qp ini nini) =
     (let v = ConditionConfig al an me pe ps he hct heq qp ini nini in
      if policy_operators v \<noteq> 1 then Some (ConditionOperators (policy_operators v))
      else (case find_error (validatePolicyCondition ipSets) al of
          Some e \<Rightarrow> Some e
        | None \<Rightarrow>
            (case find_error (validatePolicyCondition ipSets) an of
               Some e \<Rightarrow> Some e
             | None \<Rightarrow> policy_operands ipSets v)))"

declare validatePolicyCondition.simps [simp del]

definition check_custom_rule :: "(string, string list) gomap \<Rightarrow> policyCustomRuleSnapshot \<Rightarrow> validation_error option" where
  "check_custom_rule ipSets r =
     (if strings_TrimSpace (pcr_ID r) = [] then Some CustomRuleID
      else if strings_TrimSpace (pcr_Name r) = [] then Some CustomRuleName
      else if pcr_Action r \<notin> {''allow'', ''count'', ''block''} then Some CustomRuleAction
      else validatePolicyCondition ipSets (pcr_When r))"

definition check_rate_limit :: "(string, string list) gomap \<Rightarrow> policyRateLimitRuleSnapshot \<Rightarrow> validation_error option" where
  "check_rate_limit ipSets r =
     (if strings_TrimSpace (prl_ID r) = [] then Some RateLimitID
      else if strings_TrimSpace (prl_Name r) = [] then Some RateLimitName
      else if prl_Action r \<notin> {''count'', ''block''} then Some RateLimitAction
      else if prl_Limit r \<le> 0 \<or> prl_WindowSeconds r \<le> 0 then Some RateLimitValues
      else if prl_KeyType r \<notin> {''ip'', ''host'', ''path'', ''header'', ''api_key_placeholder''} then Some RateLimitKeyType
      else if prl_KeyType r = ''header'' \<and> strings_TrimSpace (prl_KeyHeader r) = [] then Some RateLimitKeyHeader
      else if hasPolicyCondition (prl_Match r) then validatePolicyCondition ipSets (prl_Match r)
      else None)"

definition check_rule_action :: "(string, string) gomap \<Rightarrow> validation_error option" where
  "check_rule_action rule =
     (case map_of rule ''action'' of
        None \<Rightarrow> None
      | Some action \<Rightarrow> if action = [] then None else validateAction action)"

definition check_snapshot :: "policySnapshot \<Rightarrow> validation_error option" where
  "check_snapshot d = first_error
     [if ps_Mode d \<noteq> [] then validateMode (ps_Mode d) else None,
      find_error validateCIDR (ps_IPBlocks d),
      find_error (\<lambda>e. find_error validateCIDR (snd e)) (ps_IPSets d),
      find_error check_rule_action (ps_Rules d),
      find_error (check_custom_rule (ps_IPSets d)) (ps_CustomRules d),
      find_error (check_rate_limit (ps_IPSets d)) (ps_RateLimits d)]"

definition validatePolicySnapshot :: "unicode \<Rightarrow> json option \<Rightarrow> validation_error option" where
  "validatePolicySnapshot U snapshot =
     (case snapshot of
        None \<Rightarrow> None
      | Some j \<Rightarrow> (case decode_snapshot U j of None \<Rightarrow> Some SnapshotType | Some d \<Rightarrow> check_snapshot d))"

end
