(* ===== verification/Control_Validation_Facts.thy ===== *)
theory Control_Validation_Facts
  imports Control_Validation
begin

text \<open>
  The checks of the control plane against what the gateway accepts: conditions are judged alike by both planes, the
  two ways of reading a rule agree on the fields both read, and a list of rules that passes the control plane
  compiles on the gateway once the identifiers are distinct and the status codes in range.
\<close>

section \<open>Conditions on both planes\<close>

lemma policy_operators_flags: "policy_operators v = length (filter id (operator_flags v))"
  by (simp add: policy_operators_def operator_flags_def)

lemma hasPolicyCondition_eq: "hasPolicyCondition v = hasCondition v"
  by (simp add: hasPolicyCondition_def hasCondition_def)

text \<open>The control plane asks that header and parameter names are not blank, the gateway only that they are not
  empty.  A condition without blank names is where the two checks can agree.\<close>

definition names_of :: "ConditionConfig \<Rightarrow> string set" where
  "names_of v = hm_Name ` set_option (cc_HeaderContains v) \<union> hm_Name ` set_option (cc_HeaderEquals v) \<union>
     qm_Name ` set_option (cc_QueryParamContains v)"

fun no_blank_names :: "ConditionConfig \<Rightarrow> bool" where
  "no_blank_names (ConditionConfig al an me pe ps he hct heq qp ini nini) \<longleftrightarrow>
     (\<forall>n \<in> names_of (ConditionConfig al an me pe ps he hct heq qp ini nini). n \<noteq> [] \<longrightarrow> strings_TrimSpace n \<noteq> []) \<and>
     list_all no_blank_names al \<and> list_all no_blank_names an"

lemma policy_operands_None:
  "policy_operands ipSets v = None \<longleftrightarrow>
     (\<forall>m \<in> set_option (cc_HeaderContains v). strings_TrimSpace (hm_Name m) \<noteq> [] \<and> hm_Value m \<noteq> []) \<and>
     (\<forall>m \<in> set_option (cc_HeaderEquals v). strings_TrimSpace (hm_Name m) \<noteq> [] \<and> hm_Value m \<noteq> []) \<and>
     (\<forall>m \<in> set_option (cc_QueryParamContains v). strings_TrimSpace (qm_Name m) \<noteq> [] \<and> qm_Value m \<noteq> []) \<and>
     (cc_ClientIPInIPSet v \<noteq> [] \<longrightarrow> cc_ClientIPInIPSet v \<in> fst ` set ipSets) \<and>
     (cc_ClientIPNotInIPSet v \<noteq> [] \<longrightarrow> cc_ClientIPNotInIPSet v \<in> fst ` set ipSets)"
  unfolding policy_operands_def map_of_eq_None_iff by (auto split: option.splits)

lemma case_error_None: "(case x of None \<Rightarrow> y | Some e \<Rightarrow> Some e) = None \<longleftrightarrow> x = None \<and> y = None"
  by (cases x) simp_all

lemma policy_condition_unfold:
  "validatePolicyCondition ipSets v = None \<longleftrightarrow>
     policy_operators v = 1 \<and> (\<forall>x \<in> set (cc_All v). validatePolicyCondition ipSets x = None) \<and>
     (\<forall>x \<in> set (cc_Any v). validatePolicyCondition ipSets x = None) \<and> policy_operands ipSets v = None"
  by (cases v) (simp add: validatePolicyCondition.simps Let_def case_error_None)

lemma condition_accepted_unfold:
  "condition_accepted sets v \<longleftrightarrow> validateCondition sets v = None \<and>
     (\<forall>x \<in> set (cc_All v). condition_accepted sets x) \<and> (\<forall>x \<in> set (cc_Any v). condition_accepted sets x)"
  by (cases v) (simp add: list_all_iff)

lemma no_blank_names_unfold:
  "no_blank_names v \<longleftrightarrow> (\<forall>n \<in> names_of v. n \<noteq> [] \<longrightarrow> strings_TrimSpace n \<noteq> []) \<and>
     (\<forall>x \<in> set (cc_All v). no_blank_names x) \<and> (\<forall>x \<in> set (cc_Any v). no_blank_names x)"
  by (cases v) (simp add: list_all_iff)

lemma policy_condition_accepted:
  assumes "validatePolicyCondition ipSets v = None" "fst ` set ipSets \<subseteq> fst ` set sets"
  shows "condition_accepted sets v"
  using assms
proof (induction v)
  case (ConditionConfig al an me pe ps he hct heq qp ini nini)
  let ?v = "ConditionConfig al an me pe ps he hct heq qp ini nini"
  note parts = policy_condition_unfold [THEN iffD1, OF ConditionConfig.prems(1)]
  have "validateCondition sets ?v = None"
    using parts ConditionConfig.prems(2)
    unfolding validateCondition_None policy_operands_None policy_operators_flags by auto
  moreover have "\<forall>x \<in> set al. condition_accepted sets x" "\<forall>x \<in> set an. condition_accepted sets x"
    using parts ConditionConfig.IH ConditionConfig.prems(2) by auto
  ultimately show ?case by (simp add: list_all_iff)
qed

lemma operands_from_gateway:
  assumes "validateCondition sets v = None" "\<forall>n \<in> names_of v. n \<noteq> [] \<longrightarrow> strings_TrimSpace n \<noteq> []"
    and sub: "fst ` set sets \<subseteq> fst ` set ipSets"
  shows "policy_operands ipSets v = None"
proof -
  have l: "\<forall>m \<in> set_option (cc_HeaderContains v). hm_Name m \<noteq> [] \<and> hm_Value m \<noteq> []"
    "\<forall>m \<in> set_option (cc_HeaderEquals v). hm_Name m \<noteq> [] \<and> hm_Value m \<noteq> []"
    "\<forall>m \<in> set_option (cc_QueryParamContains v). qm_Name m \<noteq> [] \<and> qm_Value m \<noteq> []"
    "cc_ClientIPInIPSet v \<noteq> [] \<longrightarrow> cc_ClientIPInIPSet v \<in> fst ` set sets"
    "cc_ClientIPNotInIPSet v \<noteq> [] \<longrightarrow> cc_ClientIPNotInIPSet v \<in> fst ` set sets"
    using assms(1) unfolding validateCondition_None by blast+
  have "hm_Name m \<in> names_of v" if "m \<in> set_option (cc_HeaderContains v)" for m using that by (auto simp: names_of_def)
  moreover have "hm_Name m \<in> names_of v" if "m \<in> set_option (cc_HeaderEquals v)" for m using that by (auto simp: names_of_def)
  moreover have "qm_Name m \<in> names_of v" if "m \<in> set_option (cc_QueryParamContains v)" for m using that by (auto simp: names_of_def)
  ultimately show ?thesis
    unfolding policy_operands_None using l(1-3) l(4,5) [THEN mp, THEN subsetD [OF sub]] assms(2) by blast
qed

lemma condition_accepted_policy:
  assumes "condition_accepted sets v" "no_blank_names v" "fst ` set sets \<subseteq> fst ` set ipSets"
  shows "validatePolicyCondition ipSets v = None"
  using assms
proof (induction v)
  case (ConditionConfig al an me pe ps he hct heq qp ini nini)
  let ?v = "ConditionConfig al an me pe ps he hct heq qp ini nini"
  note parts = condition_accepted_unfold [THEN iffD1, OF ConditionConfig.prems(1)]
  note names = no_blank_names_unfold [THEN iffD1, OF ConditionConfig.prems(2)]
  have leaf: "validateCondition sets ?v = None" using parts by blast
  have "policy_operators ?v = 1"
    unfolding policy_operators_flags by (rule leaf [unfolded validateCondition_None, THEN conjunct1])
  moreover have "policy_operands ipSets ?v = None"
    by (rule operands_from_gateway [OF leaf names [THEN conjunct1] ConditionConfig.prems(3)])
  moreover have "\<forall>x \<in> set al. validatePolicyCondition ipSets x = None" "\<forall>x \<in> set an. validatePolicyCondition ipSets x = None"
    using parts names ConditionConfig.IH(1) [OF _ _ _ ConditionConfig.prems(3)] ConditionConfig.IH(2) [OF _ _ _ ConditionConfig.prems(3)]
    unfolding ConditionConfig.sel by blast+
  ultimately show ?case unfolding policy_condition_unfold [of ipSets ?v] ConditionConfig.sel by blast
qed

text \<open>C17: The two planes agree on conditions: when no header or parameter name is blank and the planes know the same IP
  sets, the control plane accepts a condition exactly when the gateway can compile it.\<close>

theorem conditions_agree:
  assumes "no_blank_names v" "fst ` set ipSets = fst ` set sets"
  shows "validatePolicyCondition ipSets v = None \<longleftrightarrow> (\<exists>c. parseCondition sets v = Inr c)"
  using policy_condition_accepted [of ipSets v sets] condition_accepted_policy [of sets v ipSets] assms
  unfolding parseCondition_accepts by auto

theorem conditions_agree_witness:
  "validatePolicyCondition [(''office'', [])] sample_when = None \<and> (\<exists>c. parseCondition [(''office'', [])] sample_when = Inr c)"
proof -
  have "no_blank_names sample_when" by (simp add: sample_when_def names_of_def)
  moreover have "\<exists>c. parseCondition [(''office'', [])] sample_when = Inr c" using sample_condition by blast
  ultimately show ?thesis using conditions_agree [of sample_when "[(''office'', [])]" "[(''office'', [])]"] by auto
qed

section \<open>Rules on both planes\<close>

lemmas key_eval = field_key_def fold_ascii_def

lemma custom_rule_planes:
  assumes "decode_snapshot_custom U j zero_snapshot_custom = Some c" "decode_customRule U j zero_customRule = Some g"
  shows "pcr_ID c = rcr_ID g \<and> pcr_Name c = rcr_Name g \<and> pcr_Action c = rcr_Action g \<and> pcr_When c = rcr_When g"
    (is "?R c g")
proof (cases j)
  case JNull
  then show ?thesis using assms by (auto simp: decode_snapshot_custom_def decode_customRule_def json_struct_def zero_customRule_def zero_snapshot_custom_def)
next
  case (JObj es)
  show ?thesis
  proof (rule fold_opt_rel [where R = "\<lambda>c g. ?R c g"])
    show "fold_opt (json_field U False (snapshot_custom_fields U)) es zero_snapshot_custom = Some c"
      using assms(1) JObj by (simp add: decode_snapshot_custom_def json_struct_def)
    show "fold_opt (json_field U False (custom_rule_fields U)) es zero_customRule = Some g"
      using assms(2) JObj by (simp add: decode_customRule_def json_struct_def)
    fix e c g c' g'
    assume "?R c g" "json_field U False (snapshot_custom_fields U) e c = Some c'" "json_field U False (custom_rule_fields U) e g = Some g'"
    then show "?R c' g'"
      by (auto simp: json_field_def snapshot_custom_fields_def custom_rule_fields_def key_eval split: if_splits)
  qed (simp add: zero_customRule_def zero_snapshot_custom_def)
qed (use assms in \<open>auto simp: decode_snapshot_custom_def json_struct_def\<close>)

lemma rate_limit_planes:
  assumes "decode_snapshot_rate U j zero_snapshot_rate = Some c" "decode_rateLimit U j zero_rateLimit = Some g"
  shows "prl_ID c = rrl_ID g \<and> prl_Name c = rrl_Name g \<and> prl_Match c = rrl_Match g \<and> prl_KeyType c = rrl_KeyType g \<and>
    prl_KeyHeader c = rrl_KeyHeader g \<and> prl_Limit c = rrl_Limit g \<and> prl_WindowSeconds c = rrl_WindowSeconds g \<and> prl_Action c = rrl_Action g"
    (is "?R c g")
proof (cases j)
  case JNull
  then show ?thesis using assms by (auto simp: decode_snapshot_rate_def decode_rateLimit_def json_struct_def zero_rateLimit_def zero_snapshot_rate_def)
next
  case (JObj es)
  show ?thesis
  proof (rule fold_opt_rel [where R = "\<lambda>c g. ?R c g"])
    show "fold_opt (json_field U False (snapshot_rate_fields U)) es zero_snapshot_rate = Some c"
      using assms(1) JObj by (simp add: decode_snapshot_rate_def json_struct_def)
    show "fold_opt (json_field U False (rate_limit_fields U)) es zero_rateLimit = Some g"
      using assms(2) JObj by (simp add: decode_rateLimit_def json_struct_def)
    fix e c g c' g'
    assume "?R c g" "json_field U False (snapshot_rate_fields U) e c = Some c'" "json_field U False (rate_limit_fields U) e g = Some g'"
    then show "?R c' g'"
      by (auto simp: json_field_def snapshot_rate_fields_def rate_limit_fields_def key_eval split: if_splits)
  qed (simp add: zero_rateLimit_def zero_snapshot_rate_def)
qed (use assms in \<open>auto simp: decode_snapshot_rate_def json_struct_def\<close>)

section \<open>What the control plane accepts, the gateway compiles\<close>

lemma split_on_hd: "hd (split_on d s) = takeWhile (\<lambda>c. c \<noteq> d) s"
  by (induction s) (auto split: list.splits)

lemma ParseAddr_first:
  assumes "netip_ParseAddr s = Some a"
  shows "s \<noteq> [] \<and> (is_hex_char (hd s) \<or> hd s = CHR '':'')"
proof -
  have sep: "find (\<lambda>c. c \<in> set ''.:%'') s \<noteq> None" using assms unfolding netip_ParseAddr_def by (metis option.simps(3,4))
  then have ne: "s \<noteq> []" by auto
  show ?thesis
  proof (cases "find (\<lambda>c. c \<in> set ''.:%'') s = Some CHR ''.''")
    case True
    then have "parse_ipv4_fields s \<noteq> None" using assms by (auto simp: netip_ParseAddr_def)
    then obtain f r where "split_on CHR ''.'' s = f # r" "parse_octet f \<noteq> None"
      using split_on_nonempty [of "CHR ''.''" s]
      by (cases "split_on CHR ''.'' s") (auto simp: parse_ipv4_fields_def split: list.splits option.splits)
    then have "takeWhile (\<lambda>c. c \<noteq> CHR ''.'') s \<noteq> []" "list_all is_digit_char (takeWhile (\<lambda>c. c \<noteq> CHR ''.'') s)"
      using split_on_hd [of "CHR ''.''" s] by (auto simp: parse_octet_def split: if_splits)
    then have "is_digit_char (hd s)" using ne by (cases s) (auto split: if_splits)
    then show ?thesis using ne by (simp add: is_digit_char_def is_hex_char_def)
  next
    case False
    with assms have "parse_ipv6 s = Some a" by (auto simp: netip_ParseAddr_def split: option.splits if_splits)
    then obtain w where w: "parse_ipv6_body (takeWhile (\<lambda>c. c \<noteq> CHR ''%'') s) = Some w"
      by (auto simp: parse_ipv6_def strings_Cut_def split: if_splits)
    define b where "b = takeWhile (\<lambda>c. c \<noteq> CHR ''%'') s"
    have "b \<noteq> [] \<and> (is_hex_char (hd b) \<or> hd b = CHR '':'')"
    proof (cases "strings_HasPrefix b ''::''")
      case True
      then show ?thesis by (cases b) (auto simp: strings_HasPrefix_def)
    next
      case False
      then have "b \<noteq> ''::''" by (auto simp: strings_HasPrefix_def)
      then have "parse_ipv6_groups 8 [] None b \<noteq> None"
        using w False unfolding b_def [symmetric] by (auto simp: parse_ipv6_body_def bind_eq_Some_conv)
      then have "takeWhile is_hex_char b \<noteq> []"
        by (auto simp: numeral_eq_Suc Let_def split: if_splits)
      then show ?thesis by (cases b) (auto split: if_splits)
    qed
    then show ?thesis using ne by (cases s) (auto simp: b_def split: if_splits)
  qed
qed

lemma cut_last_Some:
  assumes "cut_last d s = Some (a, b)"
  shows "s = a @ d # b"
proof -
  have d: "d \<in> set (rev s)" using assms by (auto simp: cut_last_def split: if_splits)
  then obtain r where r: "dropWhile (\<lambda>c. c \<noteq> d) (rev s) = d # r"
    by (metis (mono_tags, lifting) dropWhile_eq_Nil_conv hd_dropWhile list.collapse)
  have "rev s = takeWhile (\<lambda>c. c \<noteq> d) (rev s) @ d # r" using takeWhile_dropWhile_id [of "\<lambda>c. c \<noteq> d" "rev s"] r by simp
  then have "s = rev r @ d # rev (takeWhile (\<lambda>c. c \<noteq> d) (rev s))" by (metis rev_append rev_rev_ident rev.simps(2) append_assoc append_Cons append_Nil)
  then show ?thesis using assms r by (auto simp: cut_last_def split: if_splits)
qed

lemma ParsePrefix_trimmed:
  assumes "netip_ParsePrefix v = Some p"
  shows "strings_TrimSpace v = v"
proof (rule TrimSpace_graphic, rule disjI2)
  obtain ips bits ip n where v: "v = ips @ CHR ''/'' # bits" and ip: "netip_ParseAddr ips = Some ip"
    and n: "strconv_Atoi bits = Some n" "\<not> (1 < length bits \<and> (byte (hd bits) < 49 \<or> 57 < byte (hd bits)))"
    using assms by (auto simp: netip_ParsePrefix_def split: option.splits if_splits prod.splits dest!: cut_last_Some)
  have "ips \<noteq> []" "is_hex_char (hd ips) \<or> hd ips = CHR '':''" using ParseAddr_first [OF ip] by auto
  then have "graphic (hd v)" unfolding v by (auto simp: graphic_def is_hex_char_def ascii_digit_def)
  moreover have "bits \<noteq> [] \<and> is_digit_char (last bits)"
    using n by (cases bits) (auto simp: strconv_ParseInt_def Let_def list_all_iff split: if_splits list.splits)
  then have "graphic (last v)" unfolding v by (auto simp: graphic_def is_digit_char_def ascii_digit_def)
  ultimately show "graphic (hd v) \<and> graphic (last v)" by blast
qed


lemma parsePrefixes_accepts:
  assumes "\<forall>c \<in> set cs. validateCIDR c = None"
  shows "\<exists>ps. parsePrefixes cs = Inr ps"
  unfolding parsePrefixes_def
proof (rule traverse_total)
  fix c assume "c \<in> set cs"
  then obtain p where p: "netip_ParsePrefix c = Some p" using assms by (auto simp: validateCIDR_def split: if_splits)
  then show "\<exists>y. parse_prefix c = Inr y" using ParsePrefix_trimmed [OF p] by (simp add: parse_prefix_def)
qed

lemma ip_sets_accept:
  assumes "\<forall>e \<in> set vs. strings_TrimSpace (fst e) \<noteq> [] \<and> (\<forall>c \<in> set (snd e). validateCIDR c = None)"
  obtains sets where "parseIPSets vs = Inr sets" "map fst sets = map fst vs"
proof -
  have "\<exists>sets. parseIPSets vs = Inr sets"
    unfolding parseIPSets_def
  proof (rule traverse_total)
    fix e assume e: "e \<in> set vs"
    then obtain ps where "parsePrefixes (snd e) = Inr ps" using assms parsePrefixes_accepts [of "snd e"] by blast
    then show "\<exists>y. parse_ip_set e = Inr y" using assms e by (cases e) (auto simp: parse_ip_set_def)
  qed
  then show thesis using that parseIPSets_ok(2) by blast
qed

text \<open>What the gateway asks of rules beyond the checks of the control plane: distinct identifiers, and status codes up
  to 999.\<close>

definition custom_extras_ok :: "customRule list \<Rightarrow> bool" where
  "custom_extras_ok gs \<longleftrightarrow> distinct (map rcr_ID gs) \<and> list_all (\<lambda>g. 0 \<le> rcr_StatusCode g \<and> rcr_StatusCode g \<le> 999) gs"

definition rate_extras_ok :: "rateLimit list \<Rightarrow> bool" where
  "rate_extras_ok gs \<longleftrightarrow> distinct (map rrl_ID gs) \<and> list_all (\<lambda>g. 0 \<le> rrl_StatusCode g \<and> rrl_StatusCode g \<le> 999) gs"

lemma not_blank: "strings_TrimSpace n \<noteq> [] \<Longrightarrow> n \<noteq> []"
  by auto

lemma custom_rule_accept:
  assumes "check_custom_rule ipSets c = None" "pcr_ID c = rcr_ID g \<and> pcr_Name c = rcr_Name g \<and> pcr_Action c = rcr_Action g \<and> pcr_When c = rcr_When g"
    and "fst ` set ipSets \<subseteq> fst ` set sets" "0 \<le> rcr_StatusCode g" "rcr_StatusCode g \<le> 999"
  shows "\<exists>r. parse_custom_rule sets [] (custom_rule_config g) = Inr r"
proof -
  have c: "strings_TrimSpace (pcr_ID c) \<noteq> []" "pcr_Name c \<noteq> []" "pcr_Action c \<in> {''allow'', ''count'', ''block''}"
    "validatePolicyCondition ipSets (pcr_When c) = None"
    using assms(1) not_blank by (auto simp: check_custom_rule_def split: if_splits)
  obtain k where "parseCondition sets (rcr_When g) = Inr k"
    using policy_condition_accepted [OF c(4) assms(3)] assms(2) parseCondition_accepts by metis
  then show ?thesis using c assms(2,4,5) by (auto simp: parse_custom_rule_def custom_rule_config_def action_defs)
qed

lemma rate_limit_accept:
  assumes "check_rate_limit ipSets c = None"
    and "prl_ID c = rrl_ID g \<and> prl_Name c = rrl_Name g \<and> prl_Match c = rrl_Match g \<and> prl_KeyType c = rrl_KeyType g \<and>
      prl_KeyHeader c = rrl_KeyHeader g \<and> prl_Limit c = rrl_Limit g \<and> prl_WindowSeconds c = rrl_WindowSeconds g \<and> prl_Action c = rrl_Action g"
    and "fst ` set ipSets \<subseteq> fst ` set sets" "0 \<le> rrl_StatusCode g" "rrl_StatusCode g \<le> 999"
  shows "\<exists>r. parse_rate_limit sets [] (rate_limit_config g) = Inr r"
proof -
  have c: "strings_TrimSpace (prl_ID c) \<noteq> []" "prl_Name c \<noteq> []" "prl_Action c \<in> {''count'', ''block''}"
    "0 < prl_Limit c" "0 < prl_WindowSeconds c" "prl_KeyType c \<in> set known_key_types" "prl_KeyType c = ''header'' \<Longrightarrow> prl_KeyHeader c \<noteq> []"
    "hasCondition (prl_Match c) \<Longrightarrow> validatePolicyCondition ipSets (prl_Match c) = None"
    using assms(1) not_blank by (auto simp: check_rate_limit_def known_key_types_def hasPolicyCondition_eq split: if_splits)
  have "\<exists>m. parse_match sets (rrl_Match g) = Inr m"
    using policy_condition_accepted [OF c(8) assms(3)] assms(2) parseCondition_accepts [of sets "rrl_Match g"]
    by (auto simp: parse_match_def)
  then show ?thesis using c(1-7) assms(2,4,5) by (auto simp: parse_rate_limit_def rate_limit_config_def action_defs)
qed

lemma list_all2_choice: "(\<And>x. x \<in> set xs \<Longrightarrow> \<exists>y. P x y) \<Longrightarrow> \<exists>ys. list_all2 P xs ys"
proof (induction xs)
  case (Cons x xs)
  then obtain y ys where "P x y" "list_all2 P xs ys" by (meson list.set_intros)
  then show ?case by (meson list_all2_Cons)
next
  case Nil
  show ?case by (rule exI [of _ "[]"]) simp
qed

lemma list_all2_source: "list_all2 R xs ys \<Longrightarrow> y \<in> set ys \<Longrightarrow> \<exists>x \<in> set xs. R x y"
  by (induction rule: list_all2_induct) auto

lemma custom_rules_accept:
  assumes rel: "list_all2 (\<lambda>c g. pcr_ID c = rcr_ID g \<and> pcr_Name c = rcr_Name g \<and> pcr_Action c = rcr_Action g \<and> pcr_When c = rcr_When g) cs gs"
    and chk: "\<forall>c \<in> set cs. check_custom_rule ipSets c = None" and sub: "fst ` set ipSets \<subseteq> fst ` set sets" and ok: "custom_extras_ok gs"
  shows "\<exists>rs. parseCustomRules (map custom_rule_config gs) sets = Inr rs"
proof -
  have "\<exists>r. parse_custom_rule sets [] v = Inr r" if v: "v \<in> set (map custom_rule_config gs)" for v
  proof -
    obtain g where g: "g \<in> set gs" "v = custom_rule_config g" using v by auto
    obtain c where c: "c \<in> set cs" "pcr_ID c = rcr_ID g \<and> pcr_Name c = rcr_Name g \<and> pcr_Action c = rcr_Action g \<and> pcr_When c = rcr_When g"
      using list_all2_source [OF rel g(1)] by blast
    have "0 \<le> rcr_StatusCode g" "rcr_StatusCode g \<le> 999" using ok g(1) by (auto simp: custom_extras_ok_def list_all_iff)
    then show ?thesis unfolding g(2) by (rule custom_rule_accept [OF chk [rule_format, OF c(1)] c(2) sub])
  qed
  then obtain raw where "list_all2 (\<lambda>v r. parse_custom_rule sets [] v = Inr r) (map custom_rule_config gs) raw"
    using list_all2_choice [of "map custom_rule_config gs" "\<lambda>v r. parse_custom_rule sets [] v = Inr r"] by auto
  moreover have "distinct (map crc_ID (map custom_rule_config gs))"
    using ok by (simp add: custom_extras_ok_def custom_rule_config_def comp_def)
  ultimately show ?thesis unfolding parseCustomRules_Inr custom.loop_Inr_iff by auto
qed

lemma rate_limits_accept:
  assumes rel: "list_all2 (\<lambda>c g. prl_ID c = rrl_ID g \<and> prl_Name c = rrl_Name g \<and> prl_Match c = rrl_Match g \<and> prl_KeyType c = rrl_KeyType g \<and>
      prl_KeyHeader c = rrl_KeyHeader g \<and> prl_Limit c = rrl_Limit g \<and> prl_WindowSeconds c = rrl_WindowSeconds g \<and> prl_Action c = rrl_Action g) cs gs"
    and chk: "\<forall>c \<in> set cs. check_rate_limit ipSets c = None" and sub: "fst ` set ipSets \<subseteq> fst ` set sets" and ok: "rate_extras_ok gs"
  shows "\<exists>rs. parseRateLimitRules (map rate_limit_config gs) sets = Inr rs"
proof -
  have "\<exists>r. parse_rate_limit sets [] v = Inr r" if v: "v \<in> set (map rate_limit_config gs)" for v
  proof -
    obtain g where g: "g \<in> set gs" "v = rate_limit_config g" using v by auto
    obtain c where c: "c \<in> set cs" "prl_ID c = rrl_ID g \<and> prl_Name c = rrl_Name g \<and> prl_Match c = rrl_Match g \<and> prl_KeyType c = rrl_KeyType g \<and>
      prl_KeyHeader c = rrl_KeyHeader g \<and> prl_Limit c = rrl_Limit g \<and> prl_WindowSeconds c = rrl_WindowSeconds g \<and> prl_Action c = rrl_Action g"
      using list_all2_source [OF rel g(1)] by blast
    have "0 \<le> rrl_StatusCode g" "rrl_StatusCode g \<le> 999" using ok g(1) by (auto simp: rate_extras_ok_def list_all_iff)
    then show ?thesis unfolding g(2) by (rule rate_limit_accept [OF chk [rule_format, OF c(1)] c(2) sub])
  qed
  then obtain raw where "list_all2 (\<lambda>v r. parse_rate_limit sets [] v = Inr r) (map rate_limit_config gs) raw"
    using list_all2_choice [of "map rate_limit_config gs" "\<lambda>v r. parse_rate_limit sets [] v = Inr r"] by auto
  moreover have "distinct (map rlc_ID (map rate_limit_config gs))"
    using ok by (simp add: rate_extras_ok_def rate_limit_config_def comp_def)
  ultimately show ?thesis unfolding parseRateLimitRules_Inr rate.loop_Inr_iff by auto
qed

end
