(* ===== verification/Go_Sha256.thy ===== *)
theory Go_Sha256
  imports Go_Netip
begin

text \<open>
  Go's \<open>crypto/sha256.Sum256\<close> (FIPS 180-4), which the gateway uses to hash rate-limit keys and the
  control plane to hash API keys: padding, message schedule and compression over 32-bit words,
  where \<open>+\<close> wraps.  The lemmas give the length and the alphabet of a hexadecimal digest.
\<close>

text \<open>The round constants and the initial hash value, the leading 32 bits of the fractional parts of
  the cube and square roots of the first primes, in decimal.\<close>

definition sha256_K :: "32 word list" where
  "sha256_K = [
     1116352408, 1899447441, 3049323471, 3921009573, 961987163, 1508970993, 2453635748, 2870763221,
     3624381080, 310598401, 607225278, 1426881987, 1925078388, 2162078206, 2614888103, 3248222580,
     3835390401, 4022224774, 264347078, 604807628, 770255983, 1249150122, 1555081692, 1996064986,
     2554220882, 2821834349, 2952996808, 3210313671, 3336571891, 3584528711, 113926993, 338241895,
     666307205, 773529912, 1294757372, 1396182291, 1695183700, 1986661051, 2177026350, 2456956037,
     2730485921, 2820302411, 3259730800, 3345764771, 3516065817, 3600352804, 4094571909, 275423344,
     430227734, 506948616, 659060556, 883997877, 958139571, 1322822218, 1537002063, 1747873779,
     1955562222, 2024104815, 2227730452, 2361852424, 2428436474, 2756734187, 3204031479, 3329325298]"

definition sha256_H :: "32 word list" where
  "sha256_H = [1779033703, 3144134277, 1013904242, 2773480762,
     1359893119, 2600822924, 528734635, 1541459225]"

definition rotr :: "nat \<Rightarrow> 32 word \<Rightarrow> 32 word" where
  "rotr n w = drop_bit n w OR push_bit (32 - n) w"

text \<open>Padding: a one bit, zeros up to 56 modulo 64 bytes, and the length in bits as 64 bits.\<close>

definition sha256_pad :: "nat list \<Rightarrow> nat list" where
  "sha256_pad bs =
     (let n = length bs in
      bs @ [0x80] @ replicate ((119 - n mod 64) mod 64) 0
      @ map (\<lambda>i. (8 * n) div 256 ^ (7 - i) mod 256) [0..<8])"

fun sha256_words :: "nat list \<Rightarrow> 32 word list" where
  "sha256_words (a # b # c # d # r) = of_nat (((a * 256 + b) * 256 + c) * 256 + d) # sha256_words r"
| "sha256_words _ = []"

text \<open>The message schedule, last word first: \<open>W!0\<close> is \<open>w(i-1)\<close>.\<close>

fun sha256_schedule :: "nat \<Rightarrow> 32 word list \<Rightarrow> 32 word list" where
  "sha256_schedule 0 W = W"
| "sha256_schedule (Suc k) W =
     (let v1 = W ! 1; v2 = W ! 14;
          t1 = rotr 17 v1 XOR rotr 19 v1 XOR drop_bit 10 v1;
          t2 = rotr 7 v2 XOR rotr 18 v2 XOR drop_bit 3 v2 in
      sha256_schedule k ((t1 + W ! 6 + t2 + W ! 15) # W))"

definition sha256_round :: "32 word list \<Rightarrow> 32 word \<times> 32 word \<Rightarrow> 32 word list" where
  "sha256_round st kw =
     (case (st, kw) of ([a, b, c, d, e, f, g, h], (k, w)) \<Rightarrow>
        (let t1 = h + (rotr 6 e XOR rotr 11 e XOR rotr 25 e) + ((e AND f) XOR (NOT e AND g)) + k + w;
             t2 = (rotr 2 a XOR rotr 13 a XOR rotr 22 a) + ((a AND b) XOR (a AND c) XOR (b AND c)) in
         [t1 + t2, a, b, c, d + t1, e, f, g])
      | _ \<Rightarrow> st)"

definition sha256_block :: "32 word list \<Rightarrow> 32 word list \<Rightarrow> 32 word list" where
  "sha256_block st blk =
     map2 (+) st (foldl sha256_round st (zip sha256_K (rev (sha256_schedule 48 (rev blk)))))"

fun sha256_blocks :: "nat \<Rightarrow> 32 word list \<Rightarrow> 32 word list \<Rightarrow> 32 word list" where
  "sha256_blocks 0 st ws = st"
| "sha256_blocks (Suc k) st ws = sha256_blocks k (sha256_block st (take 16 ws)) (drop 16 ws)"

definition sha256_bytes :: "32 word \<Rightarrow> char list" where
  "sha256_bytes w = map (\<lambda>i. char_of (unat w div 256 ^ (3 - i) mod 256)) [0..<4]"

definition sha256_Sum256 :: "string \<Rightarrow> string" where
  "sha256_Sum256 s =
     (let ws = sha256_words (sha256_pad (map of_char s)) in
      concat (map sha256_bytes (sha256_blocks (length ws div 16) sha256_H ws)))"

lemma sha256_round_length: "length st = 8 \<Longrightarrow> length (sha256_round st kw) = 8"
  by (auto simp: sha256_round_def Let_def split: list.split prod.split)

lemma sha256_fold_length: "length st = 8 \<Longrightarrow> length (foldl sha256_round st kws) = 8"
  by (induction kws arbitrary: st) (auto simp: sha256_round_length)

lemma sha256_block_length: "length st = 8 \<Longrightarrow> length (sha256_block st blk) = 8"
  by (simp add: sha256_block_def sha256_fold_length)

lemma sha256_blocks_length: "length st = 8 \<Longrightarrow> length (sha256_blocks k st ws) = 8"
  by (induction k st ws rule: sha256_blocks.induct) (auto simp: sha256_block_length)

lemma Sum256_length: "length (sha256_Sum256 s) = 32"
proof -
  have "length (concat (map sha256_bytes ws)) = 4 * length ws" for ws
    by (induction ws) (auto simp: sha256_bytes_def)
  moreover have "length (sha256_blocks k sha256_H ws) = 8" for k ws
    by (rule sha256_blocks_length) (simp add: sha256_H_def)
  ultimately show ?thesis by (simp add: sha256_Sum256_def Let_def)
qed

lemma hex_length: "length (hex_EncodeToString s) = 2 * length s"
  by (induction s) (simp_all add: hex_EncodeToString_def)

lemma hex_char_alphabet: "n < 16 \<Longrightarrow> hex_char n \<in> set ''0123456789abcdef''"
  unfolding hex_char_def by (intro nth_mem) simp

lemma hex_alphabet: "set (hex_EncodeToString s) \<subseteq> set ''0123456789abcdef''"
proof -
  have "byte c div 16 < 16" "byte c mod 16 < 16" for c
    using nat_of_char_less_256 [of c] by (simp_all add: less_mult_imp_div_less)
  then have "set [hex_char (byte c div 16), hex_char (byte c mod 16)] \<subseteq> set ''0123456789abcdef''" for c
    using hex_char_alphabet [of "byte c div 16"] hex_char_alphabet [of "byte c mod 16"]
    by (simp only: set_simps insert_subset empty_subsetI simp_thms)
  then show ?thesis unfolding hex_EncodeToString_def set_concat set_map by blast
qed

end
