(* ===== verification/Control_Models.thy ===== *)
theory Control_Models
  imports Policy_Json Go_Sha256
begin

text \<open>
  The data of the control plane (\<open>services/control-api/internal/models/models.go\<close>): requests, resources and the
  policy that gateways fetch, with the JSON of that policy.  A \<open>json.RawMessage\<close> is a \<open>json option\<close>, \<^term>\<open>None\<close> the
  empty message.  A \<open>time.Time\<close> is its number of nanoseconds, \<^term>\<open>0::int\<close> the zero time.
\<close>

type_synonym raw = "json option"

section \<open>Resources and requests\<close>

record models_Tenant =
  mt_ID :: string
  mt_Name :: string
  mt_Slug :: string
  mt_Status :: string
  mt_Metadata :: raw
  mt_CreatedAt :: int
  mt_UpdatedAt :: int

record CreateTenantRequest =
  ct_Name :: string
  ct_Slug :: string
  ct_Metadata :: raw

record models_Origin =
  mo_ID :: string
  mo_Name :: string
  mo_Scheme :: string
  mo_Host :: string
  mo_Port :: int
  mo_URL :: string

record models_App =
  ma_ID :: string
  ma_TenantID :: string
  ma_Name :: string
  ma_Slug :: string
  ma_Hostnames :: "string list"
  ma_Status :: string
  ma_Origins :: "models_Origin list"
  ma_Metadata :: raw
  ma_CreatedAt :: int
  ma_UpdatedAt :: int

record CreateAppRequest =
  ca_TenantID :: string
  ca_Name :: string
  ca_Slug :: string
  ca_Hostnames :: "string list"
  ca_OriginURL :: string
  ca_Metadata :: raw

record UpdateAppRequest =
  ua_Name :: "string option"
  ua_Hostnames :: "string list"
  ua_OriginURL :: "string option"
  ua_Status :: "string option"
  ua_Metadata :: raw

record models_Policy =
  mp_ID :: string
  mp_TenantID :: string
  mp_AppID :: string
  mp_Name :: string
  mp_Mode :: string
  mp_Enabled :: bool
  mp_ActiveVersionID :: string
  mp_Snapshot :: raw
  mp_CreatedAt :: int
  mp_UpdatedAt :: int

record CreatePolicyRequest =
  cp_Name :: string
  cp_Mode :: string
  cp_Snapshot :: raw

record UpdatePolicyRequest =
  up_Name :: "string option"
  up_Mode :: "string option"
  up_Enabled :: "bool option"
  up_Snapshot :: raw
  up_ExpectedUpdatedAt :: int

record PublishPolicyResponse =
  pp_PolicyID :: string
  pp_PolicyVersionID :: string
  pp_Version :: int
  pp_PublishedAt :: int

record GatewayPolicy =
  mg_TenantID :: string
  mg_AppID :: string
  mg_PolicyID :: string
  mg_PolicyVersionID :: string
  mg_Mode :: string
  mg_Origin :: models_Origin
  mg_IPSets :: raw
  mg_CustomRules :: raw
  mg_RateLimits :: raw
  mg_WAF :: raw
  mg_PublishedAt :: int

record ManagedRuleSet =
  ms_ID :: string
  ms_Name :: string
  ms_Provider :: string
  ms_Source :: string
  ms_Description :: string
  ms_LocalPath :: string
  ms_Enabled :: bool
  ms_Metadata :: raw
  ms_CreatedAt :: int
  ms_UpdatedAt :: int

record ManagedRuleVersion =
  mv_ID :: string
  mv_ManagedRuleSetID :: string
  mv_Version :: string
  mv_SourceURI :: string
  mv_LocalPath :: string
  mv_ChecksumSHA256 :: string
  mv_RulesetSnapshot :: raw
  mv_ReleasedAt :: "int option"
  mv_CreatedAt :: int

record ActivateManagedRuleVersionResponse =
  av_ManagedRuleSetID :: string
  av_ManagedRuleVersionID :: string
  av_Status :: string
  av_Message :: string

record EventRef =
  er_ID :: string
  er_TenantID :: string
  er_AppID :: string
  er_PolicyID :: string
  er_EventID :: string
  er_RequestID :: string
  er_SourceIP :: string
  er_Host :: string
  er_Path :: string
  er_Action :: string
  er_OccurredAt :: int
  er_Metadata :: raw

section \<open>The JSON of a published policy\<close>

text \<open>\<open>rfc\<close> is how the process writes a time, which depends on its time zone, and \<open>unrfc\<close> how it reads one.  An
  empty \<open>json.RawMessage\<close> is written as \<open>null\<close>; the fields \<open>id\<close> and \<open>url\<close> of an origin are omitted when empty.\<close>

definition raw_value :: "raw \<Rightarrow> json" where
  "raw_value r = (case r of None \<Rightarrow> JNull | Some j \<Rightarrow> j)"

definition omitempty :: "string \<Rightarrow> string \<Rightarrow> (string \<times> json) list" where
  "omitempty k v = (if v = [] then [] else [(k, JStr v)])"

definition origin_json :: "models_Origin \<Rightarrow> json" where
  "origin_json o' = JObj (omitempty ''id'' (mo_ID o') @
     [(''name'', JStr (mo_Name o')), (''scheme'', JStr (mo_Scheme o')), (''host'', JStr (mo_Host o')), (''port'', JInt (mo_Port o'))] @
     omitempty ''url'' (mo_URL o'))"

definition policy_json :: "(int \<Rightarrow> string) \<Rightarrow> GatewayPolicy \<Rightarrow> json" where
  "policy_json rfc p = JObj
     [(''tenant_id'', JStr (mg_TenantID p)), (''app_id'', JStr (mg_AppID p)), (''policy_id'', JStr (mg_PolicyID p)),
      (''policy_version_id'', JStr (mg_PolicyVersionID p)), (''mode'', JStr (mg_Mode p)), (''origin'', origin_json (mg_Origin p)),
      (''ip_sets'', raw_value (mg_IPSets p)), (''custom_rules'', raw_value (mg_CustomRules p)),
      (''rate_limits'', raw_value (mg_RateLimits p)), (''waf'', raw_value (mg_WAF p)), (''published_at'', JStr (rfc (mg_PublishedAt p)))]"

definition json_time :: "(string \<Rightarrow> int option) \<Rightarrow> json \<Rightarrow> int \<Rightarrow> int option" where
  "json_time unrfc j old = (case j of JNull \<Rightarrow> Some old | JStr s \<Rightarrow> unrfc s | _ \<Rightarrow> None)"

definition models_origin_fields :: "models_Origin json_fields" where
  "models_origin_fields =
     [(''id'', \<lambda>j r. map_option (\<lambda>x. r\<lparr>mo_ID := x\<rparr>) (json_string j (mo_ID r))),
      (''name'', \<lambda>j r. map_option (\<lambda>x. r\<lparr>mo_Name := x\<rparr>) (json_string j (mo_Name r))),
      (''scheme'', \<lambda>j r. map_option (\<lambda>x. r\<lparr>mo_Scheme := x\<rparr>) (json_string j (mo_Scheme r))),
      (''host'', \<lambda>j r. map_option (\<lambda>x. r\<lparr>mo_Host := x\<rparr>) (json_string j (mo_Host r))),
      (''port'', \<lambda>j r. map_option (\<lambda>x. r\<lparr>mo_Port := x\<rparr>) (json_int j (mo_Port r))),
      (''url'', \<lambda>j r. map_option (\<lambda>x. r\<lparr>mo_URL := x\<rparr>) (json_string j (mo_URL r)))]"

definition zero_Origin :: models_Origin where
  "zero_Origin = \<lparr>mo_ID = [], mo_Name = [], mo_Scheme = [], mo_Host = [], mo_Port = 0, mo_URL = []\<rparr>"

definition models_policy_fields :: "unicode \<Rightarrow> (string \<Rightarrow> int option) \<Rightarrow> GatewayPolicy json_fields" where
  "models_policy_fields U unrfc =
     [(''tenant_id'', \<lambda>j r. map_option (\<lambda>x. r\<lparr>mg_TenantID := x\<rparr>) (json_string j (mg_TenantID r))),
      (''app_id'', \<lambda>j r. map_option (\<lambda>x. r\<lparr>mg_AppID := x\<rparr>) (json_string j (mg_AppID r))),
      (''policy_id'', \<lambda>j r. map_option (\<lambda>x. r\<lparr>mg_PolicyID := x\<rparr>) (json_string j (mg_PolicyID r))),
      (''policy_version_id'', \<lambda>j r. map_option (\<lambda>x. r\<lparr>mg_PolicyVersionID := x\<rparr>) (json_string j (mg_PolicyVersionID r))),
      (''mode'', \<lambda>j r. map_option (\<lambda>x. r\<lparr>mg_Mode := x\<rparr>) (json_string j (mg_Mode r))),
      (''origin'', \<lambda>j r. map_option (\<lambda>x. r\<lparr>mg_Origin := x\<rparr>) (json_struct U False models_origin_fields j (mg_Origin r))),
      (''ip_sets'', \<lambda>j r. Some (r\<lparr>mg_IPSets := Some j\<rparr>)),
      (''custom_rules'', \<lambda>j r. Some (r\<lparr>mg_CustomRules := Some j\<rparr>)),
      (''rate_limits'', \<lambda>j r. Some (r\<lparr>mg_RateLimits := Some j\<rparr>)),
      (''waf'', \<lambda>j r. Some (r\<lparr>mg_WAF := Some j\<rparr>)),
      (''published_at'', \<lambda>j r. map_option (\<lambda>x. r\<lparr>mg_PublishedAt := x\<rparr>) (json_time unrfc j (mg_PublishedAt r)))]"

definition decodeGatewayPolicy :: "unicode \<Rightarrow> (string \<Rightarrow> int option) \<Rightarrow> json \<Rightarrow> GatewayPolicy option" where
  "decodeGatewayPolicy U unrfc snapshot = json_struct U False (models_policy_fields U unrfc) snapshot
     \<lparr>mg_TenantID = [], mg_AppID = [], mg_PolicyID = [], mg_PolicyVersionID = [], mg_Mode = [], mg_Origin = zero_Origin,
      mg_IPSets = None, mg_CustomRules = None, mg_RateLimits = None, mg_WAF = None, mg_PublishedAt = 0\<rparr>"

end
