(* ===== verification/Control_Db.thy ===== *)
theory Control_Db
  imports Control_Models Control_Validation
begin

text \<open>
  The repository of the control plane (\<open>services/control-api/internal/db/db.go\<close>).  The database is a record of
  tables, a table the list of its rows in the order of insertion, with the columns, defaults, checks, unique and
  foreign keys of \<open>migrations/000001_init.up.sql\<close> that the statements touch.  Each operation is its SQL statements in
  order; a statement that violates a constraint, or whose parameter the server cannot read, is the error \<open>DbError\<close>
  and rolls the transaction back.  What PostgreSQL itself decides (reading of UUIDs, texts and \<open>jsonb\<close>, lower case,
  generated identifiers) is the record \<open>backend\<close>, with the times and JSON texts of the process; \<open>now\<close>
  is the time of the transaction.  Rows that \<open>ORDER BY\<close> leaves tied come in the order of insertion.
  A lost connection is not modelled here: the handlers take the repository as an argument.
\<close>

datatype db_error = ErrNotFound | ErrConflict | DbError

record backend =
  be_unicode :: unicode
  be_uuid :: "string \<Rightarrow> string option"
  be_text :: "string \<Rightarrow> bool"
  be_jsonb :: "json \<Rightarrow> json option"
  be_lower :: "string \<Rightarrow> string"
  be_gen :: "nat \<Rightarrow> string"
  be_rfc :: "int \<Rightarrow> string"
  be_unrfc :: "string \<Rightarrow> int option"
  be_json :: "json \<Rightarrow> string"

section \<open>Tables\<close>

record tenant_row =
  t_id :: string
  t_name :: string
  t_slug :: string
  t_status :: string
  t_metadata :: json
  t_created :: int
  t_updated :: int
  t_deleted :: "int option"

record app_row =
  a_id :: string
  a_tenant :: string
  a_name :: string
  a_slug :: string
  a_hostnames :: "string list"
  a_status :: string
  a_metadata :: json
  a_created :: int
  a_updated :: int
  a_deleted :: "int option"

record origin_row =
  o_id :: string
  o_tenant :: string
  o_app :: string
  o_name :: string
  o_scheme :: string
  o_host :: string
  o_port :: int
  o_enabled :: bool
  o_created :: int
  o_updated :: int
  o_deleted :: "int option"

record policy_row =
  p_id :: string
  p_tenant :: string
  p_app :: string
  p_name :: string
  p_mode :: string
  p_active :: "string option"
  p_enabled :: bool
  p_metadata :: json
  p_created :: int
  p_updated :: int
  p_deleted :: "int option"

record version_row =
  v_id :: string
  v_tenant :: string
  v_app :: string
  v_policy :: string
  v_version :: int
  v_mode :: string
  v_snapshot :: json
  v_sha256 :: string
  v_created :: int

record deployment_row =
  d_id :: string
  d_tenant :: string
  d_app :: string
  d_policy :: string
  d_version :: string
  d_node :: string
  d_status :: string
  d_deployed :: int
  d_seen :: "int option"
  d_created :: int
  d_updated :: int

record rule_set_row =
  s_id :: string
  s_name :: string
  s_provider :: string
  s_source :: string
  s_description :: "string option"
  s_path :: "string option"
  s_enabled :: bool
  s_metadata :: json
  s_created :: int
  s_updated :: int
  s_deleted :: "int option"

record rule_version_row =
  w_id :: string
  w_set :: string
  w_version :: string
  w_uri :: "string option"
  w_path :: "string option"
  w_checksum :: "string option"
  w_snapshot :: json
  w_released :: "int option"
  w_created :: int

record event_row =
  e_id :: string
  e_tenant :: string
  e_app :: "string option"
  e_policy :: "string option"
  e_event :: string
  e_request :: string
  e_source :: "string option"
  e_host :: "string option"
  e_path :: "string option"
  e_action :: string
  e_occurred :: int
  e_metadata :: json

record database =
  tenants :: "tenant_row list"
  apps :: "app_row list"
  origins :: "origin_row list"
  policies :: "policy_row list"
  versions :: "version_row list"
  deployments :: "deployment_row list"
  rule_sets :: "rule_set_row list"
  rule_versions :: "rule_version_row list"
  event_refs :: "event_row list"
  next_id :: nat

type_synonym 'a db_result = "(db_error + 'a) \<times> database"

section \<open>Statements\<close>

definition coalesce :: "string option \<Rightarrow> string" where
  "coalesce c = (case c of None \<Rightarrow> [] | Some s \<Rightarrow> s)"

definition newest :: "('r \<Rightarrow> int) \<Rightarrow> 'r list \<Rightarrow> 'r list" where
  "newest col rows = sort_key (\<lambda>r. - col r) rows"

definition tenant_of :: "tenant_row \<Rightarrow> models_Tenant" where
  "tenant_of t = \<lparr>mt_ID = t_id t, mt_Name = t_name t, mt_Slug = t_slug t, mt_Status = t_status t,
     mt_Metadata = Some (t_metadata t), mt_CreatedAt = t_created t, mt_UpdatedAt = t_updated t\<rparr>"

definition app_of :: "models_Origin list \<Rightarrow> app_row \<Rightarrow> models_App" where
  "app_of os a = \<lparr>ma_ID = a_id a, ma_TenantID = a_tenant a, ma_Name = a_name a, ma_Slug = a_slug a,
     ma_Hostnames = a_hostnames a, ma_Status = a_status a, ma_Origins = os, ma_Metadata = Some (a_metadata a),
     ma_CreatedAt = a_created a, ma_UpdatedAt = a_updated a\<rparr>"

text \<open>\<open>COALESCE(metadata->'snapshot', '{}'::jsonb)\<close>\<close>

definition stored_snapshot :: "json \<Rightarrow> json" where
  "stored_snapshot md =
     (case md of JObj es \<Rightarrow> (case map_of es ''snapshot'' of None \<Rightarrow> JObj [] | Some s \<Rightarrow> s) | _ \<Rightarrow> JObj [])"

definition policy_of :: "raw \<Rightarrow> policy_row \<Rightarrow> models_Policy" where
  "policy_of snap p = \<lparr>mp_ID = p_id p, mp_TenantID = p_tenant p, mp_AppID = p_app p, mp_Name = p_name p, mp_Mode = p_mode p,
     mp_Enabled = p_enabled p, mp_ActiveVersionID = coalesce (p_active p), mp_Snapshot = snap,
     mp_CreatedAt = p_created p, mp_UpdatedAt = p_updated p\<rparr>"

definition with_snapshot :: "policy_row \<Rightarrow> models_Policy" where
  "with_snapshot p = policy_of (Some (stored_snapshot (p_metadata p))) p"

definition live_app :: "string \<Rightarrow> string \<Rightarrow> app_row \<Rightarrow> bool" where
  "live_app t i a \<longleftrightarrow> a_tenant a = t \<and> a_id a = i \<and> a_deleted a = None"

definition live_policy :: "string \<Rightarrow> string \<Rightarrow> policy_row \<Rightarrow> bool" where
  "live_policy t i p \<longleftrightarrow> p_tenant p = t \<and> p_id p = i \<and> p_deleted p = None"

definition update_row :: "('r \<Rightarrow> bool) \<Rightarrow> ('r \<Rightarrow> 'r) \<Rightarrow> 'r list \<Rightarrow> 'r list" where
  "update_row sel f rows = map (\<lambda>r. if sel r then f r else r) rows"

section \<open>Tenants\<close>

definition defaultRaw :: "raw \<Rightarrow> json \<Rightarrow> json" where
  "defaultRaw v fallback = (case v of None \<Rightarrow> fallback | Some j \<Rightarrow> if j = JNull then fallback else j)"

text \<open>The metadata of a request, or an empty object when there is none.\<close>

definition metadata_or_empty :: "raw \<Rightarrow> json" where
  "metadata_or_empty md = (case md of None \<Rightarrow> JObj [] | Some j \<Rightarrow> j)"

definition ListTenants :: "database \<Rightarrow> models_Tenant list" where
  "ListTenants db = map tenant_of (newest t_created (filter (\<lambda>t. t_deleted t = None) (tenants db)))"

definition CreateTenant :: "backend \<Rightarrow> int \<Rightarrow> CreateTenantRequest \<Rightarrow> database \<Rightarrow> models_Tenant db_result" where
  "CreateTenant B now req db =
     (case be_jsonb B (metadata_or_empty (ct_Metadata req)) of
        None \<Rightarrow> (Inl DbError, db)
      | Some md \<Rightarrow>
          if \<not> be_text B (ct_Name req) \<or> \<not> be_text B (ct_Slug req) \<or> ct_Slug req \<in> t_slug ` set (tenants db)
          then (Inl DbError, db)
          else let t = \<lparr>t_id = be_gen B (next_id db), t_name = ct_Name req, t_slug = ct_Slug req, t_status = ''active'',
                        t_metadata = md, t_created = now, t_updated = now, t_deleted = None\<rparr>
               in (Inr (tenant_of t), db\<lparr>tenants := tenants db @ [t], next_id := Suc (next_id db)\<rparr>))"

section \<open>Apps and origins\<close>

definition ListApps :: "backend \<Rightarrow> string \<Rightarrow> database \<Rightarrow> db_error + models_App list" where
  "ListApps B tenantID db =
     (case be_uuid B tenantID of
        None \<Rightarrow> Inl DbError
      | Some t \<Rightarrow> Inr (map (app_of []) (newest a_created (filter (\<lambda>a. a_tenant a = t \<and> a_deleted a = None) (apps db)))))"

definition origin_url :: "string \<Rightarrow> string \<Rightarrow> int \<Rightarrow> string" where
  "origin_url scheme host port = scheme @ ''://'' @ host @ '':'' @ strconv_Itoa port"

definition listed_origin :: "origin_row \<Rightarrow> models_Origin" where
  "listed_origin r = \<lparr>mo_ID = o_id r, mo_Name = o_name r, mo_Scheme = o_scheme r, mo_Host = o_host r, mo_Port = o_port r,
     mo_URL = o_scheme r @ ''://'' @ o_host r @ (if 0 < o_port r then '':'' @ strconv_Itoa (o_port r) else [])\<rparr>"

definition listOrigins :: "string \<Rightarrow> database \<Rightarrow> models_Origin list" where
  "listOrigins appID db =
     map listed_origin (sort_key o_created (filter (\<lambda>r. o_app r = appID \<and> o_deleted r = None) (origins db)))"

definition inserted_origin :: "origin_row \<Rightarrow> models_Origin" where
  "inserted_origin r = \<lparr>mo_ID = o_id r, mo_Name = o_name r, mo_Scheme = o_scheme r, mo_Host = o_host r, mo_Port = o_port r,
     mo_URL = origin_url (o_scheme r) (o_host r) (o_port r)\<rparr>"

definition origin_port :: "URL \<Rightarrow> string" where
  "origin_port u = (if url_Port u \<noteq> [] then url_Port u else if url_Scheme u = ''https'' then ''443'' else ''80'')"

definition insertOrigin :: "backend \<Rightarrow> int \<Rightarrow> string \<Rightarrow> string \<Rightarrow> URL \<Rightarrow> database \<Rightarrow> models_Origin db_result" where
  "insertOrigin B now tenantID appID originURL db =
     (case strconv_Atoi (origin_port originURL) of
        None \<Rightarrow> (Inl DbError, db)
      | Some port \<Rightarrow>
          let host = strings_ToLower (be_unicode B) (url_Hostname originURL);
              r = \<lparr>o_id = be_gen B (next_id db), o_tenant = tenantID, o_app = appID, o_name = ''primary'',
                   o_scheme = url_Scheme originURL, o_host = host, o_port = port, o_enabled = True,
                   o_created = now, o_updated = now, o_deleted = None\<rparr>
          in if \<not> be_text B host \<or> url_Scheme originURL \<notin> {''http'', ''https''} \<or> port < 1 \<or> 65535 < port \<or>
               tenantID \<notin> t_id ` set (tenants db) \<or> appID \<notin> a_id ` set (apps db) \<or>
               (appID, ''primary'') \<in> (\<lambda>r. (o_app r, o_name r)) ` set (origins db)
             then (Inl DbError, db)
             else (Inr (inserted_origin r), db\<lparr>origins := origins db @ [r], next_id := Suc (next_id db)\<rparr>))"

definition new_app :: "backend \<Rightarrow> int \<Rightarrow> string \<Rightarrow> json \<Rightarrow> CreateAppRequest \<Rightarrow> nat \<Rightarrow> app_row" where
  "new_app B now t md req n =
     \<lparr>a_id = be_gen B n, a_tenant = t, a_name = ca_Name req, a_slug = ca_Slug req, a_hostnames = ca_Hostnames req,
      a_status = ''active'', a_metadata = md, a_created = now, a_updated = now, a_deleted = None\<rparr>"

definition CreateApp :: "backend \<Rightarrow> int \<Rightarrow> CreateAppRequest \<Rightarrow> URL \<Rightarrow> database \<Rightarrow> models_App db_result" where
  "CreateApp B now req originURL db =
     (case (be_uuid B (ca_TenantID req), be_jsonb B (metadata_or_empty (ca_Metadata req))) of
        (Some t, Some md) \<Rightarrow>
          if \<not> list_all (be_text B) (ca_Name req # ca_Slug req # ca_Hostnames req) \<or> t \<notin> t_id ` set (tenants db) \<or>
             (t, ca_Slug req) \<in> (\<lambda>a. (a_tenant a, a_slug a)) ` set (apps db)
          then (Inl DbError, db)
          else
            let a = new_app B now t md req (next_id db);
                db1 = db\<lparr>apps := apps db @ [a], next_id := Suc (next_id db)\<rparr>
            in (case insertOrigin B now (a_tenant a) (a_id a) originURL db1 of
                  (Inl e, _) \<Rightarrow> (Inl e, db)
                | (Inr origin, db2) \<Rightarrow> (Inr (app_of [origin] a), db2))
      | _ \<Rightarrow> (Inl DbError, db))"

definition GetApp :: "backend \<Rightarrow> string \<Rightarrow> string \<Rightarrow> database \<Rightarrow> db_error + models_App" where
  "GetApp B tenantID appID db =
     (case (be_uuid B tenantID, be_uuid B appID) of
        (Some t, Some i) \<Rightarrow>
          (case find (live_app t i) (apps db) of
             None \<Rightarrow> Inl ErrNotFound
           | Some a \<Rightarrow> Inr (app_of (listOrigins (a_id a) db) a))
      | _ \<Rightarrow> Inl DbError)"

text \<open>The transaction of \<open>UpdateApp\<close>: the update of the row, then the origin when the request has one.\<close>

definition update_app_row :: "int \<Rightarrow> models_App \<Rightarrow> json \<Rightarrow> app_row \<Rightarrow> app_row" where
  "update_app_row now c md a =
     a\<lparr>a_name := ma_Name c, a_hostnames := ma_Hostnames c, a_status := ma_Status c, a_metadata := md, a_updated := now\<rparr>"

definition retire_origins :: "int \<Rightarrow> string \<Rightarrow> string \<Rightarrow> database \<Rightarrow> database" where
  "retire_origins now t i db =
     db\<lparr>origins := update_row (\<lambda>r. o_tenant r = t \<and> o_app r = i \<and> o_deleted r = None)
          (\<lambda>r. r\<lparr>o_deleted := Some now, o_updated := now\<rparr>) (origins db)\<rparr>"

definition patched_app :: "UpdateAppRequest \<Rightarrow> models_App \<Rightarrow> models_App" where
  "patched_app req c =
     c\<lparr>ma_Name := (case ua_Name req of None \<Rightarrow> ma_Name c | Some n \<Rightarrow> n),
       ma_Hostnames := (if ua_Hostnames req = [] then ma_Hostnames c else ua_Hostnames req),
       ma_Status := (case ua_Status req of None \<Rightarrow> ma_Status c | Some s \<Rightarrow> s)\<rparr>"

definition update_app_tx ::
  "backend \<Rightarrow> int \<Rightarrow> string \<Rightarrow> string \<Rightarrow> models_App \<Rightarrow> json \<Rightarrow> URL option \<Rightarrow> database \<Rightarrow> models_App db_result" where
  "update_app_tx B now t i current md originURL db =
     (case find (live_app t i) (apps db) of
        None \<Rightarrow> (Inl ErrNotFound, db)
      | Some a \<Rightarrow>
          let a' = update_app_row now current md a;
              db1 = db\<lparr>apps := update_row (live_app t i) (update_app_row now current md) (apps db)\<rparr>
          in (case originURL of
                None \<Rightarrow> (Inr (app_of (listOrigins (a_id a') db1) a'), db1)
              | Some u \<Rightarrow>
                  (case insertOrigin B now (a_tenant a') (a_id a') u (retire_origins now t i db1) of
                     (Inl e, _) \<Rightarrow> (Inl e, db)
                   | (Inr origin, db2) \<Rightarrow> (Inr (app_of [origin] a'), db2))))"

definition UpdateApp ::
  "backend \<Rightarrow> int \<Rightarrow> string \<Rightarrow> string \<Rightarrow> UpdateAppRequest \<Rightarrow> URL option \<Rightarrow> database \<Rightarrow> models_App db_result" where
  "UpdateApp B now tenantID appID req originURL db =
     (case GetApp B tenantID appID db of
        Inl e \<Rightarrow> (Inl e, db)
      | Inr app \<Rightarrow>
          let current = patched_app req app;
              metadata = (case ua_Metadata req of None \<Rightarrow> ma_Metadata current | Some j \<Rightarrow> Some j)
          in (case (be_uuid B tenantID, be_uuid B appID, be_jsonb B (raw_value metadata)) of
                (Some t, Some i, Some md) \<Rightarrow>
                  if \<not> list_all (be_text B) (ma_Name current # ma_Status current # ma_Hostnames current) \<or>
                     ma_Status current \<notin> {''active'', ''disabled''}
                  then (Inl DbError, db)
                  else update_app_tx B now t i current md originURL db
              | _ \<Rightarrow> (Inl DbError, db)))"

section \<open>Policies\<close>

definition ListPoliciesByApp :: "backend \<Rightarrow> string \<Rightarrow> string \<Rightarrow> database \<Rightarrow> db_error + models_Policy list" where
  "ListPoliciesByApp B tenantID appID db =
     (case (be_uuid B tenantID, be_uuid B appID) of
        (Some t, Some i) \<Rightarrow>
          Inr (map (policy_of None)
            (newest p_created (filter (\<lambda>p. p_tenant p = t \<and> p_app p = i \<and> p_deleted p = None) (policies db))))
      | _ \<Rightarrow> Inl DbError)"

text \<open>\<open>metadataWithSnapshot\<close> reads the existing metadata into a map; a \<open>null\<close> leaves the map nil, and the assignment
  panics.  The repository only calls it without existing metadata.\<close>

datatype metadata_fault = NotAnObject | NilMapAssignment

definition metadataWithSnapshot :: "raw \<Rightarrow> raw \<Rightarrow> metadata_fault + json" where
  "metadataWithSnapshot existing snapshot =
     (let put = (\<lambda>m. Inr (JObj (AList.update ''snapshot'' (defaultRaw snapshot (JObj [])) m))) in
      case existing of
        None \<Rightarrow> put []
      | Some JNull \<Rightarrow> Inl NilMapAssignment
      | Some (JObj es) \<Rightarrow> put (foldl (\<lambda>m (k, v). AList.update k v m) [] es)
      | Some _ \<Rightarrow> Inl NotAnObject)"

definition known_mode :: "string \<Rightarrow> bool" where
  "known_mode m \<longleftrightarrow> m = ''count'' \<or> m = ''block''"

definition CreatePolicy ::
  "backend \<Rightarrow> int \<Rightarrow> string \<Rightarrow> string \<Rightarrow> CreatePolicyRequest \<Rightarrow> database \<Rightarrow> models_Policy db_result" where
  "CreatePolicy B now tenantID appID req db =
     (case GetApp B tenantID appID db of
        Inl e \<Rightarrow> (Inl e, db)
      | Inr app \<Rightarrow>
          let snapshot = metadata_or_empty (cp_Snapshot req) in
          (case metadataWithSnapshot None (Some snapshot) of
             Inl _ \<Rightarrow> (Inl DbError, db)
           | Inr metadata \<Rightarrow>
               (case (be_uuid B (ma_TenantID app), be_uuid B appID, be_jsonb B metadata) of
                  (Some t, Some i, Some md) \<Rightarrow>
                    if \<not> be_text B (cp_Name req) \<or> \<not> known_mode (cp_Mode req) \<or> t \<notin> t_id ` set (tenants db) \<or>
                       i \<notin> a_id ` set (apps db) \<or> (i, cp_Name req) \<in> (\<lambda>p. (p_app p, p_name p)) ` set (policies db)
                    then (Inl DbError, db)
                    else let p = \<lparr>p_id = be_gen B (next_id db), p_tenant = t, p_app = i, p_name = cp_Name req,
                                  p_mode = cp_Mode req, p_active = None, p_enabled = True, p_metadata = md,
                                  p_created = now, p_updated = now, p_deleted = None\<rparr>
                         in (Inr (policy_of (Some snapshot) p),
                             db\<lparr>policies := policies db @ [p], next_id := Suc (next_id db)\<rparr>)
                | _ \<Rightarrow> (Inl DbError, db))))"

definition GetPolicy :: "backend \<Rightarrow> string \<Rightarrow> string \<Rightarrow> database \<Rightarrow> db_error + models_Policy" where
  "GetPolicy B tenantID policyID db =
     (case (be_uuid B tenantID, be_uuid B policyID) of
        (Some t, Some i) \<Rightarrow>
          (case find (live_policy t i) (policies db) of None \<Rightarrow> Inl ErrNotFound | Some p \<Rightarrow> Inr (with_snapshot p))
      | _ \<Rightarrow> Inl DbError)"

text \<open>The same statement with \<open>FOR UPDATE\<close>: the row is locked until the transaction ends.\<close>

definition getPolicyForUpdate :: "backend \<Rightarrow> string \<Rightarrow> string \<Rightarrow> database \<Rightarrow> db_error + models_Policy" where
  "getPolicyForUpdate B tenantID policyID db =
     (case (be_uuid B tenantID, be_uuid B policyID) of
        (Some t, Some i) \<Rightarrow>
          (case find (live_policy t i) (policies db) of None \<Rightarrow> Inl ErrNotFound | Some p \<Rightarrow> Inr (with_snapshot p))
      | _ \<Rightarrow> Inl DbError)"

definition patched_policy :: "UpdatePolicyRequest \<Rightarrow> models_Policy \<Rightarrow> models_Policy" where
  "patched_policy req c =
     c\<lparr>mp_Name := (case up_Name req of None \<Rightarrow> mp_Name c | Some n \<Rightarrow> n),
       mp_Mode := (case up_Mode req of None \<Rightarrow> mp_Mode c | Some m \<Rightarrow> m),
       mp_Enabled := (case up_Enabled req of None \<Rightarrow> mp_Enabled c | Some b \<Rightarrow> b),
       mp_Snapshot := (case up_Snapshot req of None \<Rightarrow> mp_Snapshot c | Some j \<Rightarrow> Some j)\<rparr>"

definition update_policy_row :: "int \<Rightarrow> models_Policy \<Rightarrow> json \<Rightarrow> policy_row \<Rightarrow> policy_row" where
  "update_policy_row now c md p =
     p\<lparr>p_name := mp_Name c, p_mode := mp_Mode c, p_enabled := mp_Enabled c, p_metadata := md, p_updated := now\<rparr>"

definition name_taken :: "database \<Rightarrow> policy_row \<Rightarrow> string \<Rightarrow> bool" where
  "name_taken db p n \<longleftrightarrow> list_ex (\<lambda>q. p_id q \<noteq> p_id p \<and> p_app q = p_app p \<and> p_name q = n) (policies db)"

definition UpdatePolicy ::
  "backend \<Rightarrow> int \<Rightarrow> string \<Rightarrow> string \<Rightarrow> UpdatePolicyRequest \<Rightarrow> database \<Rightarrow> models_Policy db_result" where
  "UpdatePolicy B now tenantID policyID req db =
     (case getPolicyForUpdate B tenantID policyID db of
        Inl e \<Rightarrow> (Inl e, db)
      | Inr policy \<Rightarrow>
          if mp_UpdatedAt policy \<noteq> up_ExpectedUpdatedAt req then (Inl ErrConflict, db)
          else
            let current = patched_policy req policy in
            (case metadataWithSnapshot None (mp_Snapshot current) of
               Inl _ \<Rightarrow> (Inl DbError, db)
             | Inr metadata \<Rightarrow>
                 (case (be_uuid B tenantID, be_uuid B policyID, be_jsonb B metadata) of
                    (Some t, Some i, Some md) \<Rightarrow>
                      (case find (live_policy t i) (policies db) of
                         None \<Rightarrow> (Inl ErrNotFound, db)
                       | Some p \<Rightarrow>
                           if \<not> be_text B (mp_Name current) \<or> \<not> known_mode (mp_Mode current) \<or> name_taken db p (mp_Name current)
                           then (Inl DbError, db)
                           else (Inr (with_snapshot (update_policy_row now current md p)),
                                 db\<lparr>policies := update_row (live_policy t i) (update_policy_row now current md) (policies db)\<rparr>))
                  | _ \<Rightarrow> (Inl DbError, db))))"

section \<open>Publication\<close>

definition getPrimaryOrigin :: "string \<Rightarrow> database \<Rightarrow> db_error + models_Origin" where
  "getPrimaryOrigin appID db =
     (case sort_key (\<lambda>r. (if o_name r = ''primary'' then 0 else 1 :: int))
             (sort_key o_created (filter (\<lambda>r. o_app r = appID \<and> o_deleted r = None \<and> o_enabled r) (origins db))) of
        [] \<Rightarrow> Inl ErrNotFound
      | r # _ \<Rightarrow> Inr (inserted_origin r))"

record policyDraft =
  dr_Mode :: string
  dr_IPSets :: raw
  dr_CustomRules :: raw
  dr_RateLimits :: raw
  dr_WAF :: raw

definition zero_policyDraft :: policyDraft where
  "zero_policyDraft = \<lparr>dr_Mode = [], dr_IPSets = None, dr_CustomRules = None, dr_RateLimits = None, dr_WAF = None\<rparr>"

definition draft_fields :: "policyDraft json_fields" where
  "draft_fields =
     [(''mode'', \<lambda>j r. map_option (\<lambda>x. r\<lparr>dr_Mode := x\<rparr>) (json_string j (dr_Mode r))),
      (''ip_sets'', \<lambda>j r. Some (r\<lparr>dr_IPSets := Some j\<rparr>)),
      (''custom_rules'', \<lambda>j r. Some (r\<lparr>dr_CustomRules := Some j\<rparr>)),
      (''rate_limits'', \<lambda>j r. Some (r\<lparr>dr_RateLimits := Some j\<rparr>)),
      (''waf'', \<lambda>j r. Some (r\<lparr>dr_WAF := Some j\<rparr>))]"

definition decodeDraft :: "unicode \<Rightarrow> raw \<Rightarrow> policyDraft option" where
  "decodeDraft U snapshot =
     (case snapshot of None \<Rightarrow> Some zero_policyDraft | Some j \<Rightarrow> json_struct U False draft_fields j zero_policyDraft)"

definition compiled_policy :: "models_Policy \<Rightarrow> string \<Rightarrow> models_Origin \<Rightarrow> policyDraft \<Rightarrow> GatewayPolicy" where
  "compiled_policy policy versionID origin draft =
     \<lparr>mg_TenantID = mp_TenantID policy, mg_AppID = mp_AppID policy, mg_PolicyID = mp_ID policy, mg_PolicyVersionID = versionID,
      mg_Mode = (if dr_Mode draft \<noteq> [] then dr_Mode draft else mp_Mode policy), mg_Origin = origin,
      mg_IPSets = Some (defaultRaw (dr_IPSets draft) (JObj [])),
      mg_CustomRules = Some (defaultRaw (dr_CustomRules draft) (JArr [])),
      mg_RateLimits = Some (defaultRaw (dr_RateLimits draft) (JArr [])),
      mg_WAF = Some (defaultRaw (dr_WAF draft) (JObj [])), mg_PublishedAt = 0\<rparr>"

definition compileGatewayPolicy :: "unicode \<Rightarrow> models_Policy \<Rightarrow> string \<Rightarrow> database \<Rightarrow> db_error + GatewayPolicy" where
  "compileGatewayPolicy U policy versionID db =
     (case getPrimaryOrigin (mp_AppID policy) db of
        Inl e \<Rightarrow> Inl e
      | Inr origin \<Rightarrow>
          (case decodeDraft U (mp_Snapshot policy) of
             None \<Rightarrow> Inl DbError
           | Some draft \<Rightarrow> Inr (compiled_policy policy versionID origin draft)))"

definition next_version :: "string \<Rightarrow> database \<Rightarrow> int" where
  "next_version i db = foldr max (map v_version (filter (\<lambda>v. v_policy v = i) (versions db))) 0 + 1"

text \<open>\<open>INSERT INTO policy_deployments ... ON CONFLICT (policy_id, gateway_node_id) DO UPDATE\<close>\<close>

definition deploy :: "backend \<Rightarrow> int \<Rightarrow> models_Policy \<Rightarrow> string \<Rightarrow> database \<Rightarrow> database" where
  "deploy B now policy versionID db =
     (if list_ex (\<lambda>d. d_policy d = mp_ID policy \<and> d_node d = ''default'') (deployments db)
      then db\<lparr>deployments := update_row (\<lambda>d. d_policy d = mp_ID policy \<and> d_node d = ''default'')
             (\<lambda>d. d\<lparr>d_version := versionID, d_status := ''active'', d_deployed := now, d_updated := now\<rparr>) (deployments db)\<rparr>
      else db\<lparr>deployments := deployments db @
             [\<lparr>d_id = be_gen B (next_id db), d_tenant = mp_TenantID policy, d_app = mp_AppID policy, d_policy = mp_ID policy,
               d_version = versionID, d_node = ''default'', d_status = ''active'', d_deployed = now, d_seen = Some now,
               d_created = now, d_updated = now\<rparr>], next_id := Suc (next_id db)\<rparr>)"

definition activate_version :: "int \<Rightarrow> string \<Rightarrow> string \<Rightarrow> string \<Rightarrow> database \<Rightarrow> database" where
  "activate_version now t policyID versionID db =
     db\<lparr>policies := update_row (\<lambda>p. p_tenant p = t \<and> p_id p = policyID)
          (\<lambda>p. p\<lparr>p_active := Some versionID, p_updated := now\<rparr>) (policies db)\<rparr>"

definition version_row_of :: "backend \<Rightarrow> int \<Rightarrow> models_Policy \<Rightarrow> string \<Rightarrow> int \<Rightarrow> json \<Rightarrow> json \<Rightarrow> version_row" where
  "version_row_of B now policy versionID version doc stored =
     \<lparr>v_id = versionID, v_tenant = mp_TenantID policy, v_app = mp_AppID policy, v_policy = mp_ID policy, v_version = version,
      v_mode = mp_Mode policy, v_snapshot = stored, v_sha256 = hex_EncodeToString (sha256_Sum256 (be_json B doc)),
      v_created = now\<rparr>"

definition PublishPolicy :: "backend \<Rightarrow> int \<Rightarrow> string \<Rightarrow> string \<Rightarrow> database \<Rightarrow> PublishPolicyResponse db_result" where
  "PublishPolicy B now tenantID policyID db =
     (case getPolicyForUpdate B tenantID policyID db of
        Inl e \<Rightarrow> (Inl e, db)
      | Inr policy \<Rightarrow>
          (case (be_uuid B tenantID, be_uuid B policyID) of
             (Some t, Some i) \<Rightarrow>
               let version = next_version i db; versionID = be_gen B (next_id db) in
               if 2147483647 < version then (Inl DbError, db)
               else
                 (case compileGatewayPolicy (be_unicode B) policy versionID db of
                    Inl e \<Rightarrow> (Inl e, db)
                  | Inr compiled \<Rightarrow>
                      let doc = policy_json (be_rfc B) (compiled\<lparr>mg_PublishedAt := now\<rparr>) in
                      (case be_jsonb B doc of
                         None \<Rightarrow> (Inl DbError, db)
                       | Some stored \<Rightarrow>
                           let v = version_row_of B now policy versionID version doc stored;
                               db1 = db\<lparr>versions := versions db @ [v], next_id := Suc (next_id db)\<rparr>
                           in (Inr \<lparr>pp_PolicyID = mp_ID policy, pp_PolicyVersionID = versionID, pp_Version = version, pp_PublishedAt = now\<rparr>,
                               deploy B now policy versionID (activate_version now t (mp_ID policy) versionID db1))))
           | _ \<Rightarrow> (Inl DbError, db)))"

definition first_snapshot :: "backend \<Rightarrow> (deployment_row \<times> version_row) list \<Rightarrow> db_error + GatewayPolicy" where
  "first_snapshot B rows =
     (case newest (\<lambda>(d, v). d_deployed d) rows of
        [] \<Rightarrow> Inl ErrNotFound
      | (d, v) # _ \<Rightarrow>
          (case decodeGatewayPolicy (be_unicode B) (be_unrfc B) (v_snapshot v) of None \<Rightarrow> Inl DbError | Some p \<Rightarrow> Inr p))"

text \<open>The rows of \<open>policy_deployments d JOIN policies p ... JOIN policy_versions v ...\<close> that are active on the default
  node and belong to an enabled policy.\<close>

definition active_rows :: "database \<Rightarrow> (deployment_row \<times> version_row) list" where
  "active_rows db = [(d, v). d \<leftarrow> deployments db, p \<leftarrow> policies db, p_id p = d_policy d, v \<leftarrow> versions db,
     v_id v = d_version d \<and> d_node d = ''default'' \<and> d_status d = ''active'' \<and> p_deleted p = None \<and> p_enabled p]"

definition GetActivePolicyByApp :: "backend \<Rightarrow> string \<Rightarrow> string \<Rightarrow> database \<Rightarrow> db_error + GatewayPolicy" where
  "GetActivePolicyByApp B tenantID appID db =
     (case (be_uuid B tenantID, be_uuid B appID) of
        (Some t, Some i) \<Rightarrow> first_snapshot B (filter (\<lambda>(d, v). d_tenant d = t \<and> d_app d = i) (active_rows db))
      | _ \<Rightarrow> Inl DbError)"

definition serves :: "backend \<Rightarrow> string \<Rightarrow> app_row \<Rightarrow> bool" where
  "serves B hostname a \<longleftrightarrow>
     list_ex (\<lambda>h. be_lower B h = be_lower B hostname) (a_hostnames a) \<and> a_deleted a = None \<and> a_status a = ''active''"

definition GetGatewayPolicyByHostname :: "backend \<Rightarrow> string \<Rightarrow> database \<Rightarrow> db_error + GatewayPolicy" where
  "GetGatewayPolicyByHostname B hostname db =
     (if \<not> be_text B hostname then Inl DbError
      else first_snapshot B [(d, v). a \<leftarrow> apps db, serves B hostname a, (d, v) \<leftarrow> active_rows db, d_app d = a_id a])"

section \<open>Managed rules and event references\<close>

definition rule_set_of :: "rule_set_row \<Rightarrow> ManagedRuleSet" where
  "rule_set_of s = \<lparr>ms_ID = s_id s, ms_Name = s_name s, ms_Provider = s_provider s, ms_Source = s_source s,
     ms_Description = coalesce (s_description s), ms_LocalPath = coalesce (s_path s), ms_Enabled = s_enabled s,
     ms_Metadata = Some (s_metadata s), ms_CreatedAt = s_created s, ms_UpdatedAt = s_updated s\<rparr>"

text \<open>\<open>ORDER BY name\<close> follows the collation of the database: \<open>collate\<close> maps a name to its sort key.\<close>

definition ListManagedRuleSets :: "(string \<Rightarrow> nat list) \<Rightarrow> database \<Rightarrow> ManagedRuleSet list" where
  "ListManagedRuleSets collate db =
     map rule_set_of (sort_key (\<lambda>s. collate (s_name s)) (filter (\<lambda>s. s_deleted s = None) (rule_sets db)))"

definition rule_version_of :: "rule_version_row \<Rightarrow> ManagedRuleVersion" where
  "rule_version_of w = \<lparr>mv_ID = w_id w, mv_ManagedRuleSetID = w_set w, mv_Version = w_version w, mv_SourceURI = coalesce (w_uri w),
     mv_LocalPath = coalesce (w_path w), mv_ChecksumSHA256 = coalesce (w_checksum w), mv_RulesetSnapshot = Some (w_snapshot w),
     mv_ReleasedAt = w_released w, mv_CreatedAt = w_created w\<rparr>"

definition ListManagedRuleVersions :: "backend \<Rightarrow> string \<Rightarrow> database \<Rightarrow> db_error + ManagedRuleVersion list" where
  "ListManagedRuleVersions B ruleSetID db =
     (case be_uuid B ruleSetID of
        None \<Rightarrow> Inl DbError
      | Some i \<Rightarrow> Inr (map rule_version_of (newest w_created (filter (\<lambda>w. w_set w = i) (rule_versions db)))))"

definition ActivateManagedRuleVersion ::
  "backend \<Rightarrow> string \<Rightarrow> string \<Rightarrow> database \<Rightarrow> db_error + ActivateManagedRuleVersionResponse" where
  "ActivateManagedRuleVersion B ruleSetID versionID db =
     (case (be_uuid B versionID, be_uuid B ruleSetID) of
        (Some v, Some s) \<Rightarrow>
          if list_ex (\<lambda>w. w_id w = v \<and> w_set w = s) (rule_versions db)
          then Inr \<lparr>av_ManagedRuleSetID = ruleSetID, av_ManagedRuleVersionID = versionID,
                 av_Status = ''manual_policy_publish_required'',
                 av_Message = ''managed rule versions are not activated automatically; publish a policy referencing this version''\<rparr>
          else Inl ErrNotFound
      | _ \<Rightarrow> Inl DbError)"

definition event_ref_of :: "event_row \<Rightarrow> EventRef" where
  "event_ref_of e = \<lparr>er_ID = e_id e, er_TenantID = e_tenant e, er_AppID = coalesce (e_app e), er_PolicyID = coalesce (e_policy e),
     er_EventID = e_event e, er_RequestID = e_request e, er_SourceIP = coalesce (e_source e), er_Host = coalesce (e_host e),
     er_Path = coalesce (e_path e), er_Action = e_action e, er_OccurredAt = e_occurred e, er_Metadata = Some (e_metadata e)\<rparr>"

definition ListEvents :: "backend \<Rightarrow> string \<Rightarrow> int \<Rightarrow> database \<Rightarrow> db_error + EventRef list" where
  "ListEvents B tenantID limit db =
     (case be_uuid B tenantID of
        None \<Rightarrow> Inl DbError
      | Some t \<Rightarrow>
          if limit < 0 then Inl DbError
          else Inr (map event_ref_of (take (nat limit) (newest e_occurred (filter (\<lambda>e. e_tenant e = t) (event_refs db))))))"

definition GetEvent :: "backend \<Rightarrow> string \<Rightarrow> string \<Rightarrow> database \<Rightarrow> db_error + EventRef" where
  "GetEvent B tenantID eventID db =
     (case be_uuid B tenantID of
        None \<Rightarrow> Inl DbError
      | Some t \<Rightarrow>
          if \<not> be_text B eventID then Inl DbError
          else (case find (\<lambda>e. e_tenant e = t \<and> e_event e = eventID) (event_refs db) of
              None \<Rightarrow> Inl ErrNotFound
            | Some e \<Rightarrow> Inr (event_ref_of e)))"

end
