(* ===== verification/Control_Db_Facts.thy ===== *)
theory Control_Db_Facts
  imports Control_Db
begin

text \<open>
  The calls of the repository as data, the databases that sequences of calls reach, and what each operation changes:
  it either fails and leaves the database alone, or succeeds with one known change.
\<close>

section \<open>Calls\<close>

datatype db_call =
    CallCreateTenant CreateTenantRequest
  | CallCreateApp CreateAppRequest URL
  | CallUpdateApp string string UpdateAppRequest "URL option"
  | CallCreatePolicy string string CreatePolicyRequest
  | CallUpdatePolicy string string UpdatePolicyRequest
  | CallPublishPolicy string string

fun run_call :: "backend \<Rightarrow> int \<Rightarrow> db_call \<Rightarrow> database \<Rightarrow> database" where
  "run_call B now (CallCreateTenant req) db = snd (CreateTenant B now req db)"
| "run_call B now (CallCreateApp req u) db = snd (CreateApp B now req u db)"
| "run_call B now (CallUpdateApp t i req u) db = snd (UpdateApp B now t i req u db)"
| "run_call B now (CallCreatePolicy t i req) db = snd (CreatePolicy B now t i req db)"
| "run_call B now (CallUpdatePolicy t i req) db = snd (UpdatePolicy B now t i req db)"
| "run_call B now (CallPublishPolicy t i) db = snd (PublishPolicy B now t i db)"

definition empty_database :: database where
  "empty_database = \<lparr>tenants = [], apps = [], origins = [], policies = [], versions = [], deployments = [], rule_sets = [],
     rule_versions = [], event_refs = [], next_id = 0\<rparr>"

inductive reachable :: "backend \<Rightarrow> database \<Rightarrow> bool" for B where
  reachable_empty: "reachable B empty_database"
| reachable_call: "reachable B db \<Longrightarrow> reachable B (run_call B now c db)"

text \<open>What PostgreSQL promises of generated identifiers.\<close>

definition generated_ids :: "backend \<Rightarrow> bool" where
  "generated_ids B \<longleftrightarrow> inj (be_gen B) \<and> (\<forall>n. be_uuid B (be_gen B n) = Some (be_gen B n) \<and> be_gen B n \<noteq> [])"

section \<open>What the operations change\<close>

lemma find_live:
  assumes "find P xs = Some x"
  shows "x \<in> set xs \<and> P x"
  using assms by (induction xs) (auto split: if_splits)

text \<open>Each operation either fails and leaves the database alone, or succeeds with one known change.\<close>

lemma CreateTenant_ok:
  assumes "CreateTenant B now req db = (Inr x, db')"
  obtains t where "x = tenant_of t" "db' = db\<lparr>tenants := tenants db @ [t], next_id := Suc (next_id db)\<rparr>"
    "t_id t = be_gen B (next_id db)" "t_slug t \<notin> t_slug ` set (tenants db)"
  using assms by (simp add: CreateTenant_def Let_def split: if_splits option.splits) (use that in force)

lemma insertOrigin_ok:
  assumes "insertOrigin B now t i u db = (Inr x, db')"
  obtains r where "x = inserted_origin r" "db' = db\<lparr>origins := origins db @ [r], next_id := Suc (next_id db)\<rparr>"
    "o_id r = be_gen B (next_id db)" "o_tenant r = t" "o_app r = i" "o_name r = ''primary''" "o_deleted r = None" "o_enabled r"
    "o_scheme r \<in> {''http'', ''https''}" "1 \<le> o_port r" "o_port r \<le> 65535"
    "(i, ''primary'') \<notin> (\<lambda>r. (o_app r, o_name r)) ` set (origins db)"
  using assms by (simp add: insertOrigin_def Let_def split: if_splits option.splits) (use that in force)

lemma CreateApp_ok:
  assumes "CreateApp B now req u db = (Inr x, db')"
  obtains a r where "x = app_of [inserted_origin r] a"
    "db' = db\<lparr>apps := apps db @ [a], origins := origins db @ [r], next_id := Suc (Suc (next_id db))\<rparr>"
    "a_id a = be_gen B (next_id db)" "be_uuid B (ca_TenantID req) = Some (a_tenant a)" "a_tenant a \<in> t_id ` set (tenants db)"
    "a_hostnames a = ca_Hostnames req" "a_deleted a = None" "a_status a = ''active''"
    "(a_tenant a, a_slug a) \<notin> (\<lambda>a. (a_tenant a, a_slug a)) ` set (apps db)"
    "o_id r = be_gen B (Suc (next_id db))" "o_tenant r = a_tenant a" "o_app r = a_id a" "o_name r = ''primary''"
    "o_deleted r = None" "o_enabled r" "o_scheme r \<in> {''http'', ''https''}" "1 \<le> o_port r" "o_port r \<le> 65535"
proof -
  obtain t md where t: "be_uuid B (ca_TenantID req) = Some t" "t \<in> t_id ` set (tenants db)"
    "(t, ca_Slug req) \<notin> (\<lambda>a. (a_tenant a, a_slug a)) ` set (apps db)"
    and step: "(case insertOrigin B now (a_tenant (new_app B now t md req (next_id db))) (a_id (new_app B now t md req (next_id db))) u
        (db\<lparr>apps := apps db @ [new_app B now t md req (next_id db)], next_id := Suc (next_id db)\<rparr>) of
       (Inl e, _) \<Rightarrow> (Inl e, db)
     | (Inr origin, db2) \<Rightarrow> (Inr (app_of [origin] (new_app B now t md req (next_id db))), db2)) = (Inr x, db')"
    using assms unfolding CreateApp_def Let_def by (auto split: if_splits option.splits)
  then obtain y where y: "insertOrigin B now (a_tenant (new_app B now t md req (next_id db))) (a_id (new_app B now t md req (next_id db))) u
        (db\<lparr>apps := apps db @ [new_app B now t md req (next_id db)], next_id := Suc (next_id db)\<rparr>) = (Inr y, db')"
    "x = app_of [y] (new_app B now t md req (next_id db))"
    by (auto split: prod.splits sum.splits)
  have a: "a_id (new_app B now t md req (next_id db)) = be_gen B (next_id db)" "a_tenant (new_app B now t md req (next_id db)) = t"
    "a_slug (new_app B now t md req (next_id db)) = ca_Slug req" "a_hostnames (new_app B now t md req (next_id db)) = ca_Hostnames req"
    "a_deleted (new_app B now t md req (next_id db)) = None" "a_status (new_app B now t md req (next_id db)) = ''active''"
    by (simp_all add: new_app_def)
  from y(1) show thesis by (rule insertOrigin_ok) (rule that [of _ "new_app B now t md req (next_id db)"], use t y(2) a in auto)
qed

lemma update_app_tx_ok:
  assumes "update_app_tx B now t i c md u db = (Inr x, db')"
  obtains a where "find (live_app t i) (apps db) = Some a" "a_id a = i" "a_tenant a = t"
    "u = None \<Longrightarrow> x = app_of (listOrigins i db) (update_app_row now c md a)"
    "u = None \<Longrightarrow> db' = db\<lparr>apps := update_row (live_app t i) (update_app_row now c md) (apps db)\<rparr>"
    "\<And>v. u = Some v \<Longrightarrow> \<exists>y. insertOrigin B now t i v
       (retire_origins now t i (db\<lparr>apps := update_row (live_app t i) (update_app_row now c md) (apps db)\<rparr>)) = (Inr y, db')"
proof -
  obtain a where a: "find (live_app t i) (apps db) = Some a"
    using assms by (cases "find (live_app t i) (apps db)") (auto simp: update_app_tx_def)
  then have k: "a_id a = i" "a_tenant a = t" using find_live [OF a] by (auto simp: live_app_def)
  have u: "a_id (update_app_row now c md a) = i" "a_tenant (update_app_row now c md a) = t" by (simp_all add: update_app_row_def k)
  have l: "listOrigins i (db\<lparr>apps := w\<rparr>) = listOrigins i db" for w by (simp add: listOrigins_def)
  show thesis using assms that [OF a k] unfolding update_app_tx_def a Let_def
    by (auto simp: u l split: option.splits prod.splits sum.splits)
qed

lemma UpdateApp_ok:
  assumes "UpdateApp B now t i req u db = (Inr x, db')"
  obtains t' i' c md where "be_uuid B t = Some t'" "be_uuid B i = Some i'" "ma_Status c \<in> {''active'', ''disabled''}"
    "update_app_tx B now t' i' c md u db = (Inr x, db')"
  using assms unfolding UpdateApp_def Let_def
  by (auto split: sum.splits if_splits option.splits intro: that)

lemma GetApp_Inr:
  assumes "GetApp B t i db = Inr x"
  obtains t' i' a where "be_uuid B t = Some t'" "be_uuid B i = Some i'" "find (live_app t' i') (apps db) = Some a"
    "x = app_of (listOrigins i' db) a" "a \<in> set (apps db)" "a_id a = i'" "a_tenant a = t'"
proof -
  obtain t' i' a where a: "be_uuid B t = Some t'" "be_uuid B i = Some i'" "find (live_app t' i') (apps db) = Some a"
    "x = app_of (listOrigins (a_id a) db) a"
    using assms by (auto simp: GetApp_def split: option.splits)
  then show thesis using find_live [OF a(3)] by (intro that [OF a(1-3)]) (auto simp: live_app_def)
qed

lemma CreatePolicy_ok:
  assumes "CreatePolicy B now t i req db = (Inr x, db')"
  obtains a p where "be_uuid B t = Some (a_tenant a)" "be_uuid B i = Some (a_id a)" "a \<in> set (apps db)"
    "be_uuid B (a_tenant a) = Some (p_tenant p)"
    "db' = db\<lparr>policies := policies db @ [p], next_id := Suc (next_id db)\<rparr>"
    "x = policy_of (Some (metadata_or_empty (cp_Snapshot req))) p" "p_id p = be_gen B (next_id db)" "p_app p = a_id a"
    "p_active p = None" "p_deleted p = None" "known_mode (p_mode p)"
    "(p_app p, p_name p) \<notin> (\<lambda>p. (p_app p, p_name p)) ` set (policies db)"
proof -
  obtain app where app: "GetApp B t i db = Inr app" using assms by (cases "GetApp B t i db") (auto simp: CreatePolicy_def)
  then obtain a where a: "be_uuid B t = Some (a_tenant a)" "be_uuid B i = Some (a_id a)" "a \<in> set (apps db)" "ma_TenantID app = a_tenant a"
    by (auto elim!: GetApp_Inr simp: app_of_def)
  show thesis using assms a(2) unfolding CreatePolicy_def app Let_def sum.case a(4)
    by (auto split: sum.splits option.splits if_splits intro!: that [OF a(1-3)])
qed

lemma getPolicyForUpdate_Inr:
  assumes "getPolicyForUpdate B t i db = Inr x"
  obtains t' i' p where "be_uuid B t = Some t'" "be_uuid B i = Some i'" "find (live_policy t' i') (policies db) = Some p"
    "x = with_snapshot p" "p \<in> set (policies db)" "p_id p = i'" "p_tenant p = t'" "p_deleted p = None"
proof -
  obtain t' i' p where p: "be_uuid B t = Some t'" "be_uuid B i = Some i'" "find (live_policy t' i') (policies db) = Some p" "x = with_snapshot p"
    using assms by (auto simp: getPolicyForUpdate_def split: option.splits)
  then show thesis using find_live [OF p(3)] by (intro that [OF p]) (auto simp: live_policy_def)
qed

lemma UpdatePolicy_ok:
  assumes "UpdatePolicy B now t i req db = (Inr x, db')"
  obtains t' i' p c md where "be_uuid B t = Some t'" "be_uuid B i = Some i'" "find (live_policy t' i') (policies db) = Some p"
    "p_updated p = up_ExpectedUpdatedAt req" "known_mode (mp_Mode c)" "\<not> name_taken db p (mp_Name c)"
    "c = patched_policy req (with_snapshot p)" "be_jsonb B (JObj [(''snapshot'', defaultRaw (mp_Snapshot c) (JObj []))]) = Some md"
    "x = with_snapshot (update_policy_row now c md p)"
    "db' = db\<lparr>policies := update_row (live_policy t' i') (update_policy_row now c md) (policies db)\<rparr>"
proof -
  obtain y where y: "getPolicyForUpdate B t i db = Inr y" using assms by (cases "getPolicyForUpdate B t i db") (auto simp: UpdatePolicy_def)
  then obtain t' i' p where p: "be_uuid B t = Some t'" "be_uuid B i = Some i'" "find (live_policy t' i') (policies db) = Some p" "y = with_snapshot p"
    by (rule getPolicyForUpdate_Inr)
  have m: "metadataWithSnapshot None snap = Inr (JObj [(''snapshot'', defaultRaw snap (JObj []))])" for snap
    by (simp add: metadataWithSnapshot_def)
  have u: "mp_UpdatedAt y = p_updated p" by (simp add: p(4) with_snapshot_def policy_of_def)
  show thesis using assms unfolding UpdatePolicy_def y Let_def m sum.case p(1-3) option.case prod.case u
    by (auto split: if_splits option.splits intro!: that [OF p(1-3)] simp: p(4))
qed

lemma PublishPolicy_ok:
  assumes "PublishPolicy B now t i db = (Inr x, db')"
  obtains t' i' p gp stored where "be_uuid B t = Some t'" "be_uuid B i = Some i'" "find (live_policy t' i') (policies db) = Some p"
    "p \<in> set (policies db)" "p_id p = i'" "p_tenant p = t'" "p_deleted p = None" "next_version i' db \<le> 2147483647"
    "compileGatewayPolicy (be_unicode B) (with_snapshot p) (be_gen B (next_id db)) db = Inr gp"
    "be_jsonb B (policy_json (be_rfc B) (gp\<lparr>mg_PublishedAt := now\<rparr>)) = Some stored"
    "x = \<lparr>pp_PolicyID = i', pp_PolicyVersionID = be_gen B (next_id db), pp_Version = next_version i' db, pp_PublishedAt = now\<rparr>"
    "db' = deploy B now (with_snapshot p) (be_gen B (next_id db)) (activate_version now t' i' (be_gen B (next_id db))
       (db\<lparr>versions := versions db @ [version_row_of B now (with_snapshot p) (be_gen B (next_id db)) (next_version i' db)
              (policy_json (be_rfc B) (gp\<lparr>mg_PublishedAt := now\<rparr>)) stored], next_id := Suc (next_id db)\<rparr>))"
proof -
  obtain y where y: "getPolicyForUpdate B t i db = Inr y" using assms by (cases "getPolicyForUpdate B t i db") (auto simp: PublishPolicy_def)
  then obtain t' i' p where p: "be_uuid B t = Some t'" "be_uuid B i = Some i'" "find (live_policy t' i') (policies db) = Some p" "y = with_snapshot p"
    "p \<in> set (policies db)" "p_id p = i'" "p_tenant p = t'" "p_deleted p = None"
    by (rule getPolicyForUpdate_Inr)
  have u: "mp_ID (with_snapshot p) = i'" by (simp add: p(6) with_snapshot_def policy_of_def)
  show thesis using assms unfolding PublishPolicy_def y Let_def sum.case p(1,2,4) option.case prod.case u
    by (auto split: if_splits option.splits sum.splits intro!: that [OF p(1-3,5-8)])
qed

lemma failures_change_nothing:
  "CreateTenant B now r1 db = (Inl e, db') \<Longrightarrow> db' = db"
  "CreateApp B now r2 u db = (Inl e, db') \<Longrightarrow> db' = db"
  "UpdateApp B now t i r3 v db = (Inl e, db') \<Longrightarrow> db' = db"
  "CreatePolicy B now t i r4 db = (Inl e, db') \<Longrightarrow> db' = db"
  "UpdatePolicy B now t i r5 db = (Inl e, db') \<Longrightarrow> db' = db"
  "PublishPolicy B now t i db = (Inl e, db') \<Longrightarrow> db' = db"
  by (auto simp: CreateTenant_def CreateApp_def UpdateApp_def update_app_tx_def CreatePolicy_def UpdatePolicy_def PublishPolicy_def Let_def
      split: if_splits option.splits sum.splits prod.splits)

end
