(* ===== verification/Control_Db_Invariant.thy ===== *)
theory Control_Db_Invariant
  imports Control_Db_Facts
begin

text \<open>
  The invariant of the database of the control plane, and that every call of the repository keeps it.
\<close>

section \<open>The invariant of the database\<close>

abbreviation app_keys :: "database \<Rightarrow> (string \<times> string) list" where
  "app_keys db \<equiv> map (\<lambda>a. (a_id a, a_tenant a)) (apps db)"

abbreviation policy_keys :: "database \<Rightarrow> (string \<times> string \<times> string) list" where
  "policy_keys db \<equiv> map (\<lambda>p. (p_id p, p_tenant p, p_app p)) (policies db)"

definition ids_ok :: "backend \<Rightarrow> nat \<Rightarrow> string list \<Rightarrow> bool" where
  "ids_ok B n ids \<longleftrightarrow> distinct ids \<and> set ids \<subseteq> be_gen B ` {..<n}"

definition ids_inv :: "backend \<Rightarrow> database \<Rightarrow> bool" where
  "ids_inv B db \<longleftrightarrow> (\<forall>ids \<in> {map t_id (tenants db), map a_id (apps db), map o_id (origins db), map p_id (policies db),
     map v_id (versions db), map d_id (deployments db)}. ids_ok B (next_id db) ids)"

text \<open>Rows belong to existing rows of the same tenant.\<close>

definition owner_inv :: "database \<Rightarrow> bool" where
  "owner_inv db \<longleftrightarrow>
     a_tenant ` set (apps db) \<subseteq> t_id ` set (tenants db) \<and>
     (\<lambda>r. (o_app r, o_tenant r)) ` set (origins db) \<subseteq> set (app_keys db) \<and>
     (\<lambda>p. (p_app p, p_tenant p)) ` set (policies db) \<subseteq> set (app_keys db) \<and>
     (\<lambda>v. (v_policy v, v_tenant v, v_app v)) ` set (versions db) \<subseteq> set (policy_keys db) \<and>
     (\<lambda>d. (d_policy d, d_tenant d, d_app d)) ` set (deployments db) \<subseteq> set (policy_keys db)"

text \<open>Every app has one primary origin, which is never retired.\<close>

definition origin_inv :: "database \<Rightarrow> bool" where
  "origin_inv db \<longleftrightarrow>
     list_all (\<lambda>r. o_name r = ''primary'' \<and> o_deleted r = None \<and> o_enabled r \<and> o_scheme r \<in> {''http'', ''https''} \<and>
       1 \<le> o_port r \<and> o_port r \<le> 65535) (origins db) \<and>
     map o_app (origins db) = map a_id (apps db)"

text \<open>The versions of a policy are numbered from one; the policy and its deployment point to the latest.\<close>

definition versions_of :: "string \<Rightarrow> database \<Rightarrow> version_row list" where
  "versions_of i db = filter (\<lambda>v. v_policy v = i) (versions db)"

definition latest :: "string \<Rightarrow> database \<Rightarrow> string option" where
  "latest i db = (if versions_of i db = [] then None else Some (v_id (last (versions_of i db))))"

definition version_inv :: "database \<Rightarrow> bool" where
  "version_inv db \<longleftrightarrow>
     (\<forall>i. map v_version (versions_of i db) = map int [1..<Suc (length (versions_of i db))]) \<and>
     (\<forall>p \<in> set (policies db). p_active p = latest (p_id p) db) \<and>
     distinct (map d_policy (deployments db)) \<and> d_policy ` set (deployments db) = v_policy ` set (versions db) \<and>
     (\<forall>d \<in> set (deployments db). d_node d = ''default'' \<and> d_status d = ''active'' \<and> latest (d_policy d) db = Some (d_version d))"

text \<open>The unique keys and checks of the schema.\<close>

definition schema_inv :: "database \<Rightarrow> bool" where
  "schema_inv db \<longleftrightarrow> distinct (map t_slug (tenants db)) \<and> distinct (map (\<lambda>a. (a_tenant a, a_slug a)) (apps db)) \<and>
     distinct (map (\<lambda>p. (p_app p, p_name p)) (policies db)) \<and> list_all (\<lambda>p. known_mode (p_mode p)) (policies db) \<and>
     list_all (\<lambda>a. a_status a \<in> {''active'', ''disabled''}) (apps db)"

definition db_inv :: "backend \<Rightarrow> database \<Rightarrow> bool" where
  "db_inv B db \<longleftrightarrow> ids_inv B db \<and> owner_inv db \<and> origin_inv db \<and> version_inv db \<and> schema_inv db"

lemmas db_inv_defs = ids_inv_def owner_inv_def origin_inv_def version_inv_def schema_inv_def

lemma ids_ok_fresh:
  assumes "generated_ids B" "ids_ok B n ids"
  shows "be_gen B n \<notin> set ids"
proof
  assume "be_gen B n \<in> set ids"
  then obtain m where "m < n" "be_gen B n = be_gen B m" using assms(2) unfolding ids_ok_def by blast
  then show False using assms(1) unfolding generated_ids_def by (metis injD less_irrefl)
qed

lemma ids_ok_snoc [simp]: "generated_ids B \<Longrightarrow> ids_ok B n ids \<Longrightarrow> ids_ok B (Suc n) (ids @ [be_gen B n])"
  using ids_ok_fresh [of B n ids] by (auto simp: ids_ok_def)

lemma ids_ok_mono: "ids_ok B n ids \<Longrightarrow> n \<le> m \<Longrightarrow> ids_ok B m ids"
  by (force simp: ids_ok_def)

lemma ids_ok_Suc [simp]: "ids_ok B n ids \<Longrightarrow> ids_ok B (Suc n) ids"
  by (rule ids_ok_mono [of B n]) simp_all

lemma versions_of_frame [simp]:
  "versions_of i (db\<lparr>tenants := ts\<rparr>) = versions_of i db" "versions_of i (db\<lparr>apps := as\<rparr>) = versions_of i db"
  "versions_of i (db\<lparr>origins := os\<rparr>) = versions_of i db" "versions_of i (db\<lparr>policies := ps\<rparr>) = versions_of i db"
  "versions_of i (db\<lparr>deployments := ds\<rparr>) = versions_of i db" "versions_of i (db\<lparr>next_id := n\<rparr>) = versions_of i db"
  by (simp_all add: versions_of_def)

lemma latest_frame [simp]:
  "latest i (db\<lparr>tenants := ts\<rparr>) = latest i db" "latest i (db\<lparr>apps := as\<rparr>) = latest i db"
  "latest i (db\<lparr>origins := os\<rparr>) = latest i db" "latest i (db\<lparr>policies := ps\<rparr>) = latest i db"
  "latest i (db\<lparr>deployments := ds\<rparr>) = latest i db" "latest i (db\<lparr>next_id := n\<rparr>) = latest i db"
  by (simp_all add: latest_def)

lemma update_row_keys [simp]:
  "(\<And>r. g (f r) = g r) \<Longrightarrow> map g (update_row sel f rows) = map g rows"
  by (simp add: update_row_def)

lemma update_row_image: "(\<And>r. g (f r) = g r) \<Longrightarrow> g ` set (update_row sel f rows) = g ` set rows"
  using update_row_keys [of g f sel rows] by (metis list.set_map)

section \<open>Every call keeps it\<close>

lemma tenant_row_keeps:
  assumes "db_inv B db" "generated_ids B" "t_id t = be_gen B (next_id db)" "t_slug t \<notin> t_slug ` set (tenants db)"
  shows "db_inv B (db\<lparr>tenants := tenants db @ [t], next_id := Suc (next_id db)\<rparr>)"
  using assms by (auto simp: db_inv_def db_inv_defs)

lemma app_rows_keep:
  assumes "db_inv B db" "generated_ids B" "a_id a = be_gen B (next_id db)" "a_tenant a \<in> t_id ` set (tenants db)"
    "a_status a = ''active''" "(a_tenant a, a_slug a) \<notin> (\<lambda>a. (a_tenant a, a_slug a)) ` set (apps db)"
    "o_id r = be_gen B (Suc (next_id db))" "o_tenant r = a_tenant a" "o_app r = a_id a" "o_name r = ''primary''"
    "o_deleted r = None" "o_enabled r" "o_scheme r \<in> {''http'', ''https''}" "1 \<le> o_port r" "o_port r \<le> 65535"
  shows "db_inv B (db\<lparr>apps := apps db @ [a], origins := origins db @ [r], next_id := Suc (Suc (next_id db))\<rparr>)"
  using assms by (auto simp: db_inv_def db_inv_defs)

lemma app_update_keeps:
  assumes "db_inv B db" "ma_Status c \<in> {''active'', ''disabled''}"
  shows "db_inv B (db\<lparr>apps := update_row sel (update_app_row now c md) (apps db)\<rparr>)"
proof -
  have k: "map g (update_row sel (update_app_row now c md) (apps db)) = map g (apps db)"
    if "g \<in> {a_id, a_tenant, a_slug}" for g :: "app_row \<Rightarrow> string" using that by (auto simp: update_app_row_def)
  have k2: "map (\<lambda>a. (a_id a, a_tenant a)) (update_row sel (update_app_row now c md) (apps db)) = app_keys db"
    "map (\<lambda>a. (a_tenant a, a_slug a)) (update_row sel (update_app_row now c md) (apps db)) = map (\<lambda>a. (a_tenant a, a_slug a)) (apps db)"
    by (simp_all add: update_app_row_def)
  have k3: "a_tenant ` set (update_row sel (update_app_row now c md) (apps db)) = a_tenant ` set (apps db)"
    by (rule update_row_image) (simp add: update_app_row_def)
  have "list_all (\<lambda>a. a_status a \<in> {''active'', ''disabled''}) (update_row sel (update_app_row now c md) (apps db))"
    using assms by (auto simp: db_inv_def schema_inv_def list_all_iff update_row_def update_app_row_def)
  then show ?thesis
    using assms(1) k [of a_id] k2 k3 by (simp add: db_inv_def db_inv_defs)
qed

lemma policy_row_keeps:
  assumes "db_inv B db" "generated_ids B" "p_id p = be_gen B (next_id db)" "(p_app p, p_tenant p) \<in> set (app_keys db)"
    "p_active p = None" "known_mode (p_mode p)" "(p_app p, p_name p) \<notin> (\<lambda>p. (p_app p, p_name p)) ` set (policies db)"
  shows "db_inv B (db\<lparr>policies := policies db @ [p], next_id := Suc (next_id db)\<rparr>)"
proof -
  have ids: "ids_ok B (next_id db) (map p_id (policies db))" using assms(1) by (simp add: db_inv_def ids_inv_def)
  have new: "p_id p \<notin> p_id ` set (policies db)"
    using ids_ok_fresh [OF assms(2) ids] assms(3) by simp
  have "v_policy v \<noteq> p_id p" if "v \<in> set (versions db)" for v
  proof -
    have "v_policy v \<in> p_id ` set (policies db)" using that assms(1) by (force simp: db_inv_def owner_inv_def)
    with new show ?thesis by metis
  qed
  then have "versions_of (p_id p) db = []" by (auto simp: versions_of_def filter_empty_conv)
  then have "latest (p_id p) db = None" by (simp add: latest_def)
  then show ?thesis using assms by (auto simp: db_inv_def db_inv_defs)
qed

lemma policy_update_keeps:
  assumes inv: "db_inv B db" and p: "p \<in> set (policies db)" "p_id p = i" and mode: "known_mode (mp_Mode c)"
    and free: "\<not> name_taken db p (mp_Name c)"
  shows "db_inv B (db\<lparr>policies := update_row (live_policy t i) (update_policy_row now c md) (policies db)\<rparr>)"
proof -
  let ?upd = "\<lambda>q. if live_policy t i q then update_policy_row now c md q else q"
  have k: "map (\<lambda>p. (p_id p, p_tenant p, p_app p)) (update_row (live_policy t i) (update_policy_row now c md) (policies db)) = policy_keys db"
    "map p_id (update_row (live_policy t i) (update_policy_row now c md) (policies db)) = map p_id (policies db)"
    by (simp_all add: update_policy_row_def)
  have img: "(\<lambda>p. (p_app p, p_tenant p)) ` set (update_row (live_policy t i) (update_policy_row now c md) (policies db)) =
      (\<lambda>p. (p_app p, p_tenant p)) ` set (policies db)"
    by (rule update_row_image) (simp add: update_policy_row_def)
  have ids: "distinct (map p_id (policies db))" using inv by (simp add: db_inv_def ids_inv_def ids_ok_def)
  have names: "inj_on (\<lambda>p. (p_app p, p_name p)) (set (policies db))" "distinct (policies db)"
    using inv by (auto simp: db_inv_def schema_inv_def distinct_map)
  have other: "(p_app q, p_name q) \<noteq> (p_app r, mp_Name c)" if "q \<in> set (policies db)" "r \<in> set (policies db)" "live_policy t i r" "q \<noteq> r" for q r
  proof -
    have "r = p" using ids that(2,3) p by (auto simp: live_policy_def distinct_map inj_on_def)
    moreover have "p_id q \<noteq> p_id r" using ids that by (auto simp: distinct_map inj_on_def)
    ultimately show ?thesis using free that(1) by (auto simp: name_taken_def list_ex_iff)
  qed
  have "inj_on (\<lambda>q. (p_app (?upd q), p_name (?upd q))) (set (policies db))"
  proof (rule inj_onI)
    fix q r assume qr: "q \<in> set (policies db)" "r \<in> set (policies db)" "(p_app (?upd q), p_name (?upd q)) = (p_app (?upd r), p_name (?upd r))"
    show "q = r"
    proof (rule ccontr)
      assume "q \<noteq> r"
      moreover have "\<not> (live_policy t i q \<and> live_policy t i r)" using ids qr(1,2) calculation by (auto simp: live_policy_def distinct_map inj_on_def)
      ultimately show False using other [of q r] other [of r q] names(1) qr
        by (auto simp: update_policy_row_def inj_on_def split: if_splits)
    qed
  qed
  then have "distinct (map (\<lambda>p. (p_app p, p_name p)) (update_row (live_policy t i) (update_policy_row now c md) (policies db)))"
    using names(2) by (simp add: update_row_def distinct_map comp_def)
  moreover have "list_all (\<lambda>p. known_mode (p_mode p)) (update_row (live_policy t i) (update_policy_row now c md) (policies db))"
    using inv mode by (auto simp: db_inv_def schema_inv_def list_all_iff update_row_def update_policy_row_def)
  moreover have "\<forall>q \<in> set (update_row (live_policy t i) (update_policy_row now c md) (policies db)). p_active q = latest (p_id q) db"
    using inv by (auto simp: db_inv_def version_inv_def update_row_def update_policy_row_def)
  ultimately show ?thesis
    using inv k img by (simp add: db_inv_def db_inv_defs)
qed

lemma foldr_max_upto: "foldr max (map int [1..<Suc n]) 0 = int n"
proof -
  have "foldr max (map int [1..<Suc n]) k = max k (int n)" if "0 \<le> k" for k
    using that by (induction n arbitrary: k) (auto simp: max_def)
  then show ?thesis by simp
qed

lemma versions_numbered: "db_inv B db \<Longrightarrow> map v_version (versions_of i db) = map int [1..<Suc (length (versions_of i db))]"
  unfolding db_inv_def version_inv_def by blast

lemma next_version_length:
  assumes "db_inv B db"
  shows "next_version i db = int (length (versions_of i db)) + 1"
  using foldr_max_upto [of "length (versions_of i db)"]
  unfolding next_version_def versions_of_def [symmetric] versions_numbered [OF assms] by (rule arg_cong)

lemma versions_of_snoc [simp]:
  "versions_of j (db\<lparr>versions := vs @ [v]\<rparr>) = versions_of j (db\<lparr>versions := vs\<rparr>) @ (if v_policy v = j then [v] else [])"
  by (simp add: versions_of_def)

text \<open>The database that \<open>PublishPolicy\<close> leaves for a row and the policy with that row.\<close>

abbreviation published :: "backend \<Rightarrow> int \<Rightarrow> policy_row \<Rightarrow> version_row \<Rightarrow> database \<Rightarrow> database" where
  "published B now p v db \<equiv> deploy B now (with_snapshot p) (v_id v) (activate_version now (p_tenant p) (p_id p) (v_id v)
     (db\<lparr>versions := versions db @ [v], next_id := Suc (next_id db)\<rparr>))"

lemma with_snapshot_keys [simp]:
  "mp_ID (with_snapshot p) = p_id p" "mp_TenantID (with_snapshot p) = p_tenant p" "mp_AppID (with_snapshot p) = p_app p"
  "mp_Mode (with_snapshot p) = p_mode p" "mp_UpdatedAt (with_snapshot p) = p_updated p"
  by (simp_all add: with_snapshot_def policy_of_def)

lemma published_tables:
  "tenants (published B now p v db) = tenants db" "apps (published B now p v db) = apps db"
  "origins (published B now p v db) = origins db" "versions (published B now p v db) = versions db @ [v]"
  "policies (published B now p v db) = update_row (\<lambda>q. p_tenant q = p_tenant p \<and> p_id q = p_id p)
     (\<lambda>q. q\<lparr>p_active := Some (v_id v), p_updated := now\<rparr>) (policies db)"
  "Suc (next_id db) \<le> next_id (published B now p v db)"
  by (simp_all add: deploy_def activate_version_def)

lemma published_policy_keys: "policy_keys (published B now p v db) = policy_keys db" "map p_id (policies (published B now p v db)) = map p_id (policies db)"
  by (simp_all add: published_tables)

lemma published_deployments:
  assumes "db_inv B db"
  shows "deployments (published B now p v db) =
    (if p_id p \<in> d_policy ` set (deployments db)
     then update_row (\<lambda>d. d_policy d = p_id p) (\<lambda>d. d\<lparr>d_version := v_id v, d_status := ''active'', d_deployed := now, d_updated := now\<rparr>) (deployments db)
     else deployments db @ [\<lparr>d_id = be_gen B (Suc (next_id db)), d_tenant = p_tenant p, d_app = p_app p, d_policy = p_id p, d_version = v_id v,
       d_node = ''default'', d_status = ''active'', d_deployed = now, d_seen = Some now, d_created = now, d_updated = now\<rparr>])"
proof -
  have n: "d_node d = ''default''" if "d \<in> set (deployments db)" for d using assms that by (simp add: db_inv_def version_inv_def)
  then have "list_ex (\<lambda>d. d_policy d = p_id p \<and> d_node d = ''default'') (deployments db) \<longleftrightarrow> p_id p \<in> d_policy ` set (deployments db)"
    by (simp add: list_ex_iff image_iff) (metis n)
  moreover have "update_row (\<lambda>d. d_policy d = p_id p \<and> d_node d = ''default'') f (deployments db) = update_row (\<lambda>d. d_policy d = p_id p) f (deployments db)" for f
    unfolding update_row_def using n by (intro map_cong) auto
  ultimately show ?thesis by (simp add: deploy_def activate_version_def)
qed

lemma published_ids:
  assumes "db_inv B db" "generated_ids B" "v_id v = be_gen B (next_id db)"
  shows "ids_inv B (published B now p v db)"
proof -
  have old: "ids_ok B (next_id db) ids" if "ids \<in> {map t_id (tenants db), map a_id (apps db), map o_id (origins db), map p_id (policies db),
     map v_id (versions db), map d_id (deployments db)}" for ids using assms(1) that unfolding db_inv_def ids_inv_def by blast
  note up = ids_ok_mono [OF _ published_tables(6) [of db B now p v]]
  have "ids_ok B (next_id (published B now p v db)) (map d_id (deployments (published B now p v db)))"
  proof (cases "p_id p \<in> d_policy ` set (deployments db)")
    case True
    then show ?thesis using up [OF ids_ok_Suc [OF old]] by (simp add: published_deployments [OF assms(1)])
  next
    case False
    then have "\<not> list_ex (\<lambda>d. d_policy d = p_id p \<and> d_node d = ''default'') (deployments db)"
      unfolding list_ex_iff by (metis imageI)
    then have "next_id (published B now p v db) = Suc (Suc (next_id db))"
      by (simp add: deploy_def activate_version_def)
    with False show ?thesis using assms(2) old [of "map d_id (deployments db)"] by (simp add: published_deployments [OF assms(1)])
  qed
  moreover have "ids_ok B (Suc (next_id db)) (map v_id (versions db) @ [v_id v])" using assms(2,3) old by simp
  ultimately show ?thesis
    using up [OF ids_ok_Suc [OF old]] up unfolding ids_inv_def published_tables(1-4) published_policy_keys by simp
qed

lemma published_versions:
  assumes inv: "db_inv B db" and p: "p \<in> set (policies db)" and v: "v_policy v = p_id p" "v_version v = next_version (p_id p) db"
  shows "version_inv (published B now p v db)"
proof -
  let ?db = "published B now p v db"
  have vo: "versions_of j ?db = versions_of j db @ (if j = p_id p then [v] else [])" for j
    using v(1) unfolding versions_of_def published_tables by auto
  then have la: "latest j ?db = (if j = p_id p then Some (v_id v) else latest j db)" for j by (simp add: latest_def)
  have "map v_version (versions_of j ?db) = map int [1..<Suc (length (versions_of j ?db))]" for j
    using versions_numbered [OF inv, of j] next_version_length [OF inv, of "p_id p"] v(2) by (simp add: vo)
  moreover have "\<forall>q \<in> set (policies ?db). p_active q = latest (p_id q) ?db"
  proof -
    have same: "p_tenant q = p_tenant p" if "q \<in> set (policies db)" "p_id q = p_id p" for q
      using inv p that by (auto simp: db_inv_def ids_inv_def ids_ok_def distinct_map inj_on_def)
    then show ?thesis using inv unfolding published_tables la by (auto simp: update_row_def db_inv_def version_inv_def)
  qed
  moreover have "distinct (map d_policy (deployments ?db)) \<and> d_policy ` set (deployments ?db) = v_policy ` set (versions ?db)"
  proof -
    have d: "distinct (map d_policy (deployments db))" "d_policy ` set (deployments db) = v_policy ` set (versions db)"
      using inv by (simp_all add: db_inv_def version_inv_def)
    have "d_policy ` set (update_row s f (deployments db)) = d_policy ` set (deployments db)" if "\<And>d. d_policy (f d) = d_policy d" for s f
      using that by (rule update_row_image)
    then show ?thesis using d v(1) by (auto simp: published_deployments [OF inv] published_tables)
  qed
  moreover have "\<forall>d \<in> set (deployments ?db). d_node d = ''default'' \<and> d_status d = ''active'' \<and> latest (d_policy d) ?db = Some (d_version d)"
  proof -
    have "\<forall>d \<in> set (deployments db). d_node d = ''default'' \<and> d_status d = ''active'' \<and> latest (d_policy d) db = Some (d_version d)"
      using inv unfolding db_inv_def version_inv_def by blast
    moreover have "p_id p \<notin> d_policy ` set (deployments db) \<Longrightarrow> d \<in> set (deployments db) \<Longrightarrow> d_policy d \<noteq> p_id p" for d by (metis imageI)
    ultimately show ?thesis unfolding published_deployments [OF inv] la by (auto simp: update_row_def)
  qed
  ultimately show ?thesis unfolding version_inv_def by blast
qed

lemma publish_keeps:
  assumes inv: "db_inv B db" "generated_ids B" and p: "p \<in> set (policies db)"
    and v: "v_id v = be_gen B (next_id db)" "v_policy v = p_id p" "v_tenant v = p_tenant p" "v_app v = p_app p" "v_version v = next_version (p_id p) db"
  shows "db_inv B (published B now p v db)"
proof -
  let ?db = "published B now p v db"
  have key: "(p_id p, p_tenant p, p_app p) \<in> set (policy_keys db)" using p by auto
  have "(\<lambda>d. (d_policy d, d_tenant d, d_app d)) ` set (deployments ?db) \<subseteq> set (policy_keys db)"
  proof -
    have "(\<lambda>d. (d_policy d, d_tenant d, d_app d)) ` set (update_row s f (deployments db)) = (\<lambda>d. (d_policy d, d_tenant d, d_app d)) ` set (deployments db)"
      if "\<And>d. (d_policy (f d), d_tenant (f d), d_app (f d)) = (d_policy d, d_tenant d, d_app d)" for s f
      using that by (rule update_row_image)
    moreover have "(\<lambda>d. (d_policy d, d_tenant d, d_app d)) ` set (deployments db) \<subseteq> set (policy_keys db)" using inv(1) unfolding db_inv_def owner_inv_def by blast
    ultimately show ?thesis using key unfolding published_deployments [OF inv(1)] by (auto simp del: update_row_keys)
  qed
  moreover have "(\<lambda>q. (p_app q, p_tenant q)) ` set (policies ?db) = (\<lambda>q. (p_app q, p_tenant q)) ` set (policies db)"
    unfolding published_tables by (rule update_row_image) simp
  ultimately have "owner_inv ?db"
    using inv(1) key v(2-4) unfolding db_inv_def owner_inv_def published_policy_keys published_tables by auto
  moreover have "schema_inv ?db" "origin_inv ?db"
    using inv(1) by (auto simp: db_inv_def schema_inv_def origin_inv_def published_tables list_all_iff) (auto simp: update_row_def)
  ultimately show ?thesis
    unfolding db_inv_def using published_ids [OF inv v(1)] published_versions [OF inv(1) p v(2,5)] by blast
qed

lemma generated_uuid:
  assumes "generated_ids B" "db_inv B db" "x \<in> t_id ` set (tenants db)"
  shows "be_uuid B x = Some x"
proof -
  have "x \<in> be_gen B ` {..<next_id db}" using assms(2,3) by (auto simp: db_inv_def ids_inv_def ids_ok_def)
  then show ?thesis using assms(1) by (auto simp: generated_ids_def)
qed

text \<open>A new origin never finds the name free: the retired row keeps it.\<close>

lemma origin_replacement_fails:
  assumes inv: "db_inv B db" and a: "a \<in> set (apps db)" "a_id a = i"
  shows "\<exists>e db'. insertOrigin B now t i u (retire_origins now t i (db\<lparr>apps := as\<rparr>)) = (Inl e, db')"
proof -
  have "i \<in> o_app ` set (origins db)"
    using inv a unfolding db_inv_def origin_inv_def by (metis list.set_map imageI)
  then have "(i, ''primary'') \<in> (\<lambda>r. (o_app r, o_name r)) ` set (origins db)"
    using inv by (auto simp: db_inv_def origin_inv_def list_all_iff)
  moreover have "(\<lambda>r. (o_app r, o_name r)) ` set (origins (retire_origins now t i (db\<lparr>apps := as\<rparr>))) = (\<lambda>r. (o_app r, o_name r)) ` set (origins db)"
    unfolding retire_origins_def by (simp, rule update_row_image) simp
  ultimately show ?thesis by (auto simp: insertOrigin_def Let_def split: option.splits)
qed

lemma UpdateApp_keeps:
  assumes inv: "db_inv B db" and ok: "UpdateApp B now t i req w db = (Inr x, db')"
  shows "db_inv B db'"
  using ok
proof (rule UpdateApp_ok)
  fix t' i' c md
  assume c: "ma_Status c \<in> {''active'', ''disabled''}" and tx: "update_app_tx B now t' i' c md w db = (Inr x, db')"
  from tx show ?thesis
  proof (rule update_app_tx_ok)
    fix a
    assume a: "find (live_app t' i') (apps db) = Some a" "a_id a = i'"
      and none: "w = None \<Longrightarrow> db' = db\<lparr>apps := update_row (live_app t' i') (update_app_row now c md) (apps db)\<rparr>"
      and some: "\<And>v. w = Some v \<Longrightarrow> \<exists>y. insertOrigin B now t' i' v
       (retire_origins now t' i' (db\<lparr>apps := update_row (live_app t' i') (update_app_row now c md) (apps db)\<rparr>)) = (Inr y, db')"
    have "w = None"
    proof (cases w)
      case (Some v)
      then show ?thesis
        using some [OF Some] origin_replacement_fails [OF inv _ a(2), of now t' v "update_row (live_app t' i') (update_app_row now c md) (apps db)"]
          find_live [OF a(1)] by auto
    qed simp
    then show ?thesis using none app_update_keeps [OF inv c] by simp
  qed
qed

lemma CreatePolicy_keeps:
  assumes inv: "db_inv B db" "generated_ids B" and ok: "CreatePolicy B now t i req db = (Inr x, db')"
  shows "db_inv B db'"
  using ok
proof (rule CreatePolicy_ok)
  fix a p
  assume a: "a \<in> set (apps db)" "be_uuid B (a_tenant a) = Some (p_tenant p)" "p_app p = a_id a"
    and db': "db' = db\<lparr>policies := policies db @ [p], next_id := Suc (next_id db)\<rparr>"
    and p: "p_id p = be_gen B (next_id db)" "p_active p = None" "known_mode (p_mode p)"
      "(p_app p, p_name p) \<notin> (\<lambda>p. (p_app p, p_name p)) ` set (policies db)"
  have "a_tenant a \<in> t_id ` set (tenants db)" using inv(1) a(1) by (auto simp: db_inv_def owner_inv_def)
  then have "p_tenant p = a_tenant a" using generated_uuid [OF inv(2,1)] a(2) by simp
  then have "(p_app p, p_tenant p) \<in> set (app_keys db)" using a by auto
  then show ?thesis unfolding db' using policy_row_keeps [OF inv p(1) _ p(2-4)] by simp
qed

lemma PublishPolicy_keeps:
  assumes inv: "db_inv B db" "generated_ids B" and ok: "PublishPolicy B now t i db = (Inr x, db')"
  shows "db_inv B db'"
  using ok
proof (rule PublishPolicy_ok)
  fix t' i' p gp stored
  assume p: "p \<in> set (policies db)" "p_id p = i'" "p_tenant p = t'"
    and db': "db' = deploy B now (with_snapshot p) (be_gen B (next_id db)) (activate_version now t' i' (be_gen B (next_id db))
       (db\<lparr>versions := versions db @ [version_row_of B now (with_snapshot p) (be_gen B (next_id db)) (next_version i' db)
              (policy_json (be_rfc B) (gp\<lparr>mg_PublishedAt := now\<rparr>)) stored], next_id := Suc (next_id db)\<rparr>))"
  let ?v = "version_row_of B now (with_snapshot p) (be_gen B (next_id db)) (next_version i' db) (policy_json (be_rfc B) (gp\<lparr>mg_PublishedAt := now\<rparr>)) stored"
  have v: "v_id ?v = be_gen B (next_id db)" "v_policy ?v = p_id p" "v_tenant ?v = p_tenant p" "v_app ?v = p_app p" "v_version ?v = next_version (p_id p) db"
    using p by (simp_all add: version_row_of_def)
  show ?thesis using publish_keeps [OF inv p(1) v] unfolding db' v(1) p(2,3) .
qed

lemma call_keeps:
  assumes inv: "db_inv B db" "generated_ids B"
  shows "db_inv B (run_call B now c db)"
proof (cases c)
  case (CallCreateTenant req)
  then show ?thesis using inv failures_change_nothing(1) [of B now req db]
    by (cases "CreateTenant B now req db"; cases "fst (CreateTenant B now req db)") (auto elim!: CreateTenant_ok intro: tenant_row_keeps)
next
  case (CallCreateApp req u)
  then show ?thesis using inv failures_change_nothing(2) [of B now req u db]
    by (cases "CreateApp B now req u db"; cases "fst (CreateApp B now req u db)") (auto elim!: CreateApp_ok intro!: app_rows_keep)
next
  case (CallUpdateApp t i req w)
  then show ?thesis using inv failures_change_nothing(3) [of B now t i req w db] UpdateApp_keeps [OF inv(1)]
    by (cases "UpdateApp B now t i req w db"; cases "fst (UpdateApp B now t i req w db)") auto
next
  case (CallCreatePolicy t i req)
  then show ?thesis using inv failures_change_nothing(4) [of B now t i req db] CreatePolicy_keeps [OF inv]
    by (cases "CreatePolicy B now t i req db"; cases "fst (CreatePolicy B now t i req db)") auto
next
  case (CallUpdatePolicy t i req)
  then show ?thesis using inv failures_change_nothing(5) [of B now t i req db]
    by (cases "UpdatePolicy B now t i req db"; cases "fst (UpdatePolicy B now t i req db)")
      (auto elim!: UpdatePolicy_ok dest!: find_live intro!: policy_update_keeps simp: live_policy_def)
next
  case (CallPublishPolicy t i)
  then show ?thesis using inv failures_change_nothing(6) [of B now t i db] PublishPolicy_keeps [OF inv]
    by (cases "PublishPolicy B now t i db"; cases "fst (PublishPolicy B now t i db)") auto
qed

lemma empty_inv: "db_inv B empty_database"
  by (auto simp: db_inv_def db_inv_defs empty_database_def ids_ok_def versions_of_def latest_def)

text \<open>C12: However the repository is called, the database keeps its invariant: identifiers are unique, every row belongs to
  existing rows of its own tenant, every app keeps its primary origin, the versions of a policy are numbered from one
  without gaps, and a policy and its deployment always point to the latest version.\<close>

theorem repository_invariant:
  assumes "generated_ids B" "reachable B db"
  shows "db_inv B db"
  using assms(2) by induction (simp_all add: empty_inv call_keeps assms(1))

end
