(* ===== verification/Control_Db_Documents.thy ===== *)
theory Control_Db_Documents
  imports Control_Db_Invariant
begin

text \<open>
  What is stored as \<open>jsonb\<close> and read again: a published policy comes back as it was compiled.
\<close>

section \<open>Published policies read back\<close>

text \<open>What PostgreSQL documents of \<open>jsonb\<close>: strings and integers keep their value; an array keeps its elements; an object keeps its members, in some
  order and with each key once; reading what was stored changes nothing.  And a time that was written can be read.\<close>

definition jsonb_ok :: "backend \<Rightarrow> bool" where
  "jsonb_ok B \<longleftrightarrow>
     (\<forall>s j. be_jsonb B (JStr s) = Some j \<longrightarrow> j = JStr s) \<and> (\<forall>i j. be_jsonb B (JInt i) = Some j \<longrightarrow> j = JInt i) \<and>
     (\<forall>es j. be_jsonb B (JObj es) = Some j \<longrightarrow> (\<exists>es'. j = JObj es' \<and> distinct (map fst es') \<and>
        (distinct (map fst es) \<longrightarrow> mset (map (apsnd Some) es') = mset (map (apsnd (be_jsonb B)) es)))) \<and>
     (\<forall>js j. be_jsonb B (JArr js) = Some j \<longrightarrow> (\<exists>js'. j = JArr js' \<and> list_all2 (\<lambda>x y. be_jsonb B x = Some y) js js')) \<and>
     (\<forall>j k. be_jsonb B j = Some k \<longrightarrow> be_jsonb B k = Some k) \<and>
     (\<forall>t. be_unrfc B (be_rfc B t) = Some t)"

lemma jsonb_object:
  assumes "jsonb_ok B" "be_jsonb B (JObj es) = Some j" "distinct (map fst es)"
  obtains es' where "j = JObj es'" "distinct (map fst es')" "\<forall>e \<in> set es. be_jsonb B (snd e) \<noteq> None"
    "set es' = apsnd (the \<circ> be_jsonb B) ` set es"
proof -
  obtain es' where es': "j = JObj es'" "distinct (map fst es')" "mset (map (apsnd Some) es') = mset (map (apsnd (be_jsonb B)) es)"
    using assms unfolding jsonb_ok_def by blast
  have eq: "apsnd Some ` set es' = apsnd (be_jsonb B) ` set es" using es'(3) by (metis list.set_map set_mset_mset)
  have some: "be_jsonb B (snd e) \<noteq> None" if "e \<in> set es" for e
  proof -
    have "apsnd (be_jsonb B) e \<in> apsnd Some ` set es'" unfolding eq using that by (rule imageI)
    then show ?thesis by (cases e) auto
  qed
  have "set es' = apsnd the ` apsnd Some ` set es'" by (force simp: image_image)
  also have "\<dots> = apsnd (the \<circ> be_jsonb B) ` set es" unfolding eq image_image by (rule image_cong) (auto simp: apsnd_def map_prod_def split: prod.splits)
  finally show thesis using that es'(1,2) some by simp
qed

lemma jsonb_part:
  assumes "jsonb_ok B" "be_jsonb B (JObj es) = Some (JObj es)" "(k, v) \<in> set es"
  shows "be_jsonb B v = Some v"
proof -
  have d: "distinct (map fst es)" using assms(1,2) unfolding jsonb_ok_def by blast
  obtain es' where es': "JObj es = JObj es'" "distinct (map fst es')" "\<forall>e \<in> set es. be_jsonb B (snd e) \<noteq> None"
    "set es' = apsnd (the \<circ> be_jsonb B) ` set es"
    by (rule jsonb_object [OF assms(1,2) d])
  have "apsnd (the \<circ> be_jsonb B) (k, v) \<in> set es" using assms(3) es'(1,4) by (metis imageI json.inject(6))
  then have "the (be_jsonb B v) = v" using assms(3) d by (auto dest: eq_key_imp_eq_value)
  then show ?thesis using es'(3) assms(3) by (metis option.collapse snd_conv)
qed

lemma json_name_ascii: "is_ascii k \<Longrightarrow> json_name U k = field_key k"
  by (auto simp: json_name_def runes_ascii field_key_def fold_rune_def is_ascii_def list_all_iff)

lemma field_key_eq [simp]:
  "field_key [] = field_key t \<longleftrightarrow> t = []" "field_key (c # s) = field_key [] \<longleftrightarrow> False"
  "field_key (c # s) = field_key (d # t) \<longleftrightarrow> fold_ascii (byte c) = fold_ascii (byte d) \<and> field_key s = field_key t"
  by (auto simp: field_key_def)

lemma fold_opt_reads:
  assumes "fold_opt f es r = Some r'" "distinct (map fst es)" "(k, v) \<in> set es"
    and "\<And>r r1. f (k, v) r = Some r1 \<Longrightarrow> get r1 = x"
    and "\<And>e r r1. e \<in> set es \<Longrightarrow> fst e \<noteq> k \<Longrightarrow> f e r = Some r1 \<Longrightarrow> get r1 = get r"
  shows "get r' = x"
  using assms
proof (induction es arbitrary: r)
  case (Cons e es)
  from Cons.prems(1) obtain r1 where r1: "f e r = Some r1" "fold_opt f es r1 = Some r'" by (auto split: option.splits)
  show ?case
  proof (cases "e = (k, v)")
    case True
    then have "\<forall>e' \<in> set es. fst e' \<noteq> k" using Cons.prems(2) by (metis distinct.simps(2) fst_conv image_eqI list.set_map list.simps(9))
    then have "get r' = get r1"
      by (intro fold_opt_invariant [OF r1(2), where P = "\<lambda>q. get q = get r1"]) (use Cons.prems(5) in \<open>metis list.set_intros(2)\<close>)+
    then show ?thesis using Cons.prems(4) r1(1) True by simp
  next
    case False
    show ?thesis
    proof (rule Cons.IH [OF r1(2)])
      show "get q1 = get q" if "e' \<in> set es" "fst e' \<noteq> k" "f e' q = Some q1" for e' q q1
        using Cons.prems(5) [of e' q q1] that by simp
    qed (use Cons.prems False in auto)
  qed
qed simp

lemma fold_opt_total:
  "(\<And>e r. e \<in> set es \<Longrightarrow> f e r \<noteq> None) \<Longrightarrow> \<exists>r'. fold_opt f es r = Some r'"
proof (induction es arbitrary: r)
  case (Cons e es)
  then obtain r1 where "f e r = Some r1" by (meson list.set_intros(1) not_None_eq)
  with Cons show ?case by simp
qed simp

lemma jsonb_scalar:
  assumes "jsonb_ok B"
  shows "be_jsonb B (JStr s) = Some j \<Longrightarrow> j = JStr s" "be_jsonb B (JInt i) = Some j \<Longrightarrow> j = JInt i"
  using assms unfolding jsonb_ok_def by blast+

lemmas lookup_eval = json_field_def json_name_ascii is_ascii_def fold_ascii_def

lemma origin_step:
  "json_field U False models_origin_fields (''id'', j) r = map_option (\<lambda>x. r\<lparr>mo_ID := x\<rparr>) (json_string j (mo_ID r))"
  "json_field U False models_origin_fields (''name'', j) r = map_option (\<lambda>x. r\<lparr>mo_Name := x\<rparr>) (json_string j (mo_Name r))"
  "json_field U False models_origin_fields (''scheme'', j) r = map_option (\<lambda>x. r\<lparr>mo_Scheme := x\<rparr>) (json_string j (mo_Scheme r))"
  "json_field U False models_origin_fields (''host'', j) r = map_option (\<lambda>x. r\<lparr>mo_Host := x\<rparr>) (json_string j (mo_Host r))"
  "json_field U False models_origin_fields (''port'', j) r = map_option (\<lambda>x. r\<lparr>mo_Port := x\<rparr>) (json_int j (mo_Port r))"
  "json_field U False models_origin_fields (''url'', j) r = map_option (\<lambda>x. r\<lparr>mo_URL := x\<rparr>) (json_string j (mo_URL r))"
  by (simp_all add: lookup_eval models_origin_fields_def)

lemma jsonb_origin:
  assumes B: "jsonb_ok B" "be_jsonb B (origin_json ori) = Some j" and ori: "mo_ID ori \<noteq> []" "mo_URL ori \<noteq> []" "int64_ok (mo_Port ori)"
  shows "json_struct U False models_origin_fields j r0 = Some ori"
proof -
  define es where "es = [(''id'', JStr (mo_ID ori)), (''name'', JStr (mo_Name ori)), (''scheme'', JStr (mo_Scheme ori)),
    (''host'', JStr (mo_Host ori)), (''port'', JInt (mo_Port ori)), (''url'', JStr (mo_URL ori))]"
  have o': "origin_json ori = JObj es" using ori by (simp add: origin_json_def omitempty_def es_def)
  have dist: "distinct (map fst es)" by (simp add: es_def)
  obtain es' where es': "j = JObj es'" "distinct (map fst es')" "\<forall>e \<in> set es. be_jsonb B (snd e) \<noteq> None"
    "set es' = apsnd (the \<circ> be_jsonb B) ` set es"
    by (rule jsonb_object [OF B(1) B(2) [unfolded o'] dist])
  have "apsnd (the \<circ> be_jsonb B) e = e" if "e \<in> set es" for e
    using that es'(3) jsonb_scalar [OF B(1)] by (auto simp: es_def)
  then have eq: "set es' = set es" unfolding es'(4) by simp
  then have mem: "e \<in> set es \<Longrightarrow> e \<in> set es'" and sub: "set es' \<subseteq> set es" for e by auto
  let ?f = "json_field U False models_origin_fields"
  have "?f e r \<noteq> None" if "e \<in> set es'" for e r
    using subsetD [OF sub that] ori(3) by (auto simp: es_def origin_step json_string_def json_int_def)
  then have "\<exists>r'. fold_opt ?f es' r0 = Some r'" by (rule fold_opt_total)
  then obtain r' where r': "fold_opt ?f es' r0 = Some r'" by (rule exE)
  have keep: "get r1 = get r" if "e \<in> set es'" "fst e \<noteq> k" "?f e r = Some r1"
    "(k, get) \<in> {(''id'', mo_ID), (''name'', mo_Name), (''scheme'', mo_Scheme), (''host'', mo_Host), (''url'', mo_URL)}" for e k r r1 get
    using subsetD [OF sub that(1)] that(2-) by (auto simp: es_def origin_step)
  have keep_port: "mo_Port r1 = mo_Port r" if "e \<in> set es'" "fst e \<noteq> ''port''" "?f e r = Some r1" for e r r1
    using subsetD [OF sub that(1)] that(2-) by (auto simp: es_def origin_step)
  have get: "get r' = x" if "(k, get) \<in> {(''id'', mo_ID), (''name'', mo_Name), (''scheme'', mo_Scheme), (''host'', mo_Host), (''url'', mo_URL)}"
    "(k, JStr x) \<in> set es" for k get x
  proof (rule fold_opt_reads [OF r' es'(2) mem [OF that(2)], where get = get])
    show "get r1 = x" if "?f (k, JStr x) r = Some r1" for r r1
      using that \<open>(k, get) \<in> _\<close> by (auto simp: origin_step json_string_def)
  qed (rule keep, use that in auto)
  have port: "mo_Port r' = mo_Port ori"
  proof (rule fold_opt_reads [OF r' es'(2), of "''port''" "JInt (mo_Port ori)"])
    show "mo_Port r1 = mo_Port ori" if "?f (''port'', JInt (mo_Port ori)) r = Some r1" for r r1
      using that by (auto simp: origin_step json_int_def split: if_splits)
  qed (use keep_port mem in \<open>auto simp: es_def\<close>)
  have "r' = ori"
    using port get [of "''id''" mo_ID "mo_ID ori"] get [of "''name''" mo_Name "mo_Name ori"] get [of "''scheme''" mo_Scheme "mo_Scheme ori"]
      get [of "''host''" mo_Host "mo_Host ori"] get [of "''url''" mo_URL "mo_URL ori"] by (simp add: es_def)
  then show ?thesis using r' by (simp add: json_struct_def es'(1))
qed

lemma policy_step:
  "json_field U False (models_policy_fields U u) (''tenant_id'', j) r = map_option (\<lambda>x. r\<lparr>mg_TenantID := x\<rparr>) (json_string j (mg_TenantID r))"
  "json_field U False (models_policy_fields U u) (''app_id'', j) r = map_option (\<lambda>x. r\<lparr>mg_AppID := x\<rparr>) (json_string j (mg_AppID r))"
  "json_field U False (models_policy_fields U u) (''policy_id'', j) r = map_option (\<lambda>x. r\<lparr>mg_PolicyID := x\<rparr>) (json_string j (mg_PolicyID r))"
  "json_field U False (models_policy_fields U u) (''policy_version_id'', j) r = map_option (\<lambda>x. r\<lparr>mg_PolicyVersionID := x\<rparr>) (json_string j (mg_PolicyVersionID r))"
  "json_field U False (models_policy_fields U u) (''mode'', j) r = map_option (\<lambda>x. r\<lparr>mg_Mode := x\<rparr>) (json_string j (mg_Mode r))"
  "json_field U False (models_policy_fields U u) (''origin'', j) r = map_option (\<lambda>x. r\<lparr>mg_Origin := x\<rparr>) (json_struct U False models_origin_fields j (mg_Origin r))"
  "json_field U False (models_policy_fields U u) (''ip_sets'', j) r = Some (r\<lparr>mg_IPSets := Some j\<rparr>)"
  "json_field U False (models_policy_fields U u) (''custom_rules'', j) r = Some (r\<lparr>mg_CustomRules := Some j\<rparr>)"
  "json_field U False (models_policy_fields U u) (''rate_limits'', j) r = Some (r\<lparr>mg_RateLimits := Some j\<rparr>)"
  "json_field U False (models_policy_fields U u) (''waf'', j) r = Some (r\<lparr>mg_WAF := Some j\<rparr>)"
  "json_field U False (models_policy_fields U u) (''published_at'', j) r = map_option (\<lambda>x. r\<lparr>mg_PublishedAt := x\<rparr>) (json_time u j (mg_PublishedAt r))"
  by (simp_all add: lookup_eval models_policy_fields_def)

text \<open>A published document is read back as the policy that was compiled, once its raw parts are as \<open>jsonb\<close> keeps them.\<close>

definition raws_stored :: "backend \<Rightarrow> GatewayPolicy \<Rightarrow> bool" where
  "raws_stored B gp \<longleftrightarrow> (\<forall>raw \<in> {mg_IPSets gp, mg_CustomRules gp, mg_RateLimits gp, mg_WAF gp}. \<exists>j. raw = Some j \<and> be_jsonb B j = Some j)"

lemma read_policy_members:
  assumes distinct: "distinct (map fst es')" and time: "\<And>t. be_unrfc B (be_rfc B t) = Some t"
    and read_origin: "\<And>r0. json_struct U False models_origin_fields jo r0 = Some (mg_Origin gp)"
    and raw: "mg_IPSets gp = Some s" "mg_CustomRules gp = Some c" "mg_RateLimits gp = Some l" "mg_WAF gp = Some w"
    and eq: "set es' = {(''tenant_id'', JStr (mg_TenantID gp)), (''app_id'', JStr (mg_AppID gp)), (''policy_id'', JStr (mg_PolicyID gp)),
      (''policy_version_id'', JStr (mg_PolicyVersionID gp)), (''mode'', JStr (mg_Mode gp)), (''origin'', jo),
      (''ip_sets'', s), (''custom_rules'', c), (''rate_limits'', l), (''waf'', w), (''published_at'', JStr (be_rfc B (mg_PublishedAt gp)))}"
  shows "decodeGatewayPolicy U (be_unrfc B) (JObj es') = Some gp"
proof -
  let ?f = "json_field U False (models_policy_fields U (be_unrfc B))"
  note steps = policy_step json_string_def json_time_def read_origin time
  define zero where "zero = \<lparr>mg_TenantID = [], mg_AppID = [], mg_PolicyID = [], mg_PolicyVersionID = [], mg_Mode = [], mg_Origin = zero_Origin,
      mg_IPSets = None, mg_CustomRules = None, mg_RateLimits = None, mg_WAF = None, mg_PublishedAt = 0\<rparr>"
  have "?f e r \<noteq> None" if "e \<in> set es'" for e r
    using that unfolding eq by (auto simp: steps)
  then have "\<exists>r'. fold_opt ?f es' zero = Some r'" by (rule fold_opt_total)
  then obtain r' where r': "fold_opt ?f es' zero = Some r'" by (rule exE)
  note reads = fold_opt_reads [OF r' distinct]
  have "mg_TenantID r' = mg_TenantID gp" by (rule reads [of "''tenant_id''" "JStr (mg_TenantID gp)"]) (auto simp: eq steps)
  moreover have "mg_AppID r' = mg_AppID gp" by (rule reads [of "''app_id''" "JStr (mg_AppID gp)"]) (auto simp: eq steps)
  moreover have "mg_PolicyID r' = mg_PolicyID gp" by (rule reads [of "''policy_id''" "JStr (mg_PolicyID gp)"]) (auto simp: eq steps)
  moreover have "mg_PolicyVersionID r' = mg_PolicyVersionID gp" by (rule reads [of "''policy_version_id''" "JStr (mg_PolicyVersionID gp)"]) (auto simp: eq steps)
  moreover have "mg_Mode r' = mg_Mode gp" by (rule reads [of "''mode''" "JStr (mg_Mode gp)"]) (auto simp: eq steps)
  moreover have "mg_Origin r' = mg_Origin gp" by (rule reads [of "''origin''" jo]) (auto simp: eq steps)
  moreover have "mg_IPSets r' = mg_IPSets gp" by (rule reads [of "''ip_sets''" s]) (auto simp: eq steps raw)
  moreover have "mg_CustomRules r' = mg_CustomRules gp" by (rule reads [of "''custom_rules''" c]) (auto simp: eq steps raw)
  moreover have "mg_RateLimits r' = mg_RateLimits gp" by (rule reads [of "''rate_limits''" l]) (auto simp: eq steps raw)
  moreover have "mg_WAF r' = mg_WAF gp" by (rule reads [of "''waf''" w]) (auto simp: eq steps raw)
  moreover have "mg_PublishedAt r' = mg_PublishedAt gp" by (rule reads [of "''published_at''" "JStr (be_rfc B (mg_PublishedAt gp))"]) (auto simp: eq steps)
  ultimately have "r' = gp" by simp
  then show ?thesis using r' by (simp add: decodeGatewayPolicy_def json_struct_def zero_def)
qed

lemma jsonb_policy:
  assumes B: "jsonb_ok B" "be_jsonb B (policy_json (be_rfc B) gp) = Some j"
    and ori: "mo_ID (mg_Origin gp) \<noteq> []" "mo_URL (mg_Origin gp) \<noteq> []" "int64_ok (mo_Port (mg_Origin gp))" and raws: "raws_stored B gp"
  shows "decodeGatewayPolicy U (be_unrfc B) j = Some gp"
proof -
  obtain s c l w where raw: "mg_IPSets gp = Some s" "mg_CustomRules gp = Some c" "mg_RateLimits gp = Some l" "mg_WAF gp = Some w"
    and kept: "be_jsonb B s = Some s" "be_jsonb B c = Some c" "be_jsonb B l = Some l" "be_jsonb B w = Some w"
    using raws by (auto simp: raws_stored_def)
  define es where "es = [(''tenant_id'', JStr (mg_TenantID gp)), (''app_id'', JStr (mg_AppID gp)), (''policy_id'', JStr (mg_PolicyID gp)),
      (''policy_version_id'', JStr (mg_PolicyVersionID gp)), (''mode'', JStr (mg_Mode gp)), (''origin'', origin_json (mg_Origin gp)),
      (''ip_sets'', s), (''custom_rules'', c), (''rate_limits'', l), (''waf'', w), (''published_at'', JStr (be_rfc B (mg_PublishedAt gp)))]"
  have doc: "policy_json (be_rfc B) gp = JObj es" by (simp add: policy_json_def raw_value_def raw es_def)
  have dist: "distinct (map fst es)" by (simp add: es_def)
  obtain es' where es': "j = JObj es'" "distinct (map fst es')" "\<forall>e \<in> set es. be_jsonb B (snd e) \<noteq> None"
    "set es' = apsnd (the \<circ> be_jsonb B) ` set es"
    by (rule jsonb_object [OF B(1) B(2) [unfolded doc] dist])
  obtain jo where jo: "be_jsonb B (origin_json (mg_Origin gp)) = Some jo" using es'(3) by (auto simp: es_def)
  note read_origin = jsonb_origin [OF B(1) jo ori]
  have str: "be_jsonb B (JStr x) = Some (JStr x)" if "(k, JStr x) \<in> set es" for k x
    using es'(3) that jsonb_scalar(1) [OF B(1), of x] by (metis option.collapse snd_conv)
  note strs = str [of "''tenant_id''" "mg_TenantID gp", unfolded es_def, simplified]
    str [of "''app_id''" "mg_AppID gp", unfolded es_def, simplified]
    str [of "''policy_id''" "mg_PolicyID gp", unfolded es_def, simplified]
    str [of "''policy_version_id''" "mg_PolicyVersionID gp", unfolded es_def, simplified]
    str [of "''mode''" "mg_Mode gp", unfolded es_def, simplified]
    str [of "''published_at''" "be_rfc B (mg_PublishedAt gp)", unfolded es_def, simplified]
  have eq: "set es' = {(''tenant_id'', JStr (mg_TenantID gp)), (''app_id'', JStr (mg_AppID gp)), (''policy_id'', JStr (mg_PolicyID gp)),
      (''policy_version_id'', JStr (mg_PolicyVersionID gp)), (''mode'', JStr (mg_Mode gp)), (''origin'', jo),
      (''ip_sets'', s), (''custom_rules'', c), (''rate_limits'', l), (''waf'', w), (''published_at'', JStr (be_rfc B (mg_PublishedAt gp)))}"
    unfolding es'(4) by (simp add: es_def kept jo strs)
  have "be_unrfc B (be_rfc B t) = Some t" for t using B(1) unfolding jsonb_ok_def by blast
  then show ?thesis unfolding es'(1) using read_policy_members [OF es'(2) _ read_origin raw eq] by blast
qed

section \<open>Stored documents\<close>

lemma jsonb_again: "jsonb_ok B \<Longrightarrow> be_jsonb B j = Some k \<Longrightarrow> be_jsonb B k = Some k"
  unfolding jsonb_ok_def by blast

lemma jsonb_empty:
  assumes "jsonb_ok B"
  shows "be_jsonb B (JObj []) = Some j \<Longrightarrow> j = JObj []" "be_jsonb B (JArr []) = Some j \<Longrightarrow> j = JArr []"
proof -
  show "j = JObj []" if o': "be_jsonb B (JObj []) = Some j"
  proof -
    have d: "distinct (map fst ([] :: (string \<times> json) list))" by simp
    show ?thesis by (rule jsonb_object [OF assms o' d]) simp
  qed
  show "j = JArr []" if "be_jsonb B (JArr []) = Some j" using assms that unfolding jsonb_ok_def by fastforce
qed

lemma stored_snapshot_stored:
  assumes "jsonb_ok B" "be_jsonb B md = Some md"
  shows "stored_snapshot md = JObj [] \<or> be_jsonb B (stored_snapshot md) = Some (stored_snapshot md)"
proof (cases md)
  case (JObj es)
  then show ?thesis using jsonb_part [OF assms(1) assms(2) [unfolded JObj]]
    by (auto simp: stored_snapshot_def dest!: map_of_SomeD split: option.splits)
qed (simp_all add: stored_snapshot_def)

definition draft_raws :: "policyDraft \<Rightarrow> raw set" where
  "draft_raws d = {dr_IPSets d, dr_CustomRules d, dr_RateLimits d, dr_WAF d}"

lemma decodeDraft_raws:
  assumes "decodeDraft U (Some (JObj es)) = Some d" "Some j \<in> draft_raws d"
  shows "j \<in> snd ` set es"
proof -
  have "fold_opt (json_field U False draft_fields) es zero_policyDraft = Some d"
    using assms(1) by (simp add: decodeDraft_def json_struct_def)
  then have "\<forall>j. Some j \<in> draft_raws d \<longrightarrow> j \<in> snd ` set es"
  proof (rule fold_opt_invariant [where P = "\<lambda>d. \<forall>j. Some j \<in> draft_raws d \<longrightarrow> j \<in> snd ` set es"])
    fix e c c' assume e: "e \<in> set es" and c: "\<forall>j. Some j \<in> draft_raws c \<longrightarrow> j \<in> snd ` set es"
      and s: "json_field U False draft_fields e c = Some c'"
    have "Some j \<in> draft_raws c' \<Longrightarrow> Some j \<in> draft_raws c \<or> j = snd e" for j
      using s by (auto simp: json_field_def draft_fields_def draft_raws_def split: if_splits)
    then show "\<forall>j. Some j \<in> draft_raws c' \<longrightarrow> j \<in> snd ` set es" using c e by blast
  qed (simp add: zero_policyDraft_def draft_raws_def)
  then show ?thesis using assms(2) by blast
qed

lemma decodeDraft_stored:
  assumes B: "jsonb_ok B" "snap = JObj [] \<or> be_jsonb B snap = Some snap" and d: "decodeDraft U (Some snap) = Some d" "Some j \<in> draft_raws d"
  shows "be_jsonb B j = Some j"
proof (cases snap)
  case JNull
  then show ?thesis using d by (auto simp: decodeDraft_def json_struct_def zero_policyDraft_def draft_raws_def)
next
  case (JObj es)
  then obtain k where "(k, j) \<in> set es" using decodeDraft_raws d by fastforce
  then show ?thesis using B(2) JObj jsonb_part [OF B(1)] by force
qed (use d in \<open>auto simp: decodeDraft_def json_struct_def\<close>)

lemma defaultRaw_stored:
  assumes "jsonb_ok B" "\<And>j. v = Some j \<Longrightarrow> be_jsonb B j = Some j" "be_jsonb B (defaultRaw v f) \<noteq> None" "f = JObj [] \<or> f = JArr []"
  shows "be_jsonb B (defaultRaw v f) = Some (defaultRaw v f)"
proof (cases "\<exists>j. v = Some j \<and> j \<noteq> JNull")
  case True
  then show ?thesis using assms(2) by (auto simp: defaultRaw_def)
next
  case False
  then have "defaultRaw v f = f" by (auto simp: defaultRaw_def split: option.splits)
  then show ?thesis using assms(3,4) jsonb_empty [OF assms(1)] by auto
qed

lemma compiled_raws_stored:
  assumes B: "jsonb_ok B" and snap: "snap = JObj [] \<or> be_jsonb B snap = Some snap" and d: "decodeDraft U (Some snap) = Some d"
    and ok: "be_jsonb B (policy_json (be_rfc B) ((compiled_policy p vid ori d)\<lparr>mg_PublishedAt := now\<rparr>)) \<noteq> None"
  shows "raws_stored B ((compiled_policy p vid ori d)\<lparr>mg_PublishedAt := now\<rparr>)"
proof -
  let ?gp = "(compiled_policy p vid ori d)\<lparr>mg_PublishedAt := now\<rparr>"
  obtain es j where es: "policy_json (be_rfc B) ?gp = JObj es" "be_jsonb B (JObj es) = Some j" "distinct (map fst es)"
    "(''ip_sets'', defaultRaw (dr_IPSets d) (JObj [])) \<in> set es" "(''custom_rules'', defaultRaw (dr_CustomRules d) (JArr [])) \<in> set es"
    "(''rate_limits'', defaultRaw (dr_RateLimits d) (JArr [])) \<in> set es" "(''waf'', defaultRaw (dr_WAF d) (JObj [])) \<in> set es"
    using ok by (auto simp: policy_json_def compiled_policy_def raw_value_def)
  obtain es' where "j = JObj es'" "distinct (map fst es')" and some: "\<forall>e \<in> set es. be_jsonb B (snd e) \<noteq> None"
    and "set es' = apsnd (the \<circ> be_jsonb B) ` set es"
    by (rule jsonb_object [OF B es(2,3)])
  have part: "be_jsonb B j = Some j" if "Some j \<in> draft_raws d" for j using decodeDraft_stored [OF B snap d that] .
  have "be_jsonb B (defaultRaw v f) = Some (defaultRaw v f)" if "v \<in> draft_raws d" "(k, defaultRaw v f) \<in> set es" "f = JObj [] \<or> f = JArr []" for v f k
    using that some part by (intro defaultRaw_stored [OF B]) auto
  note this [OF _ es(4)] this [OF _ es(5)] this [OF _ es(6)] this [OF _ es(7)]
  then show ?thesis by (simp add: raws_stored_def compiled_policy_def draft_raws_def)
qed

text \<open>Policies keep their metadata as \<open>jsonb\<close> stores it, and every version holds a document that names it.\<close>

definition names_version :: "version_row \<Rightarrow> GatewayPolicy \<Rightarrow> bool" where
  "names_version v gp \<longleftrightarrow> mg_TenantID gp = v_tenant v \<and> mg_AppID gp = v_app v \<and> mg_PolicyID gp = v_policy v \<and> mg_PolicyVersionID gp = v_id v"

definition documents_inv :: "backend \<Rightarrow> database \<Rightarrow> bool" where
  "documents_inv B db \<longleftrightarrow>
     (\<forall>p \<in> set (policies db). be_jsonb B (p_metadata p) = Some (p_metadata p)) \<and>
     (\<forall>v \<in> set (versions db). \<exists>gp. decodeGatewayPolicy (be_unicode B) (be_unrfc B) (v_snapshot v) = Some gp \<and> names_version v gp)"

lemma getPrimaryOrigin_Inr:
  assumes "getPrimaryOrigin i db = Inr ori"
  obtains r where "r \<in> set (origins db)" "ori = inserted_origin r" "o_app r = i"
proof -
  let ?rs = "sort_key (\<lambda>r. (if o_name r = ''primary'' then 0 else 1 :: int))
    (sort_key o_created (filter (\<lambda>r. o_app r = i \<and> o_deleted r = None \<and> o_enabled r) (origins db)))"
  obtain r rs where r: "?rs = r # rs" "ori = inserted_origin r" using assms by (cases ?rs) (auto simp: getPrimaryOrigin_def)
  have "r \<in> set ?rs" unfolding r(1) by simp
  then show thesis using r(2) by (intro that) auto
qed

lemma inserted_origin_ok:
  assumes "db_inv B db" "generated_ids B" "r \<in> set (origins db)"
  shows "mo_ID (inserted_origin r) \<noteq> []" "mo_URL (inserted_origin r) \<noteq> []" "int64_ok (mo_Port (inserted_origin r))"
proof -
  have "o_id r \<in> be_gen B ` {..<next_id db}" using assms(1,3) by (force simp: db_inv_def ids_inv_def ids_ok_def)
  then show "mo_ID (inserted_origin r) \<noteq> []" using assms(2) unfolding generated_ids_def by (metis imageE inserted_origin_def models_Origin.select_convs(1))
  show "mo_URL (inserted_origin r) \<noteq> []" by (simp add: inserted_origin_def origin_url_def)
  have "1 \<le> o_port r" "o_port r \<le> 65535" using assms(1,3) by (auto simp: db_inv_def origin_inv_def list_all_iff)
  then show "int64_ok (mo_Port (inserted_origin r))" by (simp add: inserted_origin_def int64_ok_def)
qed

lemma published_document:
  assumes inv: "db_inv B db" "generated_ids B" "jsonb_ok B" "documents_inv B db" and p: "p \<in> set (policies db)"
    and gp: "compileGatewayPolicy (be_unicode B) (with_snapshot p) vid db = Inr gp"
    and doc: "be_jsonb B (policy_json (be_rfc B) (gp\<lparr>mg_PublishedAt := now\<rparr>)) = Some stored"
  shows "decodeGatewayPolicy U (be_unrfc B) stored = Some (gp\<lparr>mg_PublishedAt := now\<rparr>)"
    and "mg_TenantID gp = p_tenant p \<and> mg_AppID gp = p_app p \<and> mg_PolicyID gp = p_id p \<and> mg_PolicyVersionID gp = vid"
proof -
  let ?snap = "stored_snapshot (p_metadata p)"
  obtain ori d where o': "getPrimaryOrigin (p_app p) db = Inr ori" "decodeDraft (be_unicode B) (Some ?snap) = Some d"
    "gp = compiled_policy (with_snapshot p) vid ori d"
    using gp by (auto simp: compileGatewayPolicy_def with_snapshot_def policy_of_def split: sum.splits option.splits)
  obtain r where r: "r \<in> set (origins db)" "ori = inserted_origin r" by (rule getPrimaryOrigin_Inr [OF o'(1)])
  have snap: "?snap = JObj [] \<or> be_jsonb B ?snap = Some ?snap"
    using stored_snapshot_stored [OF inv(3)] inv(4) p by (simp add: documents_inv_def)
  have raws: "raws_stored B (gp\<lparr>mg_PublishedAt := now\<rparr>)"
    using compiled_raws_stored [OF inv(3) snap o'(2)] doc unfolding o'(3) by simp
  have "mg_Origin (gp\<lparr>mg_PublishedAt := now\<rparr>) = inserted_origin r" by (simp add: o'(3) r(2) compiled_policy_def)
  then show "decodeGatewayPolicy U (be_unrfc B) stored = Some (gp\<lparr>mg_PublishedAt := now\<rparr>)"
    using jsonb_policy [OF inv(3) doc _ _ _ raws] inserted_origin_ok [OF inv(1,2) r(1)] by simp
  show "mg_TenantID gp = p_tenant p \<and> mg_AppID gp = p_app p \<and> mg_PolicyID gp = p_id p \<and> mg_PolicyVersionID gp = vid"
    by (simp add: o'(3) compiled_policy_def)
qed

lemma CreatePolicy_metadata:
  assumes "CreatePolicy B now t i req db = (Inr x, db')" "jsonb_ok B"
  obtains p where "policies db' = policies db @ [p]" "versions db' = versions db" "be_jsonb B (p_metadata p) = Some (p_metadata p)"
  using assms jsonb_again by (simp add: CreatePolicy_def Let_def split: sum.splits option.splits if_splits) force

lemma CreatePolicy_documents:
  assumes "CreatePolicy B now t i req db = (Inr x, db')" "jsonb_ok B" "documents_inv B db"
  shows "documents_inv B db'"
proof -
  obtain p where "policies db' = policies db @ [p]" "versions db' = versions db" "be_jsonb B (p_metadata p) = Some (p_metadata p)"
    by (rule CreatePolicy_metadata [OF assms(1,2)])
  then show ?thesis using assms(3) by (simp add: documents_inv_def)
qed

lemma PublishPolicy_documents:
  assumes inv: "db_inv B db" "generated_ids B" "jsonb_ok B" and docs: "documents_inv B db"
    and "PublishPolicy B now t i db = (Inr x, db')"
  shows "documents_inv B db'"
  using assms(5)
proof (rule PublishPolicy_ok)
  fix t' i' p gp stored
  assume p: "p \<in> set (policies db)" "p_id p = i'" "p_tenant p = t'"
    and gp: "compileGatewayPolicy (be_unicode B) (with_snapshot p) (be_gen B (next_id db)) db = Inr gp"
    and doc: "be_jsonb B (policy_json (be_rfc B) (gp\<lparr>mg_PublishedAt := now\<rparr>)) = Some stored"
    and db': "db' = deploy B now (with_snapshot p) (be_gen B (next_id db)) (activate_version now t' i' (be_gen B (next_id db))
      (db\<lparr>versions := versions db @ [version_row_of B now (with_snapshot p) (be_gen B (next_id db)) (next_version i' db)
        (policy_json (be_rfc B) (gp\<lparr>mg_PublishedAt := now\<rparr>)) stored], next_id := Suc (next_id db)\<rparr>))"
  note read = published_document [OF inv docs p(1) gp doc]
  have tabs: "versions db' = versions db @ [version_row_of B now (with_snapshot p) (be_gen B (next_id db)) (next_version i' db)
        (policy_json (be_rfc B) (gp\<lparr>mg_PublishedAt := now\<rparr>)) stored]"
    "policies db' = update_row (\<lambda>q. p_tenant q = t' \<and> p_id q = i') (\<lambda>q. q\<lparr>p_active := Some (be_gen B (next_id db)), p_updated := now\<rparr>) (policies db)"
    unfolding db' by (simp_all add: deploy_def activate_version_def)
  show ?thesis using docs read unfolding documents_inv_def tabs
    by (auto simp: version_row_of_def names_version_def update_row_def)
qed

lemma documents_keep:
  assumes inv: "db_inv B db" "generated_ids B" "jsonb_ok B" and docs: "documents_inv B db"
  shows "documents_inv B (run_call B now c db)"
proof (cases c)
  case (CallCreateTenant req)
  then show ?thesis using docs failures_change_nothing(1) [of B now req db]
    by (cases "CreateTenant B now req db"; cases "fst (CreateTenant B now req db)") (auto elim!: CreateTenant_ok simp: documents_inv_def)
next
  case (CallCreateApp req u)
  then show ?thesis using docs failures_change_nothing(2) [of B now req u db]
    by (cases "CreateApp B now req u db"; cases "fst (CreateApp B now req u db)") (auto elim!: CreateApp_ok simp: documents_inv_def)
next
  case (CallUpdateApp t i req w)
  have "policies (snd (UpdateApp B now t i req w db)) = policies db \<and> versions (snd (UpdateApp B now t i req w db)) = versions db"
    by (auto simp: UpdateApp_def update_app_tx_def insertOrigin_def retire_origins_def Let_def split: sum.splits option.splits prod.splits if_splits)
  then show ?thesis using docs CallUpdateApp by (simp add: documents_inv_def)
next
  case (CallCreatePolicy t i req)
  then show ?thesis using docs inv(3) failures_change_nothing(4) [of B now t i req db]
    by (cases "CreatePolicy B now t i req db"; cases "fst (CreatePolicy B now t i req db)") (auto intro: CreatePolicy_documents)
next
  case (CallUpdatePolicy t i req)
  then show ?thesis using docs failures_change_nothing(5) [of B now t i req db] jsonb_again [OF inv(3)]
    by (cases "UpdatePolicy B now t i req db"; cases "fst (UpdatePolicy B now t i req db)")
      (auto elim!: UpdatePolicy_ok simp: documents_inv_def update_row_def update_policy_row_def)
next
  case (CallPublishPolicy t i)
  then show ?thesis using docs failures_change_nothing(6) [of B now t i db]
    by (cases "PublishPolicy B now t i db"; cases "fst (PublishPolicy B now t i db)") (auto intro: PublishPolicy_documents [OF inv docs])
qed

lemma reachable_documents:
  assumes "generated_ids B" "jsonb_ok B" "reachable B db"
  shows "db_inv B db \<and> documents_inv B db"
  using assms(3)
proof induction
  case reachable_empty
  show ?case using empty_inv by (simp add: documents_inv_def empty_database_def)
next
  case (reachable_call db now c)
  then show ?case using call_keeps documents_keep assms by blast
qed

end
