(* ===== verification/Control_Db_Spec.thy ===== *)
theory Control_Db_Spec
  imports Control_Db_Documents
begin

text \<open>
  What the repository promises its callers: tenants are isolated, publication takes effect, updates are
  locked optimistically.  The last section runs a database on a concrete backend.
\<close>

section \<open>Isolation of tenants\<close>

lemma newest_set [simp]: "set (newest col rows) = set rows"
  by (simp add: newest_def)

lemma newest_top:
  assumes "x \<in> set rows" "\<And>y. y \<in> set rows \<Longrightarrow> y \<noteq> x \<Longrightarrow> col y < col x"
  obtains rest where "newest col rows = x # rest"
proof (cases "newest col rows")
  case Nil
  then have "set rows = {}" using newest_set [of col rows] by simp
  then show thesis using assms(1) by simp
next
  case (Cons y ys)
  have "sorted (map (\<lambda>r. - col r) (newest col rows))" by (simp add: newest_def)
  moreover have "x \<in> set (newest col rows)" using assms(1) by simp
  ultimately have "col x \<le> col y" unfolding Cons by auto
  moreover have "y \<in> set rows" using Cons newest_set [of col rows] by (metis list.set_intros(1))
  ultimately have "y = x" using assms(2) by fastforce
  then show thesis using that Cons by simp
qed

lemma first_snapshot_Inr:
  assumes "first_snapshot B rows = Inr gp"
  obtains d v where "(d, v) \<in> set rows" "decodeGatewayPolicy (be_unicode B) (be_unrfc B) (v_snapshot v) = Some gp"
proof -
  obtain d v rest where n: "newest (\<lambda>(d, v). d_deployed d) rows = (d, v) # rest" "decodeGatewayPolicy (be_unicode B) (be_unrfc B) (v_snapshot v) = Some gp"
    using assms by (auto simp: first_snapshot_def split: list.splits option.splits)
  have "(d, v) \<in> set rows" using n(1) newest_set [of "\<lambda>(d, v). d_deployed d" rows] by (metis list.set_intros(1))
  then show thesis using that n(2) by blast
qed

lemma active_rows_iff:
  "(d, v) \<in> set (active_rows db) \<longleftrightarrow> d \<in> set (deployments db) \<and> v \<in> set (versions db) \<and> v_id v = d_version d \<and> d_node d = ''default'' \<and>
     d_status d = ''active'' \<and> (\<exists>p \<in> set (policies db). p_id p = d_policy d \<and> p_deleted p = None \<and> p_enabled p)"
  by (auto simp: active_rows_def)

lemma ids_inj:
  assumes "db_inv B db"
  shows "inj_on v_id (set (versions db))" "inj_on p_id (set (policies db))" "inj_on a_id (set (apps db))" "inj_on d_id (set (deployments db))"
  using assms by (simp_all add: db_inv_def ids_inv_def ids_ok_def distinct_map)

lemma owner_parts:
  assumes "db_inv B db"
  shows "(\<lambda>v. (v_policy v, v_tenant v, v_app v)) ` set (versions db) \<subseteq> set (policy_keys db)"
    "(\<lambda>d. (d_policy d, d_tenant d, d_app d)) ` set (deployments db) \<subseteq> set (policy_keys db)"
  using assms by (simp_all only: db_inv_def owner_inv_def)

lemma version_owner: "db_inv B db \<Longrightarrow> v \<in> set (versions db) \<Longrightarrow> \<exists>q \<in> set (policies db). p_id q = v_policy v \<and> p_tenant q = v_tenant v \<and> p_app q = v_app v"
  using owner_parts(1) by fastforce

lemma deployment_owner: "db_inv B db \<Longrightarrow> d \<in> set (deployments db) \<Longrightarrow> \<exists>q \<in> set (policies db). p_id q = d_policy d \<and> p_tenant q = d_tenant d \<and> p_app q = d_app d"
  using owner_parts(2) by fastforce

text \<open>A version that a deployment points to belongs to the deployed policy.\<close>

lemma deployed_version:
  assumes inv: "db_inv B db" and d: "d \<in> set (deployments db)" "v \<in> set (versions db)" "v_id v = d_version d"
  shows "v_policy v = d_policy d \<and> v_tenant v = d_tenant d \<and> v_app v = d_app d"
proof -
  have "latest (d_policy d) db = Some (d_version d)" using inv d(1) by (simp add: db_inv_def version_inv_def)
  then have ne: "versions_of (d_policy d) db \<noteq> []" and l: "v_id (last (versions_of (d_policy d) db)) = d_version d"
    by (auto simp: latest_def split: if_splits)
  have "last (versions_of (d_policy d) db) \<in> set (versions_of (d_policy d) db)" using ne by (rule last_in_set)
  then have w: "last (versions_of (d_policy d) db) \<in> set (versions db)" "v_policy (last (versions_of (d_policy d) db)) = d_policy d"
    by (auto simp: versions_of_def)
  have "v = last (versions_of (d_policy d) db)"
    by (rule inj_onD [OF ids_inj(1) [OF inv] _ d(2) w(1)]) (simp add: d(3) l)
  then have p: "v_policy v = d_policy d" using w(2) by simp
  obtain q where q: "q \<in> set (policies db)" "p_id q = v_policy v" "p_tenant q = v_tenant v" "p_app q = v_app v"
    using version_owner [OF inv d(2)] by blast
  obtain q' where q': "q' \<in> set (policies db)" "p_id q' = d_policy d" "p_tenant q' = d_tenant d" "p_app q' = d_app d"
    using deployment_owner [OF inv d(1)] by blast
  have "q = q'" by (rule inj_onD [OF ids_inj(2) [OF inv] _ q(1) q'(1)]) (simp add: q(2) q'(2) p)
  then show ?thesis using p q q' by simp
qed

text \<open>What the operations return for a tenant is its own.\<close>

lemma active_policy_own:
  assumes inv: "db_inv B db" "documents_inv B db" and g: "GetActivePolicyByApp B t i db = Inr gp"
  shows "be_uuid B t = Some (mg_TenantID gp)"
proof -
  obtain t' i' where t: "be_uuid B t = Some t'"
    and "first_snapshot B (filter (\<lambda>(d, v). d_tenant d = t' \<and> d_app d = i') (active_rows db)) = Inr gp"
    using g by (auto simp: GetActivePolicyByApp_def split: option.splits)
  then obtain d v where dv: "(d, v) \<in> set (active_rows db)" "d_tenant d = t'"
    and gp: "decodeGatewayPolicy (be_unicode B) (be_unrfc B) (v_snapshot v) = Some gp"
    by (auto elim!: first_snapshot_Inr)
  have "v_tenant v = t'" using deployed_version [of B db d v] inv(1) dv unfolding active_rows_iff by auto
  then show ?thesis using inv(2) dv(1) gp t unfolding active_rows_iff documents_inv_def names_version_def by force
qed

lemma tenant_reads:
  "ListApps B t db = Inr as \<Longrightarrow> \<forall>a \<in> set as. be_uuid B t = Some (ma_TenantID a)"
  "GetApp B t i db = Inr a \<Longrightarrow> be_uuid B t = Some (ma_TenantID a)"
  "ListPoliciesByApp B t i db = Inr ps \<Longrightarrow> \<forall>p \<in> set ps. be_uuid B t = Some (mp_TenantID p)"
  "GetPolicy B t i db = Inr p \<Longrightarrow> be_uuid B t = Some (mp_TenantID p)"
  "ListEvents B t n db = Inr es \<Longrightarrow> \<forall>e \<in> set es. be_uuid B t = Some (er_TenantID e)"
  "GetEvent B t i db = Inr e \<Longrightarrow> be_uuid B t = Some (er_TenantID e)"
  by (auto simp: ListApps_def app_of_def split: option.splits)[1]
    (auto elim!: GetApp_Inr simp: app_of_def
      ListPoliciesByApp_def policy_of_def GetPolicy_def live_policy_def with_snapshot_def
      ListEvents_def event_ref_of_def GetEvent_def split: option.splits if_splits dest!: in_set_takeD find_live)

lemma update_app_tx_tenant: "update_app_tx B now t i c md u db = (Inr a, db') \<Longrightarrow> ma_TenantID a = t"
  by (auto simp: update_app_tx_def app_of_def update_app_row_def live_app_def Let_def split: option.splits prod.splits sum.splits dest!: find_live)

lemma created_policy_tenant:
  assumes inv: "db_inv B db" "generated_ids B" and ok: "be_uuid B t = Some (a_tenant a)" "a \<in> set (apps db)" "be_uuid B (a_tenant a) = Some t'"
  shows "be_uuid B t = Some t'"
proof -
  have "a_tenant a \<in> t_id ` set (tenants db)" using inv(1) ok(2) by (auto simp: db_inv_def owner_inv_def)
  then show ?thesis using generated_uuid [OF inv(2,1)] ok(1,3) by simp
qed

lemma tenant_results:
  "CreateApp B now req u db = (Inr a, db') \<Longrightarrow> be_uuid B (ca_TenantID req) = Some (ma_TenantID a)"
  "UpdateApp B now t i req2 v db = (Inr a, db') \<Longrightarrow> be_uuid B t = Some (ma_TenantID a)"
  "db_inv B db \<Longrightarrow> generated_ids B \<Longrightarrow> CreatePolicy B now t i req4 db = (Inr p, db') \<Longrightarrow> be_uuid B t = Some (mp_TenantID p)"
  "UpdatePolicy B now t i req3 db = (Inr p, db') \<Longrightarrow> be_uuid B t = Some (mp_TenantID p)"
proof -
  show "CreateApp B now req u db = (Inr a, db') \<Longrightarrow> be_uuid B (ca_TenantID req) = Some (ma_TenantID a)"
    by (auto elim!: CreateApp_ok simp: app_of_def)
  show "UpdateApp B now t i req2 v db = (Inr a, db') \<Longrightarrow> be_uuid B t = Some (ma_TenantID a)"
    by (erule UpdateApp_ok) (simp add: update_app_tx_tenant)
  show "db_inv B db \<Longrightarrow> generated_ids B \<Longrightarrow> CreatePolicy B now t i req4 db = (Inr p, db') \<Longrightarrow> be_uuid B t = Some (mp_TenantID p)"
    by (erule CreatePolicy_ok) (drule (4) created_policy_tenant, simp add: policy_of_def)
  show "UpdatePolicy B now t i req3 db = (Inr p, db') \<Longrightarrow> be_uuid B t = Some (mp_TenantID p)"
    by (erule UpdatePolicy_ok) (use find_live in \<open>fastforce simp: with_snapshot_def policy_of_def update_policy_row_def live_policy_def\<close>)
qed

text \<open>What a tenant reads is its own: every app, policy, active policy and event reference that the repository returns
  for a tenant carries that tenant's identifier.\<close>

theorem reads_within_tenant:
  assumes "generated_ids B" "jsonb_ok B" "reachable B db" "be_uuid B t = Some t'"
  shows "(\<forall>as. ListApps B t db = Inr as \<longrightarrow> (\<forall>a \<in> set as. ma_TenantID a = t')) \<and>
    (\<forall>i a. GetApp B t i db = Inr a \<longrightarrow> ma_TenantID a = t') \<and>
    (\<forall>i ps. ListPoliciesByApp B t i db = Inr ps \<longrightarrow> (\<forall>p \<in> set ps. mp_TenantID p = t')) \<and>
    (\<forall>i p. GetPolicy B t i db = Inr p \<longrightarrow> mp_TenantID p = t') \<and>
    (\<forall>i gp. GetActivePolicyByApp B t i db = Inr gp \<longrightarrow> mg_TenantID gp = t') \<and>
    (\<forall>n es. ListEvents B t n db = Inr es \<longrightarrow> (\<forall>e \<in> set es. er_TenantID e = t')) \<and>
    (\<forall>i e. GetEvent B t i db = Inr e \<longrightarrow> er_TenantID e = t')"
proof -
  note inv = reachable_documents [OF assms(1-3)]
  show ?thesis
    using assms(4) tenant_reads [of B t] active_policy_own [of B db t] inv
    by (intro conjI allI impI) (metis option.inject)+
qed

text \<open>The rows of the other tenants.\<close>

definition others :: "string \<Rightarrow> database \<Rightarrow> app_row list \<times> origin_row list \<times> policy_row list \<times> version_row list \<times> deployment_row list" where
  "others t db = (filter (\<lambda>a. a_tenant a \<noteq> t) (apps db), filter (\<lambda>r. o_tenant r \<noteq> t) (origins db), filter (\<lambda>p. p_tenant p \<noteq> t) (policies db),
     filter (\<lambda>v. v_tenant v \<noteq> t) (versions db), filter (\<lambda>d. d_tenant d \<noteq> t) (deployments db))"

fun call_tenant :: "db_call \<Rightarrow> string option" where
  "call_tenant (CallCreateTenant _) = None"
| "call_tenant (CallCreateApp req _) = Some (ca_TenantID req)"
| "call_tenant (CallUpdateApp t _ _ _) = Some t"
| "call_tenant (CallCreatePolicy t _ _) = Some t"
| "call_tenant (CallUpdatePolicy t _ _) = Some t"
| "call_tenant (CallPublishPolicy t _) = Some t"

lemma others_update_row:
  "(\<And>r. r \<in> set rows \<Longrightarrow> sel r \<Longrightarrow> \<not> P r \<and> \<not> P (f r)) \<Longrightarrow> filter P (update_row sel f rows) = filter P rows"
  by (induction rows) (auto simp: update_row_def)

lemma published_others:
  assumes inv: "db_inv B db" and p: "p \<in> set (policies db)" and v: "v_tenant v = p_tenant p"
  shows "others (p_tenant p) (published B now p v db) = others (p_tenant p) db"
proof -
  have d: "d_tenant d = p_tenant p" if "d \<in> set (deployments db)" "d_policy d = p_id p" for d
  proof -
    note owner = deployment_owner [OF inv that(1)]
    obtain q where q: "q \<in> set (policies db)" "p_id q = d_policy d" "p_tenant q = d_tenant d" using owner by blast
    have "q = p" by (rule inj_onD [OF ids_inj(2) [OF inv] _ q(1) p]) (simp add: q(2) that(2))
    then show ?thesis using q(3) by simp
  qed
  have "filter (\<lambda>d. d_tenant d \<noteq> p_tenant p) (deployments (published B now p v db)) = filter (\<lambda>d. d_tenant d \<noteq> p_tenant p) (deployments db)"
    using d by (auto simp: published_deployments [OF inv] intro!: others_update_row)
  then show ?thesis using v by (auto simp: others_def published_tables intro!: others_update_row)
qed

lemma UpdateApp_others:
  assumes "UpdateApp B now s i req w db = (Inr x, db')" "be_uuid B s = Some t'"
  shows "others t' db' = others t' db"
  using assms(1)
proof (rule UpdateApp_ok)
  fix t'' i' c md assume "be_uuid B s = Some t''" and tx: "update_app_tx B now t'' i' c md w db = (Inr x, db')"
  then have t: "t'' = t'" using assms(2) by simp
  have a: "filter (\<lambda>a. a_tenant a \<noteq> t') (update_row (live_app t' i') (update_app_row now c md) (apps db)) = filter (\<lambda>a. a_tenant a \<noteq> t') (apps db)"
    by (rule others_update_row) (simp add: live_app_def update_app_row_def)
  have o': "filter (\<lambda>r. o_tenant r \<noteq> t') (update_row (\<lambda>r. o_tenant r = t' \<and> o_app r = i' \<and> o_deleted r = None)
      (\<lambda>r. r\<lparr>o_deleted := Some now, o_updated := now\<rparr>) (origins db)) = filter (\<lambda>r. o_tenant r \<noteq> t') (origins db)"
    by (rule others_update_row) simp
  from tx [unfolded t] show ?thesis
  proof (rule update_app_tx_ok)
    assume none: "w = None \<Longrightarrow> db' = db\<lparr>apps := update_row (live_app t' i') (update_app_row now c md) (apps db)\<rparr>"
      and some: "\<And>v. w = Some v \<Longrightarrow> \<exists>y. insertOrigin B now t' i' v
       (retire_origins now t' i' (db\<lparr>apps := update_row (live_app t' i') (update_app_row now c md) (apps db)\<rparr>)) = (Inr y, db')"
    show ?thesis
    proof (cases w)
      case None
      then show ?thesis using none a by (simp add: others_def)
    next
      case (Some v)
      then show ?thesis using some [OF Some] a o' by (auto elim!: insertOrigin_ok simp: others_def retire_origins_def)
    qed
  qed
qed

lemma CreatePolicy_others:
  assumes inv: "db_inv B db" "generated_ids B" and ok: "CreatePolicy B now s i req db = (Inr x, db')" "be_uuid B s = Some t'"
  shows "others t' db' = others t' db"
  using ok(1)
proof (rule CreatePolicy_ok)
  fix a p assume a: "be_uuid B s = Some (a_tenant a)" "a \<in> set (apps db)" "be_uuid B (a_tenant a) = Some (p_tenant p)"
    and db': "db' = db\<lparr>policies := policies db @ [p], next_id := Suc (next_id db)\<rparr>"
  have "p_tenant p = t'" using created_policy_tenant [OF inv a] ok(2) by simp
  then show ?thesis unfolding db' by (simp add: others_def)
qed

lemma PublishPolicy_others:
  assumes inv: "db_inv B db" and ok: "PublishPolicy B now s i db = (Inr x, db')" "be_uuid B s = Some t'"
  shows "others t' db' = others t' db"
  using ok(1)
proof (rule PublishPolicy_ok)
  fix t'' i' p gp stored
  assume "be_uuid B s = Some t''" and p: "p \<in> set (policies db)" "p_id p = i'" "p_tenant p = t''"
    and db': "db' = deploy B now (with_snapshot p) (be_gen B (next_id db)) (activate_version now t'' i' (be_gen B (next_id db))
       (db\<lparr>versions := versions db @ [version_row_of B now (with_snapshot p) (be_gen B (next_id db)) (next_version i' db)
              (policy_json (be_rfc B) (gp\<lparr>mg_PublishedAt := now\<rparr>)) stored], next_id := Suc (next_id db)\<rparr>))"
  then have t: "p_tenant p = t'" using ok(2) by simp
  let ?v = "version_row_of B now (with_snapshot p) (be_gen B (next_id db)) (next_version i' db) (policy_json (be_rfc B) (gp\<lparr>mg_PublishedAt := now\<rparr>)) stored"
  have v: "v_tenant ?v = p_tenant p" "v_id ?v = be_gen B (next_id db)" by (simp_all add: version_row_of_def)
  show ?thesis using published_others [OF inv p(1) v(1), of now] unfolding db' v(2) p(2,3) t [symmetric] by simp
qed

lemma call_within:
  assumes "generated_ids B" "db_inv B db" "call_tenant c = Some t" "be_uuid B t = Some t'"
  shows "others t' (run_call B now c db) = others t' db"
proof (cases c)
  case (CallCreateTenant req)
  then show ?thesis using assms(3) by simp
next
  case (CallCreateApp req u)
  then show ?thesis using assms(3,4) failures_change_nothing(2) [of B now req u db]
    by (cases "CreateApp B now req u db"; cases "fst (CreateApp B now req u db)") (auto elim!: CreateApp_ok simp: others_def)
next
  case (CallUpdateApp s i req w)
  then show ?thesis using assms(3,4) failures_change_nothing(3) [of B now s i req w db] UpdateApp_others [of B now s i req w db]
    by (cases "UpdateApp B now s i req w db"; cases "fst (UpdateApp B now s i req w db)") auto
next
  case (CallCreatePolicy s i req)
  then show ?thesis using assms(3,4) failures_change_nothing(4) [of B now s i req db] CreatePolicy_others [OF assms(2,1), of now s i req]
    by (cases "CreatePolicy B now s i req db"; cases "fst (CreatePolicy B now s i req db)") auto
next
  case (CallUpdatePolicy s i req)
  then show ?thesis using assms(3,4) failures_change_nothing(5) [of B now s i req db]
    by (cases "UpdatePolicy B now s i req db"; cases "fst (UpdatePolicy B now s i req db)")
      (auto elim!: UpdatePolicy_ok simp: others_def update_policy_row_def live_policy_def intro!: others_update_row)
next
  case (CallPublishPolicy s i)
  then show ?thesis using assms(3,4) failures_change_nothing(6) [of B now s i db] PublishPolicy_others [OF assms(2), of now s i]
    by (cases "PublishPolicy B now s i db"; cases "fst (PublishPolicy B now s i db)") auto
qed

lemma call_no_tenant:
  assumes "call_tenant c = Some t" "be_uuid B t = None"
  shows "run_call B now c db = db"
  using assms
  by (cases c) (simp_all add: CreateApp_def UpdateApp_def CreatePolicy_def GetApp_def UpdatePolicy_def getPolicyForUpdate_def PublishPolicy_def)

text \<open>A call made for a tenant leaves the rows of every other tenant alone: apps, origins, policies, versions and
  deployments.\<close>

theorem writes_within_tenant:
  assumes "generated_ids B" "reachable B db" "call_tenant c = Some t" "be_uuid B t = Some t'"
  shows "others t' (run_call B now c db) = others t' db"
proof -
  have inv: "db_inv B db" using assms(2) by induction (simp_all add: empty_inv call_keeps assms(1))
  show ?thesis by (rule call_within [OF assms(1) inv assms(3,4)])
qed

section \<open>Publication reaches the gateways\<close>

lemma deployed_policies: "db_inv B db \<Longrightarrow> d_policy ` set (deployments db) = v_policy ` set (versions db)"
  by (simp add: db_inv_def version_inv_def)

lemma deployment_inj: "db_inv B db \<Longrightarrow> inj_on d_policy (set (deployments db))"
  by (simp add: db_inv_def version_inv_def distinct_map)

lemma app_id_generated:
  assumes "db_inv B db" "generated_ids B" "a \<in> set (apps db)"
  shows "be_uuid B (a_id a) = Some (a_id a)"
proof -
  have "a_id ` set (apps db) \<subseteq> be_gen B ` {..<next_id db}" using assms(1) by (simp add: db_inv_def ids_inv_def ids_ok_def)
  then obtain n where "a_id a = be_gen B n" using assms(3) by blast
  then show ?thesis using assms(2) by (simp add: generated_ids_def)
qed

lemma published_row:
  assumes inv: "db_inv B db" "generated_ids B" and p: "p \<in> set (policies db)" "p_deleted p = None" "p_enabled p"
    and v: "v_id v = be_gen B (next_id db)" "v_policy v = p_id p" "v_tenant v = p_tenant p" "v_app v = p_app p" "v_version v = next_version (p_id p) db"
    and late: "\<forall>d \<in> set (deployments db). d_deployed d < now"
  obtains d where "(d, v) \<in> set (active_rows (published B now p v db))" "d_deployed d = now" "d_tenant d = p_tenant p" "d_app d = p_app p"
    "\<And>d' v'. (d', v') \<in> set (active_rows (published B now p v db)) \<Longrightarrow> (d', v') \<noteq> (d, v) \<Longrightarrow> d_deployed d' < now"
proof -
  let ?db = "published B now p v db"
  have inv': "db_inv B ?db" using publish_keeps [OF inv p(1) v] .
  have v_in: "v \<in> set (versions ?db)" by (simp add: published_tables)
  then have "p_id p \<in> d_policy ` set (deployments ?db)" using imageI [OF v_in, of v_policy] v(2) deployed_policies [OF inv'] by simp
  then obtain d where d: "d \<in> set (deployments ?db)" "d_policy d = p_id p" by auto
  have "versions_of (p_id p) ?db = versions_of (p_id p) db @ [v]" using v(2) by (simp add: versions_of_def published_tables)
  then have "latest (p_id p) ?db = Some (v_id v)" by (simp add: latest_def)
  then have dv: "d_version d = v_id v" "d_node d = ''default''" "d_status d = ''active''"
    using inv' d by (auto simp: db_inv_def version_inv_def)
  have pol: "\<exists>q \<in> set (policies ?db). p_id q = d_policy d \<and> p_deleted q = None \<and> p_enabled q"
    using p d(2) unfolding published_tables update_row_def
    by (intro bexI [of _ "p\<lparr>p_active := Some (v_id v), p_updated := now\<rparr>"]) (auto intro: image_eqI [of _ _ p])
  have now_d: "d_deployed d = now"
    using d unfolding published_deployments [OF inv(1)] by (auto simp: update_row_def split: if_splits) (metis imageI)
  have row: "(d, v) \<in> set (active_rows ?db)" unfolding active_rows_iff using d v_in dv pol by simp
  have "v_tenant v = d_tenant d" "v_app v = d_app d" using deployed_version [OF inv' d(1) v_in] dv(1) by simp_all
  moreover have "d_deployed d' < now" if r: "(d', v') \<in> set (active_rows ?db)" "(d', v') \<noteq> (d, v)" for d' v'
  proof -
    have r': "d' \<in> set (deployments ?db)" "v' \<in> set (versions ?db)" "v_id v' = d_version d'" using r(1) unfolding active_rows_iff by auto
    have "d' \<noteq> d" using r(2) r'(2,3) dv(1) inj_onD [OF ids_inj(1) [OF inv'] _ r'(2) v_in] by auto
    then have "d_policy d' \<noteq> p_id p"
      using d inj_onD [OF deployment_inj [OF inv'] _ r'(1) d(1)] by auto
    then have "d' \<in> set (deployments db)"
      using r'(1) unfolding published_deployments [OF inv(1)] by (auto simp: update_row_def split: if_splits)
    then show ?thesis using late by simp
  qed
  ultimately show thesis using that [OF row now_d] v(3,4) by simp
qed

lemma first_snapshot_top:
  assumes "(d, v) \<in> set rows" "\<And>d' v'. (d', v') \<in> set rows \<Longrightarrow> (d', v') \<noteq> (d, v) \<Longrightarrow> d_deployed d' < d_deployed d"
    and "decodeGatewayPolicy (be_unicode B) (be_unrfc B) (v_snapshot v) = Some gp"
  shows "first_snapshot B rows = Inr gp"
proof -
  obtain rest where "newest (\<lambda>(d, v). d_deployed d) rows = (d, v) # rest"
    by (rule newest_top [of "(d, v)" rows "\<lambda>(d, v). d_deployed d"]) (use assms(1,2) in auto)
  then show ?thesis using assms(3) by (simp add: first_snapshot_def)
qed

text \<open>C14: Publication takes effect.  When an enabled policy is published after every earlier deployment, its version number is
  one more than the number of versions it had; then the active policy of the app, and the policy that a gateway gets for
  every hostname of the app while the app is active, is exactly the compiled policy, with the published version.\<close>

theorem publish_takes_effect:
  assumes "generated_ids B" "jsonb_ok B" "reachable B db"
    and pub: "PublishPolicy B now t i db = (Inr resp, db')"
    and policy: "GetPolicy B t i db = Inr pol" "mp_Enabled pol"
    and late: "\<forall>d \<in> set (deployments db). d_deployed d < now"
  shows "\<exists>gp. compileGatewayPolicy (be_unicode B) pol (pp_PolicyVersionID resp) db = Inr gp \<and>
    pp_Version resp = int (length (versions_of (mp_ID pol) db)) + 1 \<and>
    GetActivePolicyByApp B t (mp_AppID pol) db' = Inr (gp\<lparr>mg_PublishedAt := now\<rparr>) \<and>
    (\<forall>a \<in> set (apps db). \<forall>h. a_id a = mp_AppID pol \<longrightarrow> serves B h a \<longrightarrow> be_text B h \<longrightarrow>
       GetGatewayPolicyByHostname B h db' = Inr (gp\<lparr>mg_PublishedAt := now\<rparr>))"
  using pub
proof (rule PublishPolicy_ok)
  fix t' i' p gp stored
  assume ids: "be_uuid B t = Some t'" "be_uuid B i = Some i'" and fp: "find (live_policy t' i') (policies db) = Some p"
    and p: "p \<in> set (policies db)" "p_id p = i'" "p_tenant p = t'" "p_deleted p = None"
    and gp: "compileGatewayPolicy (be_unicode B) (with_snapshot p) (be_gen B (next_id db)) db = Inr gp"
    and doc: "be_jsonb B (policy_json (be_rfc B) (gp\<lparr>mg_PublishedAt := now\<rparr>)) = Some stored"
    and resp: "resp = \<lparr>pp_PolicyID = i', pp_PolicyVersionID = be_gen B (next_id db), pp_Version = next_version i' db, pp_PublishedAt = now\<rparr>"
    and db': "db' = deploy B now (with_snapshot p) (be_gen B (next_id db)) (activate_version now t' i' (be_gen B (next_id db))
       (db\<lparr>versions := versions db @ [version_row_of B now (with_snapshot p) (be_gen B (next_id db)) (next_version i' db)
              (policy_json (be_rfc B) (gp\<lparr>mg_PublishedAt := now\<rparr>)) stored], next_id := Suc (next_id db)\<rparr>))"
  define v where "v = version_row_of B now (with_snapshot p) (be_gen B (next_id db)) (next_version i' db) (policy_json (be_rfc B) (gp\<lparr>mg_PublishedAt := now\<rparr>)) stored"
  have v: "v_id v = be_gen B (next_id db)" "v_policy v = p_id p" "v_tenant v = p_tenant p" "v_app v = p_app p" "v_version v = next_version (p_id p) db"
    "v_snapshot v = stored" using p(2) by (simp_all add: v_def version_row_of_def)
  have new: "db' = published B now p v db" unfolding db' v_def [symmetric] v(1) p(2,3) by (rule refl)
  have pol: "pol = with_snapshot p" using policy(1) ids fp by (simp add: GetPolicy_def)
  then have en: "p_enabled p" using policy(2) by (simp add: with_snapshot_def policy_of_def)
  have inv: "db_inv B db" "documents_inv B db" using reachable_documents [OF assms(1-3)] by blast+
  have read: "decodeGatewayPolicy (be_unicode B) (be_unrfc B) (v_snapshot v) = Some (gp\<lparr>mg_PublishedAt := now\<rparr>)"
    unfolding v(6) by (rule published_document [OF inv(1) assms(1,2) inv(2) p(1) gp doc])
  obtain d where d: "(d, v) \<in> set (active_rows db')" "d_deployed d = now" "d_tenant d = p_tenant p" "d_app d = p_app p"
    and top: "\<And>d' v'. (d', v') \<in> set (active_rows db') \<Longrightarrow> (d', v') \<noteq> (d, v) \<Longrightarrow> d_deployed d' < now"
    by (rule published_row [OF inv(1) assms(1) p(1,4) en v(1-5) late]) (unfold new, blast)
  obtain a where a: "a \<in> set (apps db)" "a_id a = p_app p" using inv(1) p(1) by (auto simp: db_inv_def owner_inv_def)
  then have uuid: "be_uuid B (p_app p) = Some (p_app p)" using app_id_generated [OF inv(1) assms(1) a(1)] by simp
  have "GetActivePolicyByApp B t (p_app p) db' = Inr (gp\<lparr>mg_PublishedAt := now\<rparr>)"
    unfolding GetActivePolicyByApp_def ids(1) uuid option.case prod.case
    by (rule first_snapshot_top [OF _ _ read, of d]) (use d top p(3) in auto)
  moreover have "GetGatewayPolicyByHostname B h db' = Inr (gp\<lparr>mg_PublishedAt := now\<rparr>)"
    if "a' \<in> set (apps db)" "a_id a' = p_app p" "serves B h a'" "be_text B h" for a' h
  proof -
    have "apps db' = apps db" unfolding new by (rule published_tables)
    then have "first_snapshot B [(d, v). a \<leftarrow> apps db', serves B h a, (d, v) \<leftarrow> active_rows db', d_app d = a_id a] = Inr (gp\<lparr>mg_PublishedAt := now\<rparr>)"
      by (intro first_snapshot_top [OF _ _ read, of d]) (use d top that in \<open>auto split: if_splits intro!: bexI [of _ a']\<close>)
    then show ?thesis using that(4) by (simp add: GetGatewayPolicyByHostname_def)
  qed
  ultimately show ?thesis
    using gp next_version_length [OF inv(1), of i'] p(2) by (auto simp: pol resp)
qed

text \<open>C15: Optimistic locking.  An update succeeds only when it expects the timestamp that a reader of the policy sees; and after
  an update at a later time, a second update that expects the same timestamp is refused with \<open>ErrConflict\<close> and changes
  nothing.\<close>

theorem optimistic_locking:
  assumes "UpdatePolicy B now t i req db = (Inr pol, db')" "up_ExpectedUpdatedAt req < now" "up_ExpectedUpdatedAt req2 = up_ExpectedUpdatedAt req"
  shows "(\<exists>seen. GetPolicy B t i db = Inr seen \<and> mp_UpdatedAt seen = up_ExpectedUpdatedAt req) \<and>
    UpdatePolicy B now2 t i req2 db' = (Inl ErrConflict, db')"
  using assms(1)
proof (rule UpdatePolicy_ok)
  fix t' i' p c md
  assume ids: "be_uuid B t = Some t'" "be_uuid B i = Some i'" "find (live_policy t' i') (policies db) = Some p"
    and db': "db' = db\<lparr>policies := update_row (live_policy t' i') (update_policy_row now c md) (policies db)\<rparr>"
  have "find (live_policy t' i') (update_row (live_policy t' i') (update_policy_row now c md) rows) =
      map_option (update_policy_row now c md) (find (live_policy t' i') rows)" for rows
    by (induction rows) (auto simp: update_row_def update_policy_row_def live_policy_def)
  then have "getPolicyForUpdate B t i db' = Inr (with_snapshot (update_policy_row now c md p))"
    unfolding db' getPolicyForUpdate_def using ids by simp
  then have "UpdatePolicy B now2 t i req2 db' = (Inl ErrConflict, db')"
    using assms(2,3) by (simp add: UpdatePolicy_def update_policy_row_def)
  moreover have "mp_UpdatedAt (with_snapshot p) = up_ExpectedUpdatedAt req"
    using assms(1) ids by (simp add: UpdatePolicy_def getPolicyForUpdate_def split: if_splits)
  ultimately show ?thesis using ids by (simp add: GetPolicy_def)
qed

text \<open>C16: Changing the origin of an app never succeeds: the retired origin keeps the name \<open>primary\<close>, which is unique per app, so
  the new origin is refused by the database and the whole update is rolled back.\<close>

theorem origin_change_fails:
  assumes "generated_ids B" "reachable B db"
  shows "\<exists>e. UpdateApp B now t i req (Some u) db = (Inl e, db)"
proof -
  have inv: "db_inv B db" using assms(2) by induction (simp_all add: empty_inv call_keeps assms(1))
  show ?thesis
  proof (cases "UpdateApp B now t i req (Some u) db")
    case (Pair y db')
    show ?thesis
    proof (cases y)
      case (Inl e)
      then show ?thesis using Pair failures_change_nothing(3) [of B now t i req "Some u" db e db'] by auto
    next
      case (Inr x)
      from Pair [unfolded Inr] show ?thesis
      proof (rule UpdateApp_ok)
        fix t' i' c md assume "update_app_tx B now t' i' c md (Some u) db = (Inr x, db')"
        then show ?thesis
        proof (rule update_app_tx_ok)
          fix a assume a: "find (live_app t' i') (apps db) = Some a" "a_id a = i'"
            and some: "\<And>v. Some u = Some v \<Longrightarrow> \<exists>y. insertOrigin B now t' i' v
              (retire_origins now t' i' (db\<lparr>apps := update_row (live_app t' i') (update_app_row now c md) (apps db)\<rparr>)) = (Inr y, db')"
          show ?thesis
            using some [of u] find_live [OF a(1)] origin_replacement_fails [OF inv _ a(2), of now t' u "update_row (live_app t' i') (update_app_row now c md) (apps db)"]
            by auto
        qed
      qed
    qed
  qed
qed

section \<open>A concrete run\<close>

function plain :: "json \<Rightarrow> bool" where
  "plain j = (case j of JArr js \<Rightarrow> list_all plain js | JObj es \<Rightarrow> distinct (map fst es) \<and> list_all (\<lambda>e. plain (snd e)) es | _ \<Rightarrow> True)"
  by pat_completeness auto
termination
proof (relation "measure size")
  fix j es e assume "j = JObj es" "e \<in> set es"
  then show "(snd e, j) \<in> measure size" using json_obj_smaller [of "fst e" "snd e" es] by simp
qed (auto simp: json_arr_smaller)

declare plain.simps [simp del]

lemma plain_simps [simp]: "plain JNull" "plain (JStr s)" "plain (JInt i)" "plain (JBool b)" "plain (JReal s)"
  "plain (JArr js) = list_all plain js" "plain (JObj es) = (distinct (map fst es) \<and> list_all (\<lambda>e. plain (snd e)) es)"
  by (simp_all add: plain.simps)

definition sample_rfc :: "int \<Rightarrow> string" where
  "sample_rfc t = (if t < 0 then CHR ''-'' # replicate (nat (- t)) CHR ''i'' else replicate (nat t) CHR ''i'')"

definition sample_unrfc :: "string \<Rightarrow> int option" where
  "sample_unrfc s = Some (if s \<noteq> [] \<and> hd s = CHR ''-'' then - int (length s - 1) else int (length s))"

definition sample_backend :: backend where
  "sample_backend = \<lparr>be_unicode = ascii_tables, be_uuid = Some, be_text = (\<lambda>_. True), be_jsonb = (\<lambda>j. if plain j then Some j else None),
     be_lower = strings_ToLower ascii_tables, be_gen = (\<lambda>n. replicate (Suc n) CHR ''x''), be_rfc = sample_rfc, be_unrfc = sample_unrfc,
     be_json = (\<lambda>_. [])\<rparr>"

lemma sample_generated: "generated_ids sample_backend"
  by (auto simp: generated_ids_def sample_backend_def inj_def dest: arg_cong [of _ _ length])

lemma sample_jsonb: "jsonb_ok sample_backend"
proof -
  have "sample_unrfc (sample_rfc t) = Some t" for t
    by (auto simp: sample_unrfc_def sample_rfc_def)
  moreover have "mset (map (apsnd Some) es) = mset (map (apsnd (\<lambda>j. if plain j then Some j else None)) es)" if "list_all (\<lambda>e. plain (snd e)) es" for es :: "(string \<times> json) list"
    by (rule arg_cong [of _ _ mset], rule map_cong) (use that in \<open>auto simp: list_all_iff\<close>)
  moreover have "list_all2 (\<lambda>x y. (if plain x then Some x else None) = Some y) js js" if "list_all plain js" for js
    using that by (simp add: list_all2_same list_all_iff)
  ultimately show ?thesis
    by (auto simp: jsonb_ok_def sample_backend_def split: if_splits)
qed

definition sample_tenant :: db_call where
  "sample_tenant = CallCreateTenant \<lparr>ct_Name = ''Acme'', ct_Slug = ''acme'', ct_Metadata = None\<rparr>"

definition sample_app_call :: db_call where
  "sample_app_call = CallCreateApp \<lparr>ca_TenantID = ''x'', ca_Name = ''Shop'', ca_Slug = ''shop'', ca_Hostnames = [''shop.example''],
     ca_OriginURL = ''http://origin:8080'', ca_Metadata = None\<rparr> (empty_url\<lparr>url_Scheme := ''http'', url_Host := ''origin:8080''\<rparr>)"

definition sample_policy_call :: db_call where
  "sample_policy_call = CallCreatePolicy ''x'' ''xx'' \<lparr>cp_Name = ''base'', cp_Mode = ''block'', cp_Snapshot = None\<rparr>"

definition sample_db :: database where
  "sample_db = run_call sample_backend 30 sample_policy_call (run_call sample_backend 20 sample_app_call
     (run_call sample_backend 10 sample_tenant empty_database))"

lemma sample_db_reachable: "reachable sample_backend sample_db"
  by (simp add: sample_db_def reachable_call reachable_empty del: run_call.simps)

lemma sample_origin_host: "url_Hostname (empty_url\<lparr>url_Scheme := ''http'', url_Host := ''origin:8080''\<rparr>) = ''origin''"
  "url_Port (empty_url\<lparr>url_Scheme := ''http'', url_Host := ''origin:8080''\<rparr>) = ''8080''"
  "strings_ToLower ascii_tables ''origin'' = ''origin''" "strconv_Atoi ''8080'' = Some 8080"
  by code_simp+

lemma sample_db_eq:
  "sample_db = \<lparr>tenants = [\<lparr>t_id = ''x'', t_name = ''Acme'', t_slug = ''acme'', t_status = ''active'', t_metadata = JObj [], t_created = 10, t_updated = 10, t_deleted = None\<rparr>],
     apps = [\<lparr>a_id = ''xx'', a_tenant = ''x'', a_name = ''Shop'', a_slug = ''shop'', a_hostnames = [''shop.example''], a_status = ''active'',
       a_metadata = JObj [], a_created = 20, a_updated = 20, a_deleted = None\<rparr>],
     origins = [\<lparr>o_id = ''xxx'', o_tenant = ''x'', o_app = ''xx'', o_name = ''primary'', o_scheme = ''http'', o_host = ''origin'', o_port = 8080,
       o_enabled = True, o_created = 20, o_updated = 20, o_deleted = None\<rparr>],
     policies = [\<lparr>p_id = ''xxxx'', p_tenant = ''x'', p_app = ''xx'', p_name = ''base'', p_mode = ''block'', p_active = None, p_enabled = True,
       p_metadata = JObj [(''snapshot'', JObj [])], p_created = 30, p_updated = 30, p_deleted = None\<rparr>],
     versions = [], deployments = [], rule_sets = [], rule_versions = [], event_refs = [], next_id = 4\<rparr>"
  by (simp add: sample_db_def sample_tenant_def sample_app_call_def sample_policy_call_def CreateTenant_def CreateApp_def insertOrigin_def
      CreatePolicy_def GetApp_def live_app_def app_of_def new_app_def metadata_or_empty_def metadataWithSnapshot_def defaultRaw_def known_mode_def
      empty_database_def Let_def sample_backend_def origin_port_def sample_origin_host)

lemma sample_publish:
  "\<exists>db' resp. PublishPolicy sample_backend 40 ''x'' ''xxxx'' sample_db = (Inr resp, db') \<and> pp_PolicyVersionID resp = ''xxxxx''"
  by (simp add: sample_db_eq sample_backend_def PublishPolicy_def getPolicyForUpdate_def live_policy_def with_snapshot_def policy_of_def stored_snapshot_def
      next_version_def Let_def compileGatewayPolicy_def getPrimaryOrigin_def inserted_origin_def origin_url_def decodeDraft_def json_struct_def
      zero_policyDraft_def compiled_policy_def defaultRaw_def policy_json_def origin_json_def omitempty_def raw_value_def numeral_eq_Suc)

theorem repository_invariant_witness: "db_inv sample_backend sample_db"
  by (rule repository_invariant [OF sample_generated sample_db_reachable])

theorem reads_within_tenant_witness:
  "\<exists>a. GetApp sample_backend ''x'' ''xx'' sample_db = Inr a \<and> ma_TenantID a = ''x''"
proof -
  have "\<exists>a. GetApp sample_backend ''x'' ''xx'' sample_db = Inr a"
    by (simp add: GetApp_def sample_db_eq sample_backend_def live_app_def)
  moreover have "be_uuid sample_backend ''x'' = Some ''x''" by (simp add: sample_backend_def)
  ultimately show ?thesis using reads_within_tenant [OF sample_generated sample_jsonb sample_db_reachable] by blast
qed

theorem writes_within_tenant_witness:
  "others ''y'' (run_call sample_backend 40 (CallPublishPolicy ''y'' ''xxxx'') sample_db) = others ''y'' sample_db"
  by (rule writes_within_tenant [OF sample_generated sample_db_reachable]) (simp_all add: sample_backend_def)

theorem publish_takes_effect_witness:
  "\<exists>gp. GetGatewayPolicyByHostname sample_backend ''shop.example'' (snd (PublishPolicy sample_backend 40 ''x'' ''xxxx'' sample_db)) = Inr gp \<and>
     mg_PolicyVersionID gp = ''xxxxx''"
proof -
  obtain db' resp where pub: "PublishPolicy sample_backend 40 ''x'' ''xxxx'' sample_db = (Inr resp, db')" "pp_PolicyVersionID resp = ''xxxxx''"
    using sample_publish by blast
  obtain pol where pol: "GetPolicy sample_backend ''x'' ''xxxx'' sample_db = Inr pol" "mp_Enabled pol" "mp_AppID pol = ''xx''"
    by (simp add: GetPolicy_def sample_db_eq sample_backend_def live_policy_def with_snapshot_def policy_of_def)
  have "\<forall>d \<in> set (deployments sample_db). d_deployed d < 40" by (simp add: sample_db_eq)
  from publish_takes_effect [OF sample_generated sample_jsonb sample_db_reachable pub(1) pol(1,2) this] obtain gp where
    gp: "compileGatewayPolicy (be_unicode sample_backend) pol (pp_PolicyVersionID resp) sample_db = Inr gp"
    "\<forall>a \<in> set (apps sample_db). \<forall>h. a_id a = mp_AppID pol \<longrightarrow> serves sample_backend h a \<longrightarrow> be_text sample_backend h \<longrightarrow>
       GetGatewayPolicyByHostname sample_backend h db' = Inr (gp\<lparr>mg_PublishedAt := 40\<rparr>)" by blast
  have "mg_PolicyVersionID gp = ''xxxxx''"
    using gp(1) pub(2) by (auto simp: compileGatewayPolicy_def compiled_policy_def split: sum.splits option.splits)
  moreover have "GetGatewayPolicyByHostname sample_backend ''shop.example'' db' = Inr (gp\<lparr>mg_PublishedAt := 40\<rparr>)"
    using gp(2) pol(3) by (simp add: sample_db_eq serves_def sample_backend_def)
  ultimately show ?thesis using pub(1) by simp
qed

definition rename_to :: "string \<Rightarrow> UpdatePolicyRequest" where
  "rename_to n = \<lparr>up_Name = Some n, up_Mode = None, up_Enabled = None, up_Snapshot = None, up_ExpectedUpdatedAt = 30\<rparr>"

theorem optimistic_locking_witness:
  "fst (UpdatePolicy sample_backend 60 ''x'' ''xxxx'' (rename_to ''two'') (snd (UpdatePolicy sample_backend 50 ''x'' ''xxxx'' (rename_to ''one'') sample_db))) = Inl ErrConflict"
proof -
  have "\<exists>pol db'. UpdatePolicy sample_backend 50 ''x'' ''xxxx'' (rename_to ''one'') sample_db = (Inr pol, db')"
    by (simp add: UpdatePolicy_def getPolicyForUpdate_def sample_db_eq sample_backend_def live_policy_def with_snapshot_def policy_of_def
        rename_to_def patched_policy_def metadataWithSnapshot_def defaultRaw_def stored_snapshot_def known_mode_def name_taken_def Let_def)
  then obtain pol db' where u: "UpdatePolicy sample_backend 50 ''x'' ''xxxx'' (rename_to ''one'') sample_db = (Inr pol, db')" by blast
  show ?thesis unfolding u snd_conv
    using optimistic_locking [OF u, of "rename_to ''two''" 60] by (simp add: rename_to_def)
qed

theorem origin_change_fails_witness:
  "\<exists>e. UpdateApp sample_backend 50 ''x'' ''xx'' \<lparr>ua_Name = None, ua_Hostnames = [], ua_OriginURL = Some ''http://other:80'', ua_Status = None, ua_Metadata = None\<rparr>
     (Some (empty_url\<lparr>url_Scheme := ''http'', url_Host := ''other:80''\<rparr>)) sample_db = (Inl e, sample_db)"
  by (rule origin_change_fails [OF sample_generated sample_db_reachable])

end
