(* ===== verification/Planes.thy ===== *)
theory Planes
  imports Control_Validation_Facts Control_Db_Spec
begin

text \<open>
  The two planes together: a policy whose snapshot the control plane accepts is compiled and sent as JSON, and the gateway
  turns that document into an app.  The snapshot is decoded three times, as \<open>policySnapshot\<close> for the checks, as
  \<open>policyDraft\<close> for the compilation, and part by part at the gateway; the lemmas relate the three readings.
\<close>

section \<open>The document at the gateway\<close>





section \<open>The snapshot on both planes\<close>












section \<open>Stored origins are URLs\<close>











section \<open>Validated policies are served\<close>











section \<open>A policy on both planes\<close>














end
