(* ===== verification/Ratelimit.thy ===== *)
theory Ratelimit
  imports Policy_Eval Go_Sha256
begin

text \<open>
  The rate limiter (\<open>services/gateway/internal/ratelimit/ratelimit.go\<close>): the fixed-window limiter
  over a counter store, the in-memory store, the failing store and the Redis store with its Lua
  script and its wire format.  A store is a function from a key, a limit and a window to a state
  transformer; the locale \<open>counter_store\<close> states what the limiter relies on, and the counting
  theorem is proved in it once.  The TCP connection to Redis is an argument of the Redis store.
\<close>

section \<open>Requests, stores and limiters\<close>

record Request =
  rr_ClientIP :: string
  rr_Method :: string
  rr_Host :: string
  rr_Path :: string
  rr_Headers :: http_header
  rr_Query :: url_values

datatype store_result =
    Counted (counted_count: int) (counted_remaining: int)
  | StoreError string
  | StorePanic panic

type_synonym 's incr = "string \<Rightarrow> int \<Rightarrow> int \<Rightarrow> 's \<Rightarrow> 's \<times> store_result"

definition NoopLimiter_Check :: "'s \<Rightarrow> 's \<times> (panic + Decision)" where
  "NoopLimiter_Check s = (s, Inr Allow)"

definition rl_parseAddr :: "string \<Rightarrow> Addr" where
  "rl_parseAddr v = (case netip_ParseAddr v of None \<Rightarrow> IPv4Unspecified | Some a \<Rightarrow> a)"

definition rateLimitDecision :: "RateLimitRule \<Rightarrow> int \<Rightarrow> int \<Rightarrow> Decision" where
  "rateLimitDecision rule remaining resetAt = zero_Decision\<lparr>
     d_Action := (if rl_Action rule = ActionBlock then ActionRateLimit else ActionCount),
     d_Reason := ''rate_limit'',
     d_MatchedRuleID := ''rate_limit:'' @ rl_ID rule,
     d_MatchedRuleName := rl_Name rule,
     d_RuleGroup := ''rate_limit'',
     d_Tags := [''rate_limit''],
     d_StatusCode := rl_StatusCode rule,
     d_RateLimit := Some \<lparr>rli_Limit = rl_Limit rule, rli_Remaining = remaining, rli_ResetAt = resetAt,
       rli_RuleID = rl_ID rule, rli_Action = rl_Action rule\<rparr>\<rparr>"

definition keyPartForRule :: "unicode \<Rightarrow> Request \<Rightarrow> RateLimitRule \<Rightarrow> string" where
  "keyPartForRule U req rule =
     (if rl_KeyType rule = ''host'' then strings_ToLower U (rr_Host req)
      else if rl_KeyType rule = ''path'' then rr_Path req
      else if rl_KeyType rule = ''header'' then header_Get (rr_Headers req) (rl_KeyHeader rule)
      else if rl_KeyType rule = ''api_key_placeholder'' then header_Get (rr_Headers req) ''X-API-Key''
      else rr_ClientIP req)"

definition HashKeyPart :: "string \<Rightarrow> string" where
  "HashKeyPart v = hex_EncodeToString (sha256_Sum256 v)"

text \<open>\<open>fmt.Sprintf("bedemwaf:rl:%s:%s:%s:%s:%d", ...)\<close>.\<close>

definition redis_key :: "string \<Rightarrow> string \<Rightarrow> string \<Rightarrow> string \<Rightarrow> int \<Rightarrow> string" where
  "redis_key tenant app rule keyHash window =
     ''bedemwaf:rl:'' @ tenant @ '':'' @ app @ '':'' @ rule @ '':'' @ keyHash @ '':'' @ strconv_Itoa window"

definition request_context :: "Request \<Rightarrow> RequestContext" where
  "request_context req = \<lparr>rq_Method = rr_Method req, rq_Path = rr_Path req, rq_Host = rr_Host req,
     rq_Headers = rr_Headers req, rq_Query = rr_Query req, rq_ClientIP = rl_parseAddr (rr_ClientIP req)\<rparr>"

definition applies :: "unicode \<Rightarrow> App \<Rightarrow> Request \<Rightarrow> RateLimitRule \<Rightarrow> bool" where
  "applies U app req rule \<longleftrightarrow> rl_Enabled rule \<and>
     (case rl_MatchExpression rule of
        None \<Rightarrow> True
      | Some c \<Rightarrow> Match U (request_context req) (app_IPSets app) c)"

definition window_of :: "RateLimitRule \<Rightarrow> int \<Rightarrow> int" where
  "window_of rule now = wrap64 (go_div now (rl_WindowSeconds rule))"

definition check_key :: "unicode \<Rightarrow> App \<Rightarrow> Request \<Rightarrow> RateLimitRule \<Rightarrow> int \<Rightarrow> string" where
  "check_key U app req rule now =
     redis_key (app_TenantID app) (app_ID app) (rl_ID rule) (HashKeyPart (keyPartForRule U req rule))
       (window_of rule now)"

definition reset_at :: "RateLimitRule \<Rightarrow> int \<Rightarrow> int" where
  "reset_at rule now = wrap64 (wrap64 (window_of rule now + 1) * rl_WindowSeconds rule)"

definition allowed_decision :: "RateLimitRule \<Rightarrow> int \<Rightarrow> int \<Rightarrow> Decision" where
  "allowed_decision rule remaining resetAt = zero_Decision\<lparr>
     d_Action := ActionAllow, d_MatchedRuleName := rl_Name rule, d_RuleGroup := ''rate_limit'',
     d_Tags := [''rate_limit''],
     d_RateLimit := Some \<lparr>rli_Limit = rl_Limit rule, rli_Remaining = remaining, rli_ResetAt = resetAt,
       rli_RuleID = rl_ID rule, rli_Action = rl_Action rule\<rparr>\<rparr>"

text \<open>\<open>FixedWindowLimiter.Check\<close>; \<open>now\<close> is the clock in seconds.  The division panics for a window
  of zero seconds.\<close>

definition FixedWindowLimiter_Check ::
  "unicode \<Rightarrow> 's incr \<Rightarrow> bool \<Rightarrow> int \<Rightarrow> App \<Rightarrow> Request \<Rightarrow> RateLimitRule \<Rightarrow> 's \<Rightarrow> 's \<times> (panic + Decision)" where
  "FixedWindowLimiter_Check U incr failClosed now app req rule s =
     (if \<not> applies U app req rule then (s, Inr Allow)
      else if rl_WindowSeconds rule = 0 then (s, Inl DivideByZero)
      else (case incr (check_key U app req rule now) (rl_Limit rule) (rl_WindowSeconds rule) s of
          (s', StorePanic p) \<Rightarrow> (s', Inl p)
        | (s', StoreError _) \<Rightarrow>
            (s', Inr (if \<not> failClosed then Allow else rateLimitDecision rule 0 (reset_at rule now)))
        | (s', Counted n remaining) \<Rightarrow>
            (s', Inr (if n \<le> rl_Limit rule then allowed_decision rule remaining (reset_at rule now)
              else rateLimitDecision rule remaining (reset_at rule now)))))"

section \<open>The in-memory and the failing store\<close>

record MemoryStore =
  ms_counts :: "string \<rightharpoonup> int"

definition NewMemoryStore :: MemoryStore where
  "NewMemoryStore = \<lparr>ms_counts = (\<lambda>_. None)\<rparr>"

definition ms_count :: "MemoryStore \<Rightarrow> string \<Rightarrow> int" where
  "ms_count m key = (case ms_counts m key of None \<Rightarrow> 0 | Some n \<Rightarrow> n)"

definition MemoryStore_Increment :: "MemoryStore incr" where
  "MemoryStore_Increment key limit _ m =
     (let n = wrap64 (ms_count m key + 1);
          remaining = wrap64 (limit - n) in
      (m\<lparr>ms_counts := (ms_counts m)(key \<mapsto> n)\<rparr>, Counted n (if remaining < 0 then 0 else remaining)))"

definition FailingStore_Increment :: "string option \<Rightarrow> 's incr" where
  "FailingStore_Increment err key limit windowSeconds s =
     (case err of
        Some e \<Rightarrow> (s, StoreError e)
      | None \<Rightarrow> (s, StoreError ''rate limit store failure''))"

section \<open>The Redis store\<close>

definition crlf :: string where
  "crlf = [CHR 0x0D, CHR 0x0A]"

definition bulk_string :: "string \<Rightarrow> string" where
  "bulk_string v = ''$'' @ show_nat (length v) @ crlf @ v @ crlf"

definition writeRESPArray :: "string list \<Rightarrow> string" where
  "writeRESPArray values = ''*'' @ show_nat (length values) @ crlf @ concat (map bulk_string values)"

definition fixedWindowLua :: string where
  \<open>fixedWindowLua = concat (map (\<lambda>l. CHR 0x0A # l)
     [''local current = redis.call("INCR", KEYS[1])'',
      ''if current == 1 then'',
      ''  redis.call("EXPIRE", KEYS[1], ARGV[2])'',
      ''end'',
      ''local limit = tonumber(ARGV[1])'',
      ''local remaining = limit - current'',
      ''if remaining < 0 then'',
      ''  remaining = 0'',
      ''end'',
      ''return {current, remaining}'',
      ''''])\<close>

text \<open>What the script computes, over the commands of the server: \<open>INCR\<close> and \<open>EXPIRE\<close> on the state of
  the data base.  Lua's numbers are exact on the integers that occur.\<close>

definition run_fixedWindowLua ::
  "(string \<Rightarrow> 'r \<Rightarrow> 'r \<times> int) \<Rightarrow> (string \<Rightarrow> int \<Rightarrow> 'r \<Rightarrow> 'r) \<Rightarrow> string \<Rightarrow> int \<Rightarrow> int \<Rightarrow> 'r \<Rightarrow> 'r \<times> int list" where
  "run_fixedWindowLua INCR EXPIRE key limit windowSeconds r =
     (let (r1, current) = INCR key r;
          r2 = (if current = 1 then EXPIRE key windowSeconds r1 else r1);
          remaining = limit - current in
      (r2, [current, if remaining < 0 then 0 else remaining]))"

datatype redis_error =
    RedisEOF
  | RedisReplyError string
  | RedisUnexpected string
  | RedisBadNumber string
  | RedisLength nat

text \<open>\<open>ReadString('\n')\<close> on the bytes still to come: the line with its delimiter and the rest.\<close>

definition read_line :: "string \<Rightarrow> (string \<times> string) option" where
  "read_line s =
     (if CHR 0x0A \<in> set s
      then Some (takeWhile (\<lambda>c. c \<noteq> CHR 0x0A) s @ [CHR 0x0A], drop 1 (dropWhile (\<lambda>c. c \<noteq> CHR 0x0A) s))
      else None)"

fun read_integers :: "nat \<Rightarrow> string \<Rightarrow> redis_error + int list" where
  "read_integers 0 s = Inr []"
| "read_integers (Suc k) s =
     (case read_line s of
        None \<Rightarrow> Inl RedisEOF
      | Some (raw, rest) \<Rightarrow>
          (let line = strings_TrimSpace raw in
           if \<not> strings_HasPrefix line '':'' then Inl (RedisUnexpected line)
           else (case strconv_ParseInt (strings_TrimPrefix line '':'') of
               None \<Rightarrow> Inl (RedisBadNumber line)
             | Some v \<Rightarrow>
                 (case read_integers k rest of Inl e \<Rightarrow> Inl e | Inr vs \<Rightarrow> Inr (v # vs)))))"

text \<open>\<open>make([]int64, 0, count)\<close> panics for a negative capacity and for one beyond the address space
  (\<open>2 ^ 48\<close> bytes).\<close>

definition make_cap_ok :: "int \<Rightarrow> bool" where
  "make_cap_ok n \<longleftrightarrow> 0 \<le> n \<and> n \<le> 35184372088832"

datatype 'a redis_read = ReadOk 'a | ReadErr redis_error | ReadPanic panic

definition readIntegerArray :: "string \<Rightarrow> int list redis_read" where
  "readIntegerArray reader =
     (case read_line reader of
        None \<Rightarrow> ReadErr RedisEOF
      | Some (raw, rest) \<Rightarrow>
          (let line = strings_TrimSpace raw in
           if strings_HasPrefix line ''-'' then ReadErr (RedisReplyError (strings_TrimPrefix line ''-''))
           else if \<not> strings_HasPrefix line ''*'' then ReadErr (RedisUnexpected line)
           else (case strconv_Atoi (strings_TrimPrefix line ''*'') of
               None \<Rightarrow> ReadErr (RedisBadNumber line)
             | Some n \<Rightarrow>
                 if \<not> make_cap_ok n then ReadPanic MakeSliceOutOfRange
                 else (case read_integers (nat n) rest of
                     Inl e \<Rightarrow> ReadErr e
                   | Inr values \<Rightarrow> ReadOk values))))"

record RedisStore =
  rs_Addr :: string
  rs_Timeout :: int

text \<open>\<open>exchange addr timeout request\<close> stands for the connection: it delivers the request bytes and
  returns the bytes the server sends before the deadline, or \<^term>\<open>None\<close> when dialling or writing
  fails.\<close>

definition RedisStore_Increment ::
  "(string \<Rightarrow> int \<Rightarrow> string \<Rightarrow> 's \<Rightarrow> 's \<times> string option) \<Rightarrow> RedisStore \<Rightarrow> 's incr" where
  "RedisStore_Increment exchange r key limit windowSeconds s =
     (let timeout = (if rs_Timeout r = 0 then 1000000000 else rs_Timeout r);
          args = [''EVAL'', fixedWindowLua, ''1'', key, strconv_Itoa limit, strconv_Itoa windowSeconds] in
      case exchange (rs_Addr r) timeout (writeRESPArray args) s of
        (s', None) \<Rightarrow> (s', StoreError ''redis unavailable'')
      | (s', Some reply) \<Rightarrow>
          (s', case readIntegerArray reply of
             ReadPanic p \<Rightarrow> StorePanic p
           | ReadErr e \<Rightarrow> StoreError ''redis error''
           | ReadOk values \<Rightarrow>
               if length values \<noteq> 2 then StoreError ''unexpected redis lua response length''
               else Counted (values ! 0) (values ! 1)))"

section \<open>The configured limiter\<close>

datatype Limiter = Noop | FixedWindow RedisStore bool

definition FromConfig :: "RedisConfig \<Rightarrow> Limiter" where
  "FromConfig cfg =
     (if \<not> rc_Enabled cfg then Noop
      else FixedWindow \<lparr>rs_Addr = rc_Addr cfg, rs_Timeout = 500000000\<rparr> (rc_FailMode cfg = ''closed''))"

definition Limiter_Check ::
  "unicode \<Rightarrow> (string \<Rightarrow> int \<Rightarrow> string \<Rightarrow> 's \<Rightarrow> 's \<times> string option) \<Rightarrow> Limiter \<Rightarrow> int \<Rightarrow> App \<Rightarrow> Request \<Rightarrow>
     RateLimitRule \<Rightarrow> 's \<Rightarrow> 's \<times> (panic + Decision)" where
  "Limiter_Check U exchange l now app req rule s =
     (case l of
        Noop \<Rightarrow> NoopLimiter_Check s
      | FixedWindow store failClosed \<Rightarrow>
          FixedWindowLimiter_Check U (RedisStore_Increment exchange store) failClosed now app req rule s)"

section \<open>The contract of a counter store\<close>

text \<open>A limiter panics only as its store does; a counter store does not panic, and counts.\<close>

locale contained_store =
  fixes incr :: "'s incr" and panics :: "panic set"
  assumes contained: "incr k l w s = (s', StorePanic p) \<Longrightarrow> p \<in> panics"
begin

lemma Check_panics:
  assumes "rl_WindowSeconds rule \<noteq> 0" "FixedWindowLimiter_Check U incr fc now app req rule s = (s', Inl p)"
  shows "p \<in> panics"
  using assms contained [of "check_key U app req rule now" "rl_Limit rule" "rl_WindowSeconds rule" s]
  by (auto simp: FixedWindowLimiter_Check_def split: if_splits prod.splits store_result.splits)

end

locale counter_store = contained_store incr "{}" for incr :: "'s incr" +
  fixes cnt :: "'s \<Rightarrow> string \<Rightarrow> int"
  assumes counted: "incr k l w s = (s', Counted n r) \<Longrightarrow> 0 \<le> cnt s k \<Longrightarrow> cnt s k < 9223372036854775807 \<Longrightarrow>
      0 \<le> l \<Longrightarrow> int64_ok l \<Longrightarrow> n = cnt s k + 1 \<and> r = max 0 (l - n) \<and> cnt s' = (cnt s)(k := n)"
    and not_counted: "incr k l w s = (s', StoreError e) \<Longrightarrow> cnt s' = cnt s"
begin

text \<open>In fail-open mode a rate-limit verdict means that the counter had reached the limit.\<close>

lemma Check_limits_above:
  assumes "FixedWindowLimiter_Check U incr fc now app req rule s = (s', Inr d)"
    and "applies U app req rule" "d_Reason d = ''rate_limit''" "rl_WindowSeconds rule \<noteq> 0" "\<not> fc"
    and "0 \<le> cnt s (check_key U app req rule now)" "cnt s (check_key U app req rule now) < 9223372036854775807"
    and "0 \<le> rl_Limit rule" "int64_ok (rl_Limit rule)"
  shows "rl_Limit rule \<le> cnt s (check_key U app req rule now)"
  using assms counted [of "check_key U app req rule now" "rl_Limit rule" "rl_WindowSeconds rule" s s']
  by (auto simp: FixedWindowLimiter_Check_def allowed_decision_def zero_Decision_def Allow_def
      split: prod.splits store_result.splits if_splits)

end

locale reliable_store = counter_store +
  assumes reliable: "\<exists>s' n r. incr k l w s = (s', Counted n r)"

record attempt =
  at_now :: int
  at_app :: App
  at_req :: Request
  at_rule :: RateLimitRule

definition attempt_applies :: "unicode \<Rightarrow> attempt \<Rightarrow> bool" where
  "attempt_applies U a = applies U (at_app a) (at_req a) (at_rule a)"

definition attempt_key :: "unicode \<Rightarrow> attempt \<Rightarrow> string" where
  "attempt_key U a = check_key U (at_app a) (at_req a) (at_rule a) (at_now a)"

fun run_checks :: "unicode \<Rightarrow> 's incr \<Rightarrow> bool \<Rightarrow> attempt list \<Rightarrow> 's \<Rightarrow> (panic + Decision) list \<times> 's" where
  "run_checks U incr fc [] s = ([], s)"
| "run_checks U incr fc (a # as) s =
     (let (s', d) = FixedWindowLimiter_Check U incr fc (at_now a) (at_app a) (at_req a) (at_rule a) s;
          (ds, s'') = run_checks U incr fc as s' in (d # ds, s''))"

definition hits :: "unicode \<Rightarrow> string \<Rightarrow> attempt list \<Rightarrow> nat" where
  "hits U k as = length (filter (\<lambda>a. attempt_applies U a \<and> attempt_key U a = k) as)"

definition attempt_ok :: "attempt \<Rightarrow> bool" where
  "attempt_ok a \<longleftrightarrow> 0 < rl_WindowSeconds (at_rule a) \<and> 0 < rl_Limit (at_rule a) \<and> int64_ok (rl_Limit (at_rule a))"

definition verdict :: "unicode \<Rightarrow> int \<Rightarrow> attempt \<Rightarrow> Decision" where
  "verdict U n a =
     (if \<not> attempt_applies U a then Allow
      else if n \<le> rl_Limit (at_rule a)
      then allowed_decision (at_rule a) (rl_Limit (at_rule a) - n) (reset_at (at_rule a) (at_now a))
      else rateLimitDecision (at_rule a) 0 (reset_at (at_rule a) (at_now a)))"

context reliable_store
begin

lemma Check_step:
  assumes ok: "attempt_ok a" and cnt: "0 \<le> cnt s (attempt_key U a)" "cnt s (attempt_key U a) < 9223372036854775807"
  obtains s' where
    "FixedWindowLimiter_Check U incr fc (at_now a) (at_app a) (at_req a) (at_rule a) s
       = (s', Inr (verdict U (cnt s (attempt_key U a) + 1) a))"
    "cnt s' = (if attempt_applies U a then (cnt s)(attempt_key U a := cnt s (attempt_key U a) + 1) else cnt s)"
proof (cases "attempt_applies U a")
  case False
  then show thesis
    using that [of s] by (simp add: FixedWindowLimiter_Check_def attempt_applies_def verdict_def)
next
  case True
  obtain s' n r where inc:
    "incr (attempt_key U a) (rl_Limit (at_rule a)) (rl_WindowSeconds (at_rule a)) s = (s', Counted n r)"
    using reliable by blast
  have n: "n = cnt s (attempt_key U a) + 1" and r: "r = max 0 (rl_Limit (at_rule a) - n)"
    and cs: "cnt s' = (cnt s)(attempt_key U a := n)"
    using counted [OF inc cnt] ok by (auto simp: attempt_ok_def)
  show thesis
    using that [of s'] inc True ok n r cs
    by (simp add: FixedWindowLimiter_Check_def attempt_applies_def attempt_key_def verdict_def attempt_ok_def max_def)
qed

lemma run_checks_verdicts:
  assumes "list_all attempt_ok as" "\<forall>k. 0 \<le> cnt s k \<and> cnt s k + int (length as) \<le> 9223372036854775807"
    and "i < length as"
  shows "fst (run_checks U incr fc as s) ! i =
     Inr (verdict U (cnt s (attempt_key U (as ! i)) + int (hits U (attempt_key U (as ! i)) (take i as)) + 1) (as ! i))"
  using assms
proof (induction as arbitrary: s i)
  case Nil
  then show ?case by simp
next
  case (Cons a as)
  have "attempt_ok a" "0 \<le> cnt s (attempt_key U a)" "cnt s (attempt_key U a) < 9223372036854775807"
    using Cons.prems by (auto dest: spec [of _ "attempt_key U a"])
  then obtain s' where check: "FixedWindowLimiter_Check U incr fc (at_now a) (at_app a) (at_req a) (at_rule a) s
       = (s', Inr (verdict U (cnt s (attempt_key U a) + 1) a))"
    and cs: "cnt s' = (if attempt_applies U a then (cnt s)(attempt_key U a := cnt s (attempt_key U a) + 1) else cnt s)"
    by (rule Check_step)
  have bound: "\<forall>k. 0 \<le> cnt s' k \<and> cnt s' k + int (length as) \<le> 9223372036854775807"
    using Cons.prems(2) unfolding cs by (auto simp: algebra_simps dest: spec) (smt (verit))+
  show ?case
  proof (cases i)
    case 0
    then show ?thesis by (simp add: check Let_def split_def hits_def)
  next
    case (Suc j)
    then have "fst (run_checks U incr fc (a # as) s) ! i = fst (run_checks U incr fc as s') ! j"
      by (simp add: check Let_def split_def)
    also have "\<dots> = Inr (verdict U (cnt s' (attempt_key U (as ! j)) + int (hits U (attempt_key U (as ! j)) (take j as)) + 1) (as ! j))"
      using Cons.IH bound Cons.prems(1,3) Suc by simp
    finally show ?thesis using Suc by (simp add: cs hits_def)
  qed
qed

end

interpretation memory: reliable_store MemoryStore_Increment ms_count
proof
  fix k :: string and l w n r :: int and s s' :: MemoryStore
  assume inc: "MemoryStore_Increment k l w s = (s', Counted n r)"
    and b: "0 \<le> ms_count s k" "ms_count s k < 9223372036854775807" "0 \<le> l" "int64_ok l"
  have n: "wrap64 (ms_count s k + 1) = ms_count s k + 1" using b by (simp add: int64_ok_def)
  moreover have "wrap64 (l - (ms_count s k + 1)) = l - (ms_count s k + 1)"
    using b by (simp add: int64_ok_def)
  ultimately show "n = ms_count s k + 1 \<and> r = max 0 (l - n) \<and> ms_count s' = (ms_count s)(k := n)"
    using inc by (auto simp: MemoryStore_Increment_def Let_def ms_count_def fun_eq_iff)
qed (auto simp: MemoryStore_Increment_def Let_def)

text \<open>The one panic of the Redis store: an array reply whose length is negative, as the null array's, or too
  large to allocate.\<close>

interpretation redis: contained_store "RedisStore_Increment exchange store" "{MakeSliceOutOfRange}" for exchange store
  by unfold_locales
    (auto simp: RedisStore_Increment_def readIntegerArray_def Let_def
      split: prod.splits option.splits redis_read.splits if_splits sum.splits)

interpretation failing: counter_store "FailingStore_Increment err" "\<lambda>_ _. 0" for err
  by unfold_locales (auto simp: FailingStore_Increment_def split: option.splits)

section \<open>Keys\<close>

lemma HashKeyPart_shape: "length (HashKeyPart v) = 64" "set (HashKeyPart v) \<subseteq> set ''0123456789abcdef''"
  using hex_alphabet by (simp_all add: HashKeyPart_def hex_length Sum256_length)

lemma append_sep_inj:
  "c \<notin> set a \<Longrightarrow> c \<notin> set a' \<Longrightarrow> a @ c # b = a' @ c # b' \<Longrightarrow> a = a' \<and> b = b'"
proof (induction a arbitrary: a')
  case Nil
  then show ?case by (cases a') auto
next
  case (Cons x xs)
  then show ?case by (cases a') auto
qed

definition no_colon :: "string \<Rightarrow> bool" where
  "no_colon s \<longleftrightarrow> CHR '':'' \<notin> set s"

lemma redis_key_inj:
  assumes eq: "redis_key t a r h w = redis_key t' a' r' h' w'"
    and nc: "no_colon t" "no_colon t'" "no_colon a" "no_colon a'" "no_colon r" "no_colon r'" "no_colon h" "no_colon h'"
  shows "t = t' \<and> a = a' \<and> r = r' \<and> h = h' \<and> w = w'"
proof -
  note sep = append_sep_inj [of "CHR '':''"]
  have 0: "t @ CHR '':'' # a @ CHR '':'' # r @ CHR '':'' # h @ CHR '':'' # strconv_Itoa w
      = t' @ CHR '':'' # a' @ CHR '':'' # r' @ CHR '':'' # h' @ CHR '':'' # strconv_Itoa w'"
    using eq by (simp add: redis_key_def)
  note 1 = sep [OF _ _ 0] note 2 = sep [OF _ _ 1 [THEN conjunct2]]
  note 3 = sep [OF _ _ 2 [THEN conjunct2]] note 4 = sep [OF _ _ 3 [THEN conjunct2]]
  show ?thesis using nc 1 2 3 4 Itoa_inj unfolding no_colon_def by metis
qed

lemma HashKeyPart_no_colon: "no_colon (HashKeyPart v)"
proof -
  have "CHR '':'' \<notin> set ''0123456789abcdef''" by simp
  with HashKeyPart_shape(2) [of v] show ?thesis unfolding no_colon_def by blast
qed

lemma redis_key_collision:
  "redis_key ''a:b'' ''c'' r h w = redis_key ''a'' ''b:c'' r h w"
  by (simp add: redis_key_def)

section \<open>The wire format\<close>

text \<open>A reader of RESP arrays of bulk strings, from the protocol description: lengths decide where a
  string ends, not its content.\<close>

definition resp_read_bulk :: "string \<Rightarrow> (string \<times> string) option" where
  "resp_read_bulk s =
     (let ds = takeWhile is_digit_char (tl s); n = read_nat ds; r = drop (length ds) (tl s); body = drop 2 r in
      if s = [] \<or> hd s \<noteq> CHR ''$'' \<or> ds = [] \<or> take 2 r \<noteq> crlf \<or> length body < n \<or> take 2 (drop n body) \<noteq> crlf
      then None else Some (take n body, drop 2 (drop n body)))"

fun resp_read_bulks :: "nat \<Rightarrow> string \<Rightarrow> (string list \<times> string) option" where
  "resp_read_bulks 0 s = Some ([], s)"
| "resp_read_bulks (Suc k) s =
     (case resp_read_bulk s of
        None \<Rightarrow> None
      | Some (v, r) \<Rightarrow> (case resp_read_bulks k r of None \<Rightarrow> None | Some (vs, r') \<Rightarrow> Some (v # vs, r')))"

definition resp_read_array :: "string \<Rightarrow> (string list \<times> string) option" where
  "resp_read_array s =
     (let ds = takeWhile is_digit_char (tl s); r = drop (length ds) (tl s) in
      if s = [] \<or> hd s \<noteq> CHR ''*'' \<or> ds = [] \<or> take 2 r \<noteq> crlf then None
      else resp_read_bulks (read_nat ds) (drop 2 r))"

lemma takeWhile_show_nat: "takeWhile is_digit_char (show_nat n @ crlf @ r) = show_nat n"
  using show_nat_digits [of n]
  by (simp add: takeWhile_append list_all_iff crlf_def is_digit_char_def ascii_digit_def)

lemma resp_read_bulk_string: "resp_read_bulk (bulk_string v @ r) = Some (v, r)"
  using show_nat_digits [of "length v"] takeWhile_show_nat [of "length v" "v @ crlf @ r"]
  by (simp add: resp_read_bulk_def bulk_string_def Let_def crlf_def)

lemma resp_read_bulk_strings: "resp_read_bulks (length vs) (concat (map bulk_string vs) @ r) = Some (vs, r)"
  by (induction vs) (simp_all add: resp_read_bulk_string)

lemma resp_roundtrip: "resp_read_array (writeRESPArray vs @ r) = Some (vs, r)"
  using show_nat_digits [of "length vs"] takeWhile_show_nat [of "length vs" "concat (map bulk_string vs) @ r"]
  by (simp add: resp_read_array_def writeRESPArray_def Let_def resp_read_bulk_strings) (simp add: crlf_def resp_read_bulk_strings)

text \<open>The reply of the script as the server sends it.\<close>

definition integer_reply :: "int list \<Rightarrow> string" where
  "integer_reply vs = ''*'' @ show_nat (length vs) @ crlf @ concat (map (\<lambda>v. '':'' @ strconv_Itoa v @ crlf) vs)"

lemma read_line_crlf: "CHR 0x0A \<notin> set l \<Longrightarrow> read_line (l @ crlf @ r) = Some (l @ crlf, r)"
  by (simp add: read_line_def crlf_def takeWhile_append dropWhile_append)

lemma trim_right_step:
  "trim_left_any (map rev space_encodings) (CHR 0x0A # s) = trim_left_any (map rev space_encodings) s"
  "trim_left_any (map rev space_encodings) (CHR 0x0D # s) = trim_left_any (map rev space_encodings) s"
  by (subst trim_left_any.simps, simp add: space_encodings_def strings_HasPrefix_def)+

lemma TrimSpace_crlf:
  assumes "l \<noteq> []" "graphic (hd l)" "graphic (last l)"
  shows "strings_TrimSpace (l @ crlf) = l"
proof -
  have "\<not> (\<exists>e \<in> set space_encodings. e \<noteq> [] \<and> strings_HasPrefix (l @ crlf) e)"
  proof
    assume "\<exists>e \<in> set space_encodings. e \<noteq> [] \<and> strings_HasPrefix (l @ crlf) e"
    then obtain e t where e: "e \<in> set space_encodings" "e \<noteq> []" "l @ crlf = e @ t" by (auto simp: HasPrefix_iff)
    then have "hd e = hd l" using assms(1) by (metis hd_append2)
    with space_encoding_bytes(1) [OF e(1)] assms(2) show False by (auto simp: graphic_def)
  qed
  then have "trim_left_any space_encodings (l @ crlf) = l @ crlf" by (rule trim_left_any_id)
  moreover have "rev (trim_left_any (map rev space_encodings) (rev l)) = l"
  proof -
    have l: "strings_TrimSpace l = l" using assms by (intro TrimSpace_graphic) blast
    have "\<not> (\<exists>e \<in> set space_encodings. e \<noteq> [] \<and> strings_HasPrefix l e)"
      using TrimSpace_no_prefix [of _ l] unfolding l by blast
    then have "trim_left_any space_encodings l = l" by (rule trim_left_any_id)
    with l show ?thesis by (simp add: strings_TrimSpace_def)
  qed
  ultimately show ?thesis by (simp add: strings_TrimSpace_def crlf_def trim_right_step)
qed

lemma Itoa_graphic: "c \<in> set (strconv_Itoa v) \<Longrightarrow> graphic c \<and> c \<noteq> CHR 0x0A"
  using Itoa_chars [of c v] by (auto simp: graphic_def is_digit_char_def ascii_digit_def)

lemma tagged_line:
  assumes "graphic c" "c \<noteq> CHR 0x0A" "ds \<noteq> []" "\<And>d. d \<in> set ds \<Longrightarrow> graphic d \<and> d \<noteq> CHR 0x0A"
  shows "read_line (c # ds @ crlf @ r) = Some (c # ds @ crlf, r)" "strings_TrimSpace (c # ds @ crlf) = c # ds"
proof -
  show "read_line (c # ds @ crlf @ r) = Some (c # ds @ crlf, r)"
    using read_line_crlf [of "c # ds" r] assms by auto
  have "graphic (last (c # ds))" using assms by simp
  then show "strings_TrimSpace (c # ds @ crlf) = c # ds"
    using TrimSpace_crlf [of "c # ds"] assms(1) by simp
qed

lemma read_integers_reply:
  "list_all int64_ok vs \<Longrightarrow> read_integers (length vs) (concat (map (\<lambda>v. '':'' @ strconv_Itoa v @ crlf) vs)) = Inr vs"
proof (induction vs)
  case (Cons v vs)
  have "graphic CHR '':''" "CHR '':'' \<noteq> CHR 0x0A" by (simp_all add: graphic_def)
  note line = tagged_line [OF this Itoa_nonempty [of v] Itoa_graphic]
  have "strings_TrimPrefix (CHR '':'' # strconv_Itoa v) '':'' = strconv_Itoa v"
    "strings_HasPrefix (CHR '':'' # strconv_Itoa v) '':''"
    by (simp_all add: strings_TrimPrefix_def strings_HasPrefix_def)
  with Cons show ?case by (simp add: line Let_def ParseInt_Itoa)
qed simp

lemma readIntegerArray_reply:
  assumes "list_all int64_ok vs" "length vs \<le> 1000"
  shows "readIntegerArray (integer_reply vs) = ReadOk vs"
proof -
  have g: "graphic CHR ''*''" "CHR ''*'' \<noteq> CHR 0x0A" by (simp_all add: graphic_def)
  have n: "show_nat (length vs) = strconv_Itoa (int (length vs))" by (simp add: strconv_Itoa_def)
  note line = tagged_line [OF g Itoa_nonempty [of "int (length vs)"] Itoa_graphic]
  have "int64_ok (int (length vs))" "make_cap_ok (int (length vs))"
    using assms(2) by (simp_all add: int64_ok_def make_cap_ok_def)
  moreover have "strings_TrimPrefix (CHR ''*'' # strconv_Itoa (int (length vs))) ''*'' = strconv_Itoa (int (length vs))"
    "strings_HasPrefix (CHR ''*'' # strconv_Itoa (int (length vs))) ''*''"
    "\<not> strings_HasPrefix (CHR ''*'' # strconv_Itoa (int (length vs))) ''-''"
    by (simp_all add: strings_TrimPrefix_def strings_HasPrefix_def)
  ultimately show ?thesis
    by (simp add: readIntegerArray_def integer_reply_def n line Let_def ParseInt_Itoa
        read_integers_reply [OF assms(1), simplified])
qed

lemma readIntegerArray_null: "readIntegerArray (''*-1'' @ crlf) = ReadPanic MakeSliceOutOfRange"
proof -
  have g: "graphic CHR ''*''" "CHR ''*'' \<noteq> CHR 0x0A" by (simp_all add: graphic_def)
  have i: "strconv_Itoa (- 1) = ''-1''" by (simp add: strconv_Itoa_def show_nat.simps digit_char_def)
  have "\<And>d. d \<in> set ''-1'' \<Longrightarrow> graphic d \<and> d \<noteq> CHR 0x0A" by (auto simp: graphic_def)
  note line = tagged_line [OF g _ this, of "''-1''", simplified]
  show ?thesis
    using line(1) [of "[]"] line(2) ParseInt_Itoa [of "- 1", unfolded i]
    by (simp add: readIntegerArray_def Let_def strings_TrimPrefix_def strings_HasPrefix_def int64_ok_def make_cap_ok_def)
qed

section \<open>Properties\<close>

text \<open>C19: Over the in-memory store the limiter counts exactly.  For any sequence of requests, of any
  applications, rules and times, starting from the empty store: a request that a rule applies to
  is let through if at most \<open>Limit\<close> requests so far (itself included) fell on its counter key, with
  the exact remaining budget reported, and gets the rule's rate-limit decision otherwise.\<close>

theorem fixed_window_exact:
  assumes "list_all attempt_ok as" "length as < 2 ^ 62" "i < length as"
  shows "fst (run_checks U MemoryStore_Increment fc as NewMemoryStore) ! i =
     Inr (verdict U (int (hits U (attempt_key U (as ! i)) (take i as)) + 1) (as ! i))"
proof -
  have "ms_count NewMemoryStore k = 0" for k by (simp add: ms_count_def NewMemoryStore_def)
  then show ?thesis
    using memory.run_checks_verdicts [OF assms(1) _ assms(3), where s = NewMemoryStore] assms(2) by simp
qed

definition sample_attempt :: attempt where
  "sample_attempt = \<lparr>at_now = 90, at_app = sample_compiled, at_req = \<lparr>rr_ClientIP = ''203.0.113.9'',
     rr_Method = ''GET'', rr_Host = ''example.com'', rr_Path = ''/'', rr_Headers = [], rr_Query = []\<rparr>,
     at_rule = hd (app_RateLimits sample_compiled)\<rparr>"

theorem fixed_window_exact_witness:
  "fst (run_checks ascii_tables MemoryStore_Increment False (replicate 3 sample_attempt) NewMemoryStore) ! 1
     = Inr (allowed_decision (at_rule sample_attempt) 0 120) \<and>
   fst (run_checks ascii_tables MemoryStore_Increment False (replicate 3 sample_attempt) NewMemoryStore) ! 2
     = Inr (rateLimitDecision (at_rule sample_attempt) 0 120)"
proof -
  have ok: "list_all attempt_ok (replicate 3 sample_attempt)"
    by (simp add: list_all_iff attempt_ok_def sample_attempt_def sample_compiled_def int64_ok_def)
  have app: "attempt_applies ascii_tables sample_attempt"
    by (simp add: attempt_applies_def applies_def sample_attempt_def sample_compiled_def)
  have at: "reset_at (at_rule sample_attempt) (at_now sample_attempt) = 120" "rl_Limit (at_rule sample_attempt) = 2"
    by (simp_all add: reset_at_def window_of_def sample_attempt_def sample_compiled_def go_div_def int64_ok_def)
  have h: "hits ascii_tables (attempt_key ascii_tables sample_attempt) (replicate k sample_attempt) = k" for k
    using app by (simp add: hits_def)
  have "verdict ascii_tables 2 sample_attempt = allowed_decision (at_rule sample_attempt) 0 120"
    "verdict ascii_tables 3 sample_attempt = rateLimitDecision (at_rule sample_attempt) 0 120"
    by (simp_all add: app at verdict_def)
  moreover have "take k (replicate 3 sample_attempt) = replicate (min k 3) sample_attempt" for k
    by (rule take_replicate)
  ultimately show ?thesis
    using fixed_window_exact [OF ok, of 1 ascii_tables False] fixed_window_exact [OF ok, of 2 ascii_tables False]
      h [of 1] h [of 2] by (simp del: replicate.simps One_nat_def)
qed

text \<open>With a rule of a compiled application and a store that does not panic, a check returns a
  decision (the window is never zero, so there is no division by zero), and the decision lets the
  request through, counts it or rate-limits it.\<close>

theorem Check_total:
  assumes "newApp cfg = Inr app" "rule \<in> set (app_RateLimits app)"
    and "\<And>k l w s s' p. incr k l w s \<noteq> (s', StorePanic p)"
  shows "\<exists>s' d. FixedWindowLimiter_Check U incr fc now app req rule s = (s', Inr d) \<and>
     d_Action d \<in> {ActionAllow, ActionCount, ActionRateLimit}"
proof -
  have "0 < rl_WindowSeconds rule"
    using newApp_wf [OF assms(1)] assms(2) by (auto simp: app_ok_def list_all_iff rate_limit_ok_def)
  then show ?thesis
    using assms(3) [of "check_key U app req rule now" "rl_Limit rule" "rl_WindowSeconds rule" s]
    by (auto simp: FixedWindowLimiter_Check_def allowed_decision_def rateLimitDecision_def
        split: prod.split store_result.split)
qed

theorem Check_total_witness:
  "\<exists>s' d. FixedWindowLimiter_Check ascii_tables (FailingStore_Increment None) True 90 sample_compiled
     (at_req sample_attempt) (hd (app_RateLimits sample_compiled)) (0 :: int) = (s', Inr d) \<and>
     d_Action d \<in> {ActionAllow, ActionCount, ActionRateLimit}"
proof (rule Check_total [OF sample_newApp])
  show "hd (app_RateLimits sample_compiled) \<in> set (app_RateLimits sample_compiled)"
    by (simp add: sample_compiled_def)
  show "FailingStore_Increment None k l w s \<noteq> (s', StorePanic p)" for k l w and s s' :: int and p
    by (simp add: FailingStore_Increment_def)
qed

text \<open>When the store is unavailable, an applicable rule lets the request through in fail-open
  mode and gives the rule's rate-limit decision in fail-closed mode; the store is left as it was.\<close>

theorem Check_store_failure:
  assumes "applies U app req rule" "rl_WindowSeconds rule \<noteq> 0"
  shows "FixedWindowLimiter_Check U (FailingStore_Increment err) fc now app req rule s =
     (s, Inr (if fc then rateLimitDecision rule 0 (reset_at rule now) else Allow))"
  using assms by (simp add: FixedWindowLimiter_Check_def FailingStore_Increment_def split: option.split)

theorem Check_store_failure_witness:
  "FixedWindowLimiter_Check ascii_tables (FailingStore_Increment None) False 90 sample_compiled
     (at_req sample_attempt) (at_rule sample_attempt) () = ((), Inr Allow)"
proof -
  have "applies ascii_tables sample_compiled (at_req sample_attempt) (at_rule sample_attempt)"
    "rl_WindowSeconds (at_rule sample_attempt) \<noteq> 0"
    by (simp_all add: applies_def sample_attempt_def sample_compiled_def)
  from Check_store_failure [OF this, of None False 90 "()"] show ?thesis by simp
qed

text \<open>Counters of different tenants, applications, rules, windows or hashed key parts never share
  a key, provided no identifier contains a colon.\<close>

theorem redis_key_separates:
  assumes "redis_key t a r (HashKeyPart v) w = redis_key t' a' r' (HashKeyPart v') w'"
    and "no_colon t" "no_colon t'" "no_colon a" "no_colon a'" "no_colon r" "no_colon r'"
  shows "t = t' \<and> a = a' \<and> r = r' \<and> HashKeyPart v = HashKeyPart v' \<and> w = w'"
  using redis_key_inj [OF assms(1)] assms(2-) HashKeyPart_no_colon by blast

theorem redis_key_separates_witness:
  "redis_key ''t1'' ''app'' ''login'' (HashKeyPart ''203.0.113.9'') 7 \<noteq>
   redis_key ''t2'' ''app'' ''login'' (HashKeyPart ''203.0.113.9'') 7"
proof
  assume eq: "redis_key ''t1'' ''app'' ''login'' (HashKeyPart ''203.0.113.9'') 7 =
    redis_key ''t2'' ''app'' ''login'' (HashKeyPart ''203.0.113.9'') 7"
  have "''t1'' = ''t2'' \<and> ''app'' = ''app'' \<and> ''login'' = ''login'' \<and>
      HashKeyPart ''203.0.113.9'' = HashKeyPart ''203.0.113.9'' \<and> (7 :: int) = 7"
    by (rule redis_key_separates [OF eq]) (simp_all add: no_colon_def)
  then show False by simp
qed

text \<open>The colon is a real condition: a tenant named \<open>a:b\<close> with application \<open>c\<close> shares every counter
  with tenant \<open>a\<close> and application \<open>b:c\<close>, for every rule, key part and window.\<close>

theorem redis_key_tenant_collision:
  "redis_key ''a:b'' ''c'' r h w = redis_key ''a'' ''b:c'' r h w"
  by (rule redis_key_collision)

text \<open>C23: The commands written to Redis decode to exactly the arguments, whatever bytes the key
  contains (line breaks included), so a key cannot inject a further command; and the store reads
  the two integers of the script's reply back exactly.\<close>

theorem redis_wire_roundtrip:
  assumes "int64_ok current" "int64_ok remaining"
  shows "resp_read_array (writeRESPArray args @ rest) = Some (args, rest) \<and>
     readIntegerArray (integer_reply [current, remaining]) = ReadOk [current, remaining]"
  using assms resp_roundtrip readIntegerArray_reply [of "[current, remaining]"] by simp

theorem redis_wire_roundtrip_witness:
  "readIntegerArray (integer_reply [3, 7]) = ReadOk [3, 7]"
proof -
  have "int64_ok 3" "int64_ok 7" by (simp_all add: int64_ok_def)
  from redis_wire_roundtrip [OF this, of "[]" "[]"] show ?thesis by simp
qed

text \<open>Against a server that runs the script, one increment of the Redis store returns the counter
  after \<open>INCR\<close> and what is left of the limit, and the counter gets its expiry exactly when it was
  created by this call.\<close>

theorem redis_store_runs_script:
  assumes "run_fixedWindowLua INCR EXPIRE key limit windowSeconds s = (s', reply)"
    and "INCR key s = (s1, n)" "int64_ok n" "0 \<le> limit" "int64_ok limit" "0 < n"
    and "exchange (rs_Addr r) (if rs_Timeout r = 0 then 1000000000 else rs_Timeout r)
      (writeRESPArray [''EVAL'', fixedWindowLua, ''1'', key, strconv_Itoa limit, strconv_Itoa windowSeconds]) s
      = (s', Some (integer_reply reply))"
  shows "RedisStore_Increment exchange r key limit windowSeconds s = (s', Counted n (max 0 (limit - n))) \<and>
     s' = (if n = 1 then EXPIRE key windowSeconds s1 else s1)"
proof -
  have reply: "reply = [n, max 0 (limit - n)]" "s' = (if n = 1 then EXPIRE key windowSeconds s1 else s1)"
    using assms(1,2) by (auto simp: run_fixedWindowLua_def Let_def)
  have "int64_ok (max 0 (limit - n))" using assms(3-6) by (auto simp: int64_ok_def)
  then have "readIntegerArray (integer_reply reply) = ReadOk [n, max 0 (limit - n)]"
    using readIntegerArray_reply [of "[n, max 0 (limit - n)]"] assms(3) by (simp add: reply)
  then show ?thesis using assms(7) reply by (simp add: RedisStore_Increment_def Let_def)
qed

definition sample_INCR :: "string \<Rightarrow> (string \<Rightarrow> int) \<Rightarrow> (string \<Rightarrow> int) \<times> int" where
  "sample_INCR k m = (m(k := m k + 1), m k + 1)"

theorem redis_store_runs_script_witness:
  "RedisStore_Increment (\<lambda>_ _ _ m. (m(''k'' := 1), Some (integer_reply [1, 9]))) \<lparr>rs_Addr = [], rs_Timeout = 0\<rparr>
     ''k'' 10 60 (\<lambda>_. 0 :: int) = ((\<lambda>_. 0)(''k'' := 1), Counted 1 9)"
proof -
  have "run_fixedWindowLua sample_INCR (\<lambda>_ _ m. m) ''k'' 10 60 (\<lambda>_. 0) = ((\<lambda>_. 0)(''k'' := 1), [1, 9])"
    "sample_INCR ''k'' (\<lambda>_. 0) = ((\<lambda>_. 0)(''k'' := 1), 1)"
    by (simp_all add: run_fixedWindowLua_def sample_INCR_def)
  from redis_store_runs_script [OF this, of "\<lambda>_ _ _ m. (m(''k'' := 1), Some (integer_reply [1, 9]))"
      "\<lparr>rs_Addr = [], rs_Timeout = 0\<rparr>"]
  show ?thesis by (simp add: int64_ok_def)
qed

end
