(* ===== verification/Redaction.thy ===== *)
theory Redaction
  imports Go_Http
begin

text \<open>
  Redaction of what the audit log records (\<open>services/gateway/internal/audit/redaction/redaction.go\<close>).
  The lemmas first show that \<open>url.ParseQuery\<close> inverts \<open>Values.Encode\<close>; on top of them a redacted
  query is characterised by what a reader of the log parses back from it.
\<close>

definition sensitiveQueryNames :: "string list" where
  "sensitiveQueryNames = [''password'', ''pass'', ''token'', ''access_token'', ''refresh_token'', ''secret'',
     ''api_key'', ''key'', ''code'']"

definition sensitiveHeaderNames :: "string list" where
  "sensitiveHeaderNames = [''authorization'', ''cookie'']"

definition redactedValue :: string where
  "redactedValue = ''[REDACTED]''"

definition IsSensitiveQueryName :: "unicode \<Rightarrow> string \<Rightarrow> bool" where
  "IsSensitiveQueryName U name \<longleftrightarrow> strings_ToLower U (strings_TrimSpace name) \<in> set sensitiveQueryNames"

definition IsSensitiveHeaderName :: "unicode \<Rightarrow> string \<Rightarrow> bool" where
  "IsSensitiveHeaderName U name \<longleftrightarrow> strings_ToLower U (strings_TrimSpace name) \<in> set sensitiveHeaderNames"

definition redact_values :: "unicode \<Rightarrow> url_values \<Rightarrow> url_values" where
  "redact_values U vs =
     map (\<lambda>e. if IsSensitiveQueryName U (fst e) then (fst e, [redactedValue]) else e) vs"

definition Query :: "unicode \<Rightarrow> string \<Rightarrow> string" where
  "Query U rawQuery =
     (if rawQuery = [] then []
      else (case url_ParseQuery rawQuery of (vs, err) \<Rightarrow>
        if err then redactedValue else values_Encode (redact_values U vs)))"

definition Headers :: "unicode \<Rightarrow> http_header \<Rightarrow> http_header" where
  "Headers U headers =
     fold (\<lambda>(name, vs) redacted.
        let canonical = http_CanonicalHeaderKey name in
        if IsSensitiveHeaderName U name then AList.update canonical [redactedValue] redacted
        else AList.update canonical vs redacted) headers []"

section \<open>Encoding and parsing queries\<close>

lemma upper_hex_inv:
  assumes "d < 16"
  shows "is_hex_char (upper_hex d)" "hex_value (upper_hex d) = d"
proof -
  have "d \<in> set [0, 1, 2, 3, 4, 5, 6, 7, 8, 9, 10, 11, 12, 13, 14, 15]" using assms by (simp, presburger)
  then show "is_hex_char (upper_hex d)" "hex_value (upper_hex d) = d"
    by (auto simp: upper_hex_def is_hex_char_def hex_value_def ascii_digit_def)
qed

lemma hex_digits_char: "char_of (byte c div 16 * 16 + byte c mod 16) = c"
  by (simp add: mult.commute)

lemma unescape_escape_char:
  "url_unescape EncodeQueryComponent (escape_char EncodeQueryComponent c @ t) =
     map_option (Cons c) (url_unescape EncodeQueryComponent t)"
proof -
  have "byte c div 16 < 16" "byte c mod 16 < 16"
    using nat_of_char_less_256 [of c] by (simp_all add: less_mult_imp_div_less)
  note hex = upper_hex_inv [OF this(1)] upper_hex_inv [OF this(2)]
  show ?thesis
  proof (cases "c = CHR '' ''")
    case False
    show ?thesis
    proof (cases "shouldEscape c EncodeQueryComponent")
      case True
      with False hex show ?thesis by (simp add: escape_char_def hex_digits_char Let_def)
    next
      case ne: False
      then have "c \<noteq> CHR ''%''" "c \<noteq> CHR ''+''"
        by (auto simp: shouldEscape_def ascii_letter_def ascii_upper_def ascii_digit_def)
      with ne False show ?thesis by (simp add: escape_char_def)
    qed
  qed (simp add: escape_char_def)
qed

lemma unescape_escape: "url_unescape EncodeQueryComponent (url_QueryEscape s) = Some s"
  by (induction s) (simp_all add: url_escape_def unescape_escape_char)

lemma escape_char_safe: "set (escape_char EncodeQueryComponent c) \<inter> set ''&=;'' = {}"
proof -
  have "byte c div 16 < 16" "byte c mod 16 < 16"
    using nat_of_char_less_256 [of c] by (simp_all add: less_mult_imp_div_less)
  then have "upper_hex (byte c div 16) \<in> set ''0123456789ABCDEF''" "upper_hex (byte c mod 16) \<in> set ''0123456789ABCDEF''"
    unfolding upper_hex_def by (intro nth_mem; simp)+
  moreover have "set ''0123456789ABCDEF'' \<inter> set ''&=;'' = {}" by simp
  ultimately have hex: "upper_hex (byte c div 16) \<notin> set ''&=;''" "upper_hex (byte c mod 16) \<notin> set ''&=;''" by blast+
  have "c \<notin> set ''&=;''" if "\<not> shouldEscape c EncodeQueryComponent"
    using that by (auto simp: shouldEscape_def ascii_letter_def ascii_upper_def ascii_digit_def)
  with hex show ?thesis by (auto simp: escape_char_def)
qed

lemma escape_safe: "set (url_QueryEscape s) \<inter> set ''&=;'' = {}"
  unfolding url_escape_def set_concat set_map using escape_char_safe by blast

lemma Cut_first: "d \<notin> set a \<Longrightarrow> strings_Cut d (a @ d # b) = (a, b, True)"
  by (simp add: strings_Cut_def takeWhile_append dropWhile_append)

lemma parse_segment_encoded: "parse_segment (vs, err) (encode_pair (k, v)) = (values_add vs k v, err)"
proof -
  have "CHR ''='' \<notin> set (url_QueryEscape k)" "CHR '';'' \<notin> set (url_QueryEscape k)" "CHR '';'' \<notin> set (url_QueryEscape v)"
    using escape_safe [of k] escape_safe [of v] by auto
  then show ?thesis
    by (simp add: parse_segment_def encode_pair_def Cut_first unescape_escape)
qed

lemma encode_pair_no_amp: "CHR ''&'' \<notin> set (encode_pair p)"
  using escape_safe [of "fst p"] escape_safe [of "snd p"] by (auto simp: encode_pair_def)

lemma split_join: "xs \<noteq> [] \<Longrightarrow> (\<forall>x \<in> set xs. d \<notin> set x) \<Longrightarrow> split_on d (strings_Join xs [d]) = xs"
proof (induction xs "[d]" rule: strings_Join.induct)
  case (2 x)
  then show ?case by (simp add: split_on_id)
next
  case (3 x y xs)
  then show ?case by (simp add: split_on_append)
qed simp

text \<open>Parsing an encoded list of pairs adds the pairs in order.\<close>

definition add_pairs :: "url_values \<Rightarrow> (string \<times> string) list \<Rightarrow> url_values" where
  "add_pairs vs ps = foldl (\<lambda>vs p. values_add vs (fst p) (snd p)) vs ps"

lemma parse_encoded_pairs: "foldl parse_segment (vs, err) (map encode_pair ps) = (add_pairs vs ps, err)"
proof (induction ps arbitrary: vs)
  case (Cons p ps)
  then show ?case by (cases p) (simp add: parse_segment_encoded add_pairs_def)
qed (simp add: add_pairs_def)

lemma ParseQuery_pairs: "url_ParseQuery (strings_Join (map encode_pair ps) ''&'') = (add_pairs [] ps, False)"
proof (cases "ps = []")
  case True
  then show ?thesis by (simp add: url_ParseQuery_def parse_segment_def add_pairs_def)
next
  case False
  then have "split_on CHR ''&'' (strings_Join (map encode_pair ps) ''&'') = map encode_pair ps"
    using encode_pair_no_amp by (intro split_join) auto
  then show ?thesis by (simp add: url_ParseQuery_def parse_encoded_pairs)
qed

lemma values_get_add: "values_get (values_add vs k v) j = values_get vs j @ (if j = k then [v] else [])"
  by (simp add: values_get_def values_add_def update_conv')

lemma values_get_add_pairs: "values_get (add_pairs vs ps) k = values_get vs k @ map snd (filter (\<lambda>p. fst p = k) ps)"
  by (induction ps arbitrary: vs) (auto simp: add_pairs_def values_get_add)

lemma encode_pairs_filter:
  assumes "distinct (map fst vs)"
  shows "map snd (filter (\<lambda>p. fst p = k) (encode_pairs vs)) = values_get vs k"
proof -
  have d: "distinct (sort (map fst vs))" using assms by simp
  have eq: "map snd (filter (\<lambda>p. fst p = k) (concat (map (\<lambda>j. map (\<lambda>v. (j, v)) (values_get vs j)) ks)))
      = (if k \<in> set ks then values_get vs k else [])" if "distinct ks" for ks
    using that
  proof (induction ks)
    case (Cons j ks)
    have "map snd (filter (\<lambda>p. fst p = k) (map (\<lambda>v. (j, v)) (values_get vs j))) = (if j = k then values_get vs k else [])"
      by (simp add: filter_map comp_def)
    with Cons show ?case by auto
  qed simp
  have "values_get vs k = []" if "k \<notin> fst ` set vs"
    using that by (simp add: values_get_def map_of_eq_None_iff [THEN iffD2])
  then show ?thesis by (simp add: encode_pairs_def eq [OF d])
qed

lemma ParseQuery_Encode:
  assumes "distinct (map fst vs)"
  shows "\<not> snd (url_ParseQuery (values_Encode vs))"
    and "values_get (fst (url_ParseQuery (values_Encode vs))) k = values_get vs k"
  by (simp_all add: values_Encode_def ParseQuery_pairs values_get_add_pairs encode_pairs_filter [OF assms]
      values_get_def [of "[]"])

lemma distinct_values_add: "distinct (map fst vs) \<Longrightarrow> distinct (map fst (values_add vs k v))"
  by (simp add: values_add_def distinct_update)

lemma parse_segment_distinct: "distinct (map fst (fst st)) \<Longrightarrow> distinct (map fst (fst (parse_segment st seg)))"
  by (cases st) (auto simp: parse_segment_def distinct_values_add split: prod.split option.split)

lemma ParseQuery_distinct: "distinct (map fst (fst (url_ParseQuery q)))"
proof -
  have "distinct (map fst (fst st)) \<Longrightarrow> distinct (map fst (fst (foldl parse_segment st segs)))" for st segs
    by (induction segs arbitrary: st) (auto simp: parse_segment_distinct)
  then show ?thesis by (simp add: url_ParseQuery_def)
qed

section \<open>What redaction hides\<close>

lemma redact_values_keys [simp]: "map fst (redact_values U vs) = map fst vs"
  by (induction vs) (auto simp: redact_values_def)

lemma redact_values_get:
  "values_get (redact_values U vs) k =
     (if IsSensitiveQueryName U k then (if k \<in> fst ` set vs then [redactedValue] else []) else values_get vs k)"
  by (induction vs) (auto simp: redact_values_def values_get_def)

lemma values_Encode_cong:
  assumes "mset (map fst vs) = mset (map fst vs')" "\<And>k. values_get vs k = values_get vs' k"
  shows "values_Encode vs = values_Encode vs'"
proof -
  have "sort (map fst vs) = sort (map fst vs')" using assms(1) by (metis sorted_list_of_multiset_mset)
  with assms(2) show ?thesis by (simp add: values_Encode_def encode_pairs_def)
qed

lemma Query_parsed:
  "raw \<noteq> [] \<Longrightarrow> url_ParseQuery raw = (vs, False) \<Longrightarrow> Query U raw = values_Encode (redact_values U vs)"
  by (simp add: Query_def)

lemma canonical_bytes_lower: "map ascii_lower (canonical_bytes up s) = map ascii_lower s"
proof (induction s arbitrary: up)
  case (Cons c s)
  have "ascii_lower (ascii_raise c) = ascii_lower c"
  proof (cases "97 \<le> byte c \<and> byte c \<le> 122")
    case True
    then have "ascii_upper (byte (ascii_raise c))" "\<not> ascii_upper (byte c)"
      by (auto simp: ascii_raise_bytes ascii_upper_def)
    then have "byte (ascii_lower (ascii_raise c)) = byte (ascii_lower c)"
      using True by (simp add: byte_ascii_lower ascii_raise_bytes)
    then show ?thesis using of_char_eq_iff by blast
  next
    case False
    then have "ascii_raise c = c" unfolding ascii_raise_def by (rule if_not_P)
    then show ?thesis by simp
  qed
  with Cons show ?case by simp
qed simp

lemma IsSensitiveHeaderName_canonical:
  "IsSensitiveHeaderName U (http_CanonicalHeaderKey n) = IsSensitiveHeaderName U n"
proof (cases "list_all validHeaderFieldByte n")
  case True
  have trim: "strings_TrimSpace m = m" and asc: "is_ascii m" if "list_all validHeaderFieldByte m" for m
  proof -
    have g: "\<forall>c \<in> set m. graphic c" using that validHeaderFieldByte_graphic unfolding list_all_iff by blast
    then show "strings_TrimSpace m = m" by (intro TrimSpace_graphic) (meson hd_in_set last_in_set)
    show "is_ascii m" using g by (simp add: is_ascii_def list_all_iff graphic_def)
  qed
  show ?thesis
    using True canonical_bytes_valid [OF True]
    by (simp add: IsSensitiveHeaderName_def http_CanonicalHeaderKey_def trim asc ToLower_ascii canonical_bytes_lower)
next
  case False
  then show ?thesis by (simp add: http_CanonicalHeaderKey_def)
qed

lemma Headers_sensitive:
  assumes "IsSensitiveHeaderName U k"
  shows "header_values (Headers U h) k \<in> {[], [redactedValue]}"
proof -
  let ?f = "\<lambda>(name, vs) redacted.
        let canonical = http_CanonicalHeaderKey name in
        if IsSensitiveHeaderName U name then AList.update canonical [redactedValue] redacted
        else AList.update canonical vs redacted"
  have "header_values (fold ?f h acc) k \<in> {[], [redactedValue]}"
    if "header_values acc k \<in> {[], [redactedValue]}" for acc
    using that
  proof (induction h arbitrary: acc)
    case (Cons e h)
    obtain n vs where e: "e = (n, vs)" by (cases e)
    have "header_values (?f e acc) k \<in> {[], [redactedValue]}"
      using Cons.prems IsSensitiveHeaderName_canonical [of U n] assms
      by (auto simp: e header_values_def update_conv' Let_def)
    from Cons.IH [OF this] show ?case by simp
  qed simp
  then show ?thesis by (simp add: Headers_def header_values_def)
qed

section \<open>Properties\<close>

text \<open>C25: Redacting a query that parses gives a query that parses again, in which every sensitive
  parameter has the single value \<open>[REDACTED]\<close> and every other parameter its original values; a
  query that does not parse is replaced as a whole.\<close>

theorem Query_redacts:
  "(\<forall>vs. raw \<noteq> [] \<and> url_ParseQuery raw = (vs, False) \<longrightarrow>
      \<not> snd (url_ParseQuery (Query U raw)) \<and>
      (\<forall>k. values_get (fst (url_ParseQuery (Query U raw))) k =
         (if IsSensitiveQueryName U k then (if k \<in> fst ` set vs then [redactedValue] else [])
          else values_get vs k))) \<and>
   (snd (url_ParseQuery raw) \<and> raw \<noteq> [] \<longrightarrow> Query U raw = redactedValue)"
proof (intro conjI allI impI; (elim conjE)?)
  fix vs
  assume raw: "raw \<noteq> []" "url_ParseQuery raw = (vs, False)"
  have d: "distinct (map fst (redact_values U vs))" using ParseQuery_distinct [of raw] raw(2) by simp
  show "\<not> snd (url_ParseQuery (Query U raw))"
    unfolding Query_parsed [OF raw] by (rule ParseQuery_Encode [OF d])
  show "values_get (fst (url_ParseQuery (Query U raw))) k =
         (if IsSensitiveQueryName U k then (if k \<in> fst ` set vs then [redactedValue] else [])
          else values_get vs k)" for k
    unfolding Query_parsed [OF raw] ParseQuery_Encode(2) [OF d] by (rule redact_values_get)
qed (auto simp: Query_def split: prod.split)

theorem Query_redacts_witness:
  "values_get (fst (url_ParseQuery (Query ascii_tables ''token=abc&q=1''))) ''token'' = [redactedValue] \<and>
   values_get (fst (url_ParseQuery (Query ascii_tables ''token=abc&q=1''))) ''q'' = [''1'']"
proof -
  have p: "url_ParseQuery ''token=abc&q=1'' = ([(''token'', [''abc'']), (''q'', [''1''])], False)"
    by (simp add: url_ParseQuery_def parse_segment_def strings_Cut_def values_add_def values_get_def)
  have "IsSensitiveQueryName ascii_tables ''token''" "\<not> IsSensitiveQueryName ascii_tables ''q''"
    by (simp_all add: IsSensitiveQueryName_def go_eval ToLower_ascii sensitiveQueryNames_def)
  then show ?thesis
    using Query_redacts [of "''token=abc&q=1''" ascii_tables] p by (simp add: values_get_def)
qed

text \<open>C26: The recorded query does not depend on the secrets: two queries with the same parameter
  names and the same values of the non-sensitive ones are recorded as the same string.\<close>

theorem Query_noninterference:
  assumes "url_ParseQuery raw = (vs, False)" "url_ParseQuery raw' = (vs', False)" "raw \<noteq> []" "raw' \<noteq> []"
    and "mset (map fst vs) = mset (map fst vs')"
    and "\<forall>k. \<not> IsSensitiveQueryName U k \<longrightarrow> values_get vs k = values_get vs' k"
  shows "Query U raw = Query U raw'"
proof -
  have "fst ` set vs = fst ` set vs'" using assms(5) by (metis image_set mset_eq_setD)
  then show ?thesis
    unfolding Query_parsed [OF assms(3,1)] Query_parsed [OF assms(4,2)]
    using assms(5,6) by (intro values_Encode_cong) (simp_all add: redact_values_get)
qed

theorem Query_noninterference_witness:
  "Query ascii_tables ''key=a&q=1'' = Query ascii_tables ''q=1&key=b''"
proof (rule Query_noninterference)
  show "url_ParseQuery ''key=a&q=1'' = ([(''key'', [''a'']), (''q'', [''1''])], False)"
    "url_ParseQuery ''q=1&key=b'' = ([(''q'', [''1'']), (''key'', [''b''])], False)"
    by (simp_all add: url_ParseQuery_def parse_segment_def strings_Cut_def values_add_def values_get_def)
  have "IsSensitiveQueryName ascii_tables ''key''"
    by (simp add: IsSensitiveQueryName_def go_eval ToLower_ascii sensitiveQueryNames_def)
  then show "\<forall>k. \<not> IsSensitiveQueryName ascii_tables k \<longrightarrow>
      values_get [(''key'', [''a'']), (''q'', [''1''])] k = values_get [(''q'', [''1'']), (''key'', [''b''])] k"
    by (auto simp: values_get_def)
qed simp_all

end
