(* ===== verification/Audit_Log.thy ===== *)
theory Audit_Log
  imports Redaction Decision Config Go_Sha256 "HOL-Library.Transitive_Closure_Table"
begin

text \<open>
  The audit log (\<open>services/gateway/internal/audit/audit.go\<close>): events, the row sent to ClickHouse, and
  the dispatcher with its bounded queue and its worker.  The dispatcher is a state machine: \<open>Log\<close>,
  the worker's receive and write, and \<open>Shutdown\<close> are steps that interleave freely; the invariant
  is proved by induction over the reachable states.  A sink is a function from an event and its
  own state to the new state and whether the write succeeded; counters are natural numbers (the
  code's 64-bit counters before they wrap).
\<close>

section \<open>Events\<close>

record audit_RateLimit =
  arl_Limit :: int
  arl_Remaining :: int
  arl_ResetAt :: int
  arl_RuleID :: string
  arl_Action :: string

record Event =
  ev_Timestamp :: int
  ev_RequestID :: string
  ev_TenantID :: string
  ev_AppID :: string
  ev_PolicyID :: string
  ev_PolicyVersion :: string
  ev_Host :: string
  ev_ClientIP :: string
  ev_Country :: string
  ev_Method :: string
  ev_Path :: string
  ev_QueryRedacted :: string
  ev_UserAgent :: string
  ev_Action :: string
  ev_Mode :: string
  ev_Enforced :: bool
  ev_WouldBlock :: bool
  ev_Status :: int
  ev_Reason :: string
  ev_MatchedRuleID :: string
  ev_MatchedRuleName :: string
  ev_RuleGroup :: string
  ev_Tags :: "string list"
  ev_AnomalyScore :: int
  ev_RateLimit :: "audit_RateLimit option"
  ev_LatencyMS :: int
  ev_OriginStatus :: int
  ev_OriginLatencyMS :: int
  ev_BodyPreview :: string

definition zero_Event :: Event where
  "zero_Event = \<lparr>ev_Timestamp = 0, ev_RequestID = [], ev_TenantID = [], ev_AppID = [], ev_PolicyID = [],
     ev_PolicyVersion = [], ev_Host = [], ev_ClientIP = [], ev_Country = [], ev_Method = [], ev_Path = [],
     ev_QueryRedacted = [], ev_UserAgent = [], ev_Action = [], ev_Mode = [], ev_Enforced = False,
     ev_WouldBlock = False, ev_Status = 0, ev_Reason = [], ev_MatchedRuleID = [], ev_MatchedRuleName = [],
     ev_RuleGroup = [], ev_Tags = [], ev_AnomalyScore = 0, ev_RateLimit = None, ev_LatencyMS = 0,
     ev_OriginStatus = 0, ev_OriginLatencyMS = 0, ev_BodyPreview = []\<rparr>"

section \<open>The ClickHouse row\<close>

definition clampUInt16 :: "int \<Rightarrow> 16 word" where
  "clampUInt16 v = (if v < 0 then 0 else if 65535 < v then 65535 else of_int v)"

definition clampUInt32 :: "int \<Rightarrow> 32 word" where
  "clampUInt32 v = (if v < 0 then 0 else if 4294967295 < v then 4294967295 else of_int v)"

record clickHouseEvent =
  ch_Timestamp :: string
  ch_RequestID :: string
  ch_TenantID :: string
  ch_AppID :: string
  ch_PolicyID :: string
  ch_PolicyVersionID :: string
  ch_Host :: string
  ch_ClientIP :: string
  ch_Method :: string
  ch_Path :: string
  ch_Action :: string
  ch_Mode :: string
  ch_Enforced :: bool
  ch_WouldBlock :: bool
  ch_Status :: "16 word"
  ch_Reason :: string
  ch_MatchedRuleID :: string
  ch_MatchedRuleName :: string
  ch_RuleGroup :: string
  ch_Tags :: "string list"
  ch_AnomalyScore :: "32 word"
  ch_UserAgent :: string
  ch_LatencyMS :: "32 word"
  ch_OriginStatus :: "16 word"
  ch_OriginLatencyMS :: "32 word"

text \<open>The row of \<open>ClickHouseSink.Write\<close>; \<open>fmt\<close> is the time format \<open>2006-01-02 15:04:05.000\<close>.\<close>

definition clickhouse_row :: "(int \<Rightarrow> string) \<Rightarrow> Event \<Rightarrow> clickHouseEvent" where
  "clickhouse_row fmt e = \<lparr>ch_Timestamp = fmt (ev_Timestamp e), ch_RequestID = ev_RequestID e,
     ch_TenantID = ev_TenantID e, ch_AppID = ev_AppID e, ch_PolicyID = ev_PolicyID e,
     ch_PolicyVersionID = ev_PolicyVersion e, ch_Host = ev_Host e, ch_ClientIP = ev_ClientIP e,
     ch_Method = ev_Method e, ch_Path = ev_Path e, ch_Action = ev_Action e, ch_Mode = ev_Mode e,
     ch_Enforced = ev_Enforced e, ch_WouldBlock = ev_WouldBlock e, ch_Status = clampUInt16 (ev_Status e),
     ch_Reason = ev_Reason e, ch_MatchedRuleID = ev_MatchedRuleID e, ch_MatchedRuleName = ev_MatchedRuleName e,
     ch_RuleGroup = ev_RuleGroup e, ch_Tags = ev_Tags e, ch_AnomalyScore = of_int (ev_AnomalyScore e),
     ch_UserAgent = ev_UserAgent e, ch_LatencyMS = clampUInt32 (ev_LatencyMS e),
     ch_OriginStatus = clampUInt16 (ev_OriginStatus e), ch_OriginLatencyMS = clampUInt32 (ev_OriginLatencyMS e)\<rparr>"

record ClickHouseSink =
  cs_endpoint :: string
  cs_database :: string
  cs_username :: string
  cs_password :: string

text \<open>\<open>str\<close> stands for \<open>URL.String\<close>; \<open>main\<close> copies the four fields from the configuration.\<close>

definition NewClickHouseSink :: "(URL \<Rightarrow> string) \<Rightarrow> ClickHouseConfig \<Rightarrow> ClickHouseSink option" where
  "NewClickHouseSink str cfg =
     (case url_Parse (chc_URL cfg) of
        None \<Rightarrow> None
      | Some parsed \<Rightarrow>
          if url_Scheme parsed = [] \<or> url_Host parsed = [] then None
          else Some \<lparr>cs_endpoint = strings_TrimRight (str parsed) ''/'',
            cs_database = (if chc_Database cfg = [] then ''bedemwaf'' else chc_Database cfg),
            cs_username = chc_Username cfg, cs_password = chc_Password cfg\<rparr>)"

definition insert_url :: "ClickHouseSink \<Rightarrow> string" where
  "insert_url s = cs_endpoint s @ ''/?database='' @ url_QueryEscape (cs_database s) @ ''&query=''
     @ url_QueryEscape ''INSERT INTO waf_events FORMAT JSONEachRow''"

text \<open>\<open>post url auth row\<close> stands for the HTTP client: it encodes and sends the row and returns the
  status code of the response, or \<^term>\<open>None\<close> on an error.\<close>

definition ClickHouseSink_Write ::
  "(string \<Rightarrow> (string \<times> string) option \<Rightarrow> clickHouseEvent \<Rightarrow> 's \<Rightarrow> 's \<times> int option) \<Rightarrow> (int \<Rightarrow> string) \<Rightarrow>
     ClickHouseSink \<Rightarrow> Event \<Rightarrow> 's \<Rightarrow> 's \<times> bool" where
  "ClickHouseSink_Write post fmt s event w =
     (case post (insert_url s)
        (if cs_username s \<noteq> [] \<or> cs_password s \<noteq> [] then Some (cs_username s, cs_password s) else None)
        (clickhouse_row fmt event) w of
        (w', None) \<Rightarrow> (w', False)
      | (w', Some code) \<Rightarrow> (w', 200 \<le> code \<and> code < 300))"

text \<open>\<open>encode event\<close> stands for the JSON encoder writing to the output.\<close>

definition JSONStdoutSink_Write :: "(Event \<Rightarrow> 's \<Rightarrow> 's \<times> bool) \<Rightarrow> bool \<Rightarrow> Event \<Rightarrow> 's \<Rightarrow> 's \<times> bool" where
  "JSONStdoutSink_Write encode cancelled event w = (if cancelled then (w, False) else encode event w)"

definition JSONLogger_Log :: "(Event \<Rightarrow> 's \<Rightarrow> 's \<times> bool) \<Rightarrow> Event \<Rightarrow> 's \<Rightarrow> 's" where
  "JSONLogger_Log encode event w = fst (JSONStdoutSink_Write encode False event w)"

section \<open>The dispatcher\<close>

record audit_Metrics =
  am_sent :: nat
  am_dropped :: nat
  am_blocked :: nat
  am_allowed :: nat

text \<open>\<open>dp_inflight\<close> is the event the worker has received and is writing.\<close>

record Dispatcher =
  dp_cap :: nat
  dp_queue :: "Event list"
  dp_closed :: bool
  dp_inflight :: "Event option"
  dp_done :: bool
  dp_metrics :: audit_Metrics

type_synonym 's sink = "Event \<Rightarrow> 's \<Rightarrow> 's \<times> bool"

definition NewDispatcher :: "int \<Rightarrow> 's sink list \<Rightarrow> string + Dispatcher" where
  "NewDispatcher queueSize sinks =
     (if queueSize \<le> 0 then Inl ''audit queue size must be positive''
      else if sinks = [] then Inl ''at least one audit sink is required''
      else Inr \<lparr>dp_cap = nat queueSize, dp_queue = [], dp_closed = False, dp_inflight = None, dp_done = False,
        dp_metrics = \<lparr>am_sent = 0, am_dropped = 0, am_blocked = 0, am_allowed = 0\<rparr>\<rparr>)"

definition stamp :: "int \<Rightarrow> Event \<Rightarrow> Event" where
  "stamp now e = (if ev_Timestamp e = 0 then e\<lparr>ev_Timestamp := now\<rparr> else e)"

definition count_event :: "Event \<Rightarrow> audit_Metrics \<Rightarrow> audit_Metrics" where
  "count_event e m =
     (if ev_Action e = ''block'' \<or> ev_Action e = ''rate_limit''
      then m\<lparr>am_blocked := am_blocked m + 1\<rparr> else m\<lparr>am_allowed := am_allowed m + 1\<rparr>)"

text \<open>A send on a closed channel panics, also inside a \<open>select\<close> with a default case.\<close>

definition Dispatcher_Log :: "int \<Rightarrow> Event \<Rightarrow> Dispatcher \<Rightarrow> Dispatcher \<times> panic option" where
  "Dispatcher_Log now event d =
     (let e = stamp now event; d1 = d\<lparr>dp_metrics := count_event e (dp_metrics d)\<rparr> in
      if dp_closed d1 then (d1, Some SendOnClosedChannel)
      else if length (dp_queue d1) < dp_cap d1 then (d1\<lparr>dp_queue := dp_queue d1 @ [e]\<rparr>, None)
      else (d1\<lparr>dp_metrics := (dp_metrics d1)\<lparr>am_dropped := am_dropped (dp_metrics d1) + 1\<rparr>\<rparr>, None))"

text \<open>The loop of \<open>write\<close> over the sinks: every sink is called, also after one has failed.\<close>

fun write_sinks :: "'s sink list \<Rightarrow> Event \<Rightarrow> bool \<Rightarrow> 's \<Rightarrow> 's \<times> bool" where
  "write_sinks [] e sent w = (w, sent)"
| "write_sinks (sink # sinks) e sent w =
     (case sink e w of (w', ok) \<Rightarrow> write_sinks sinks e (if ok then True else sent) w')"

definition Dispatcher_write :: "'s sink list \<Rightarrow> Event \<Rightarrow> Dispatcher \<times> 's \<Rightarrow> Dispatcher \<times> 's" where
  "Dispatcher_write sinks e dw =
     (case dw of (d, w) \<Rightarrow>
        (case write_sinks sinks e False w of (w', sent) \<Rightarrow>
           (d\<lparr>dp_inflight := None,
              dp_metrics := (if sent then (dp_metrics d)\<lparr>am_sent := am_sent (dp_metrics d) + 1\<rparr> else dp_metrics d)\<rparr>, w')))"

definition Shutdown_close :: "Dispatcher \<Rightarrow> Dispatcher" where
  "Shutdown_close d = d\<lparr>dp_closed := True\<rparr>"

text \<open>The whole system: the dispatcher, the state of the sinks, and the history of the run.\<close>

record 's audit_system =
  sy_d :: Dispatcher
  sy_w :: 's
  sy_logged :: "Event list"
  sy_accepted :: "Event list"
  sy_written :: "Event list"
  sy_panics :: nat

inductive audit_step :: "'s sink list \<Rightarrow> 's audit_system \<Rightarrow> 's audit_system \<Rightarrow> bool" for sinks where
  log: "Dispatcher_Log now e (sy_d s) = (d', None) \<Longrightarrow>
    audit_step sinks s (s\<lparr>sy_d := d', sy_logged := sy_logged s @ [stamp now e],
      sy_accepted := (if dp_queue d' = dp_queue (sy_d s) then sy_accepted s else sy_accepted s @ [stamp now e])\<rparr>)"
| log_panic: "Dispatcher_Log now e (sy_d s) = (d', Some p) \<Longrightarrow>
    audit_step sinks s (s\<lparr>sy_d := d', sy_logged := sy_logged s @ [stamp now e], sy_panics := sy_panics s + 1\<rparr>)"
| receive: "dp_queue (sy_d s) = e # q \<Longrightarrow> dp_inflight (sy_d s) = None \<Longrightarrow> \<not> dp_done (sy_d s) \<Longrightarrow>
    audit_step sinks s (s\<lparr>sy_d := (sy_d s)\<lparr>dp_queue := q, dp_inflight := Some e\<rparr>\<rparr>)"
| written: "dp_inflight (sy_d s) = Some e \<Longrightarrow> Dispatcher_write sinks e (sy_d s, sy_w s) = (d', w') \<Longrightarrow>
    audit_step sinks s (s\<lparr>sy_d := d', sy_w := w', sy_written := sy_written s @ [e]\<rparr>)"
| closing: "audit_step sinks s (s\<lparr>sy_d := Shutdown_close (sy_d s)\<rparr>)"
| finished: "dp_closed (sy_d s) \<Longrightarrow> dp_queue (sy_d s) = [] \<Longrightarrow> dp_inflight (sy_d s) = None \<Longrightarrow>
    audit_step sinks s (s\<lparr>sy_d := (sy_d s)\<lparr>dp_done := True\<rparr>\<rparr>)"

definition audit_init :: "Dispatcher \<Rightarrow> 's \<Rightarrow> 's audit_system" where
  "audit_init d w = \<lparr>sy_d = d, sy_w = w, sy_logged = [], sy_accepted = [], sy_written = [], sy_panics = 0\<rparr>"

inductive audit_reachable :: "'s sink list \<Rightarrow> int \<Rightarrow> 's audit_system \<Rightarrow> bool" for sinks n where
  start: "NewDispatcher n sinks = Inr d \<Longrightarrow> audit_reachable sinks n (audit_init d w)"
| step: "audit_reachable sinks n s \<Longrightarrow> audit_step sinks s s' \<Longrightarrow> audit_reachable sinks n s'"

section \<open>Clamping\<close>

lemma uint_clampUInt16: "uint (clampUInt16 v) = max 0 (min 65535 v)"
proof (cases "0 \<le> v \<and> v \<le> 65535")
  case True
  then have "uint (of_int v :: 16 word) = v" by (simp add: uint_word_of_int_eq take_bit_eq_mod)
  with True show ?thesis by (simp add: clampUInt16_def)
qed (auto simp: clampUInt16_def)

lemma uint_clampUInt32: "uint (clampUInt32 v) = max 0 (min 4294967295 v)"
proof (cases "0 \<le> v \<and> v \<le> 4294967295")
  case True
  then have "uint (of_int v :: 32 word) = v" by (simp add: uint_word_of_int_eq take_bit_eq_mod)
  with True show ?thesis by (simp add: clampUInt32_def)
qed (auto simp: clampUInt32_def)

section \<open>The invariant of the dispatcher\<close>

definition inflight :: "Dispatcher \<Rightarrow> Event list" where
  "inflight d = (case dp_inflight d of None \<Rightarrow> [] | Some e \<Rightarrow> [e])"

definition audit_inv :: "int \<Rightarrow> 's audit_system \<Rightarrow> bool" where
  "audit_inv n s \<longleftrightarrow>
     dp_cap (sy_d s) = nat n \<and> length (dp_queue (sy_d s)) \<le> nat n \<and>
     sy_accepted s = sy_written s @ inflight (sy_d s) @ dp_queue (sy_d s) \<and>
     length (sy_logged s) = am_blocked (dp_metrics (sy_d s)) + am_allowed (dp_metrics (sy_d s)) \<and>
     length (sy_logged s) = length (sy_accepted s) + am_dropped (dp_metrics (sy_d s)) + sy_panics s \<and>
     am_sent (dp_metrics (sy_d s)) \<le> length (sy_written s) \<and>
     (dp_done (sy_d s) \<longrightarrow> dp_closed (sy_d s) \<and> dp_queue (sy_d s) = [] \<and> dp_inflight (sy_d s) = None) \<and>
     (0 < sy_panics s \<longrightarrow> dp_closed (sy_d s))"

lemma count_event_simps [simp]:
  "am_dropped (count_event e m) = am_dropped m" "am_sent (count_event e m) = am_sent m"
  "am_blocked (count_event e m) + am_allowed (count_event e m) = Suc (am_blocked m + am_allowed m)"
  by (simp_all add: count_event_def)

inductive_cases audit_stepE: "audit_step sinks s s'"

lemma audit_inv_step:
  assumes "audit_inv n s" "audit_step sinks s s'"
  shows "audit_inv n s'"
  using assms(2)
proof cases
  case (log now e d')
  then show ?thesis
    using assms(1) by (auto simp: audit_inv_def Dispatcher_Log_def Let_def inflight_def split: if_splits)
next
  case (log_panic now e d' p)
  then show ?thesis
    using assms(1) by (auto simp: audit_inv_def Dispatcher_Log_def Let_def inflight_def split: if_splits)
next
  case (receive e q)
  then show ?thesis using assms(1) by (auto simp: audit_inv_def inflight_def)
next
  case (written e d' w')
  then show ?thesis
    using assms(1) by (auto simp: audit_inv_def Dispatcher_write_def inflight_def split: prod.splits if_splits)
next
  case closing
  then show ?thesis using assms(1) by (auto simp: audit_inv_def Shutdown_close_def inflight_def)
next
  case finished
  then show ?thesis using assms(1) by (auto simp: audit_inv_def inflight_def)
qed

lemma audit_inv_init: "NewDispatcher n sinks = Inr d \<Longrightarrow> audit_inv n (audit_init d w)"
  by (auto simp: NewDispatcher_def audit_inv_def audit_init_def inflight_def split: if_splits)

lemma audit_inv_reachable: "audit_reachable sinks n s \<Longrightarrow> audit_inv n s"
  by (induction rule: audit_reachable.induct) (auto intro: audit_inv_init audit_inv_step)

section \<open>Draining\<close>

definition pending :: "Dispatcher \<Rightarrow> nat" where
  "pending d = 2 * length (dp_queue d) + length (inflight d)"

lemma drain_step:
  assumes "dp_closed (sy_d s)" "\<not> dp_done (sy_d s)" "0 < pending (sy_d s)"
  obtains s' where "audit_step sinks s s'" "pending (sy_d s') < pending (sy_d s)" "dp_closed (sy_d s')"
    "\<not> dp_done (sy_d s')" "sy_accepted s' = sy_accepted s"
proof (cases "dp_inflight (sy_d s)")
  case None
  with assms(3) obtain e q where q: "dp_queue (sy_d s) = e # q" by (cases "dp_queue (sy_d s)") (auto simp: pending_def inflight_def)
  show thesis
    by (rule that [OF audit_step.receive [OF q None assms(2)]]) (use assms q None in \<open>auto simp: pending_def inflight_def\<close>)
next
  case (Some e)
  obtain d' w' where w: "Dispatcher_write sinks e (sy_d s, sy_w s) = (d', w')" by fastforce
  show thesis
    by (rule that [OF audit_step.written [OF Some w]])
      (use assms w Some in \<open>auto simp: pending_def inflight_def Dispatcher_write_def split: prod.splits\<close>)
qed

lemma drain:
  assumes "dp_closed (sy_d s)" "\<not> dp_done (sy_d s)"
  shows "\<exists>s'. (audit_step sinks)\<^sup>*\<^sup>* s s' \<and> dp_done (sy_d s') \<and> sy_accepted s' = sy_accepted s"
  using assms
proof (induction "pending (sy_d s)" arbitrary: s rule: less_induct)
  case less
  show ?case
  proof (cases "0 < pending (sy_d s)")
    case True
    obtain s' where s': "audit_step sinks s s'" "pending (sy_d s') < pending (sy_d s)" "dp_closed (sy_d s')"
      "\<not> dp_done (sy_d s')" "sy_accepted s' = sy_accepted s"
      using drain_step [OF less.prems True] .
    obtain s'' where "(audit_step sinks)\<^sup>*\<^sup>* s' s''" "dp_done (sy_d s'')" "sy_accepted s'' = sy_accepted s'"
      using less.hyps [OF s'(2-4)] by blast
    with s'(1,5) show ?thesis by (metis converse_rtranclp_into_rtranclp)
  next
    case False
    then have "dp_queue (sy_d s) = []" "dp_inflight (sy_d s) = None"
      by (auto simp: pending_def inflight_def split: option.splits)
    from audit_step.finished [OF less.prems(1) this] show ?thesis
      by (intro exI conjI, rule r_into_rtranclp) auto
  qed
qed

lemma reachable_rtranclp:
  "(audit_step sinks)\<^sup>*\<^sup>* s s' \<Longrightarrow> audit_reachable sinks n s \<Longrightarrow> audit_reachable sinks n s'"
  by (induction rule: rtranclp_induct) (auto intro: audit_reachable.step)

lemma write_sinks_sent: "snd (write_sinks sinks e sent w) \<longleftrightarrow> sent \<or> snd (write_sinks sinks e False w)"
proof (induction sinks arbitrary: sent w)
  case (Cons sink sinks)
  obtain w' ok where sw: "sink e w = (w', ok)" by fastforce
  show ?case
    using Cons.IH [of True w'] Cons.IH [of sent w'] by (cases ok) (auto simp: sw)
qed simp

section \<open>Properties\<close>

text \<open>C27: In every reachable state of the dispatcher, whatever the interleaving of loggers, worker and
  shutdown: the queue is within its bound; the accepted events are, in order, those written, the
  one being written and those queued (none lost, duplicated or reordered); every logged event was
  accepted, counted as dropped, or panicked after the shutdown; and the worker stops only when
  nothing is left.\<close>

theorem dispatcher_accounts:
  assumes "audit_reachable sinks n s"
  shows "length (dp_queue (sy_d s)) \<le> nat n \<and>
     sy_accepted s = sy_written s @ inflight (sy_d s) @ dp_queue (sy_d s) \<and>
     length (sy_logged s) = length (sy_accepted s) + am_dropped (dp_metrics (sy_d s)) + sy_panics s \<and>
     am_blocked (dp_metrics (sy_d s)) + am_allowed (dp_metrics (sy_d s)) = length (sy_logged s) \<and>
     am_sent (dp_metrics (sy_d s)) \<le> length (sy_written s) \<and>
     (dp_done (sy_d s) \<longrightarrow> sy_written s = sy_accepted s) \<and> (0 < sy_panics s \<longrightarrow> dp_closed (sy_d s))"
  using audit_inv_reachable [OF assms] by (auto simp: audit_inv_def inflight_def)

definition ok_sink :: "string list sink" where
  "ok_sink e w = (w @ [ev_RequestID e], True)"

definition sample_dispatcher :: Dispatcher where
  "sample_dispatcher = \<lparr>dp_cap = 1, dp_queue = [], dp_closed = False, dp_inflight = None, dp_done = False,
     dp_metrics = \<lparr>am_sent = 0, am_dropped = 0, am_blocked = 0, am_allowed = 0\<rparr>\<rparr>"

lemma sample_logged:
  "Dispatcher_Log 5 zero_Event sample_dispatcher =
     (sample_dispatcher\<lparr>dp_queue := [stamp 5 zero_Event],
        dp_metrics := \<lparr>am_sent = 0, am_dropped = 0, am_blocked = 0, am_allowed = 1\<rparr>\<rparr>, None)"
  by (simp add: Dispatcher_Log_def sample_dispatcher_def Let_def count_event_def stamp_def zero_Event_def)

lemma sample_new: "NewDispatcher 1 [ok_sink] = Inr sample_dispatcher"
  by (simp add: NewDispatcher_def sample_dispatcher_def)

definition sample_system :: "string list audit_system" where
  "sample_system = (audit_init sample_dispatcher [])\<lparr>
     sy_d := sample_dispatcher\<lparr>dp_queue := [stamp 5 zero_Event],
        dp_metrics := \<lparr>am_sent = 0, am_dropped = 0, am_blocked = 0, am_allowed = 1\<rparr>\<rparr>,
     sy_logged := [stamp 5 zero_Event], sy_accepted := [stamp 5 zero_Event]\<rparr>"

lemma sample_reachable: "audit_reachable [ok_sink] 1 sample_system"
proof -
  have "audit_step [ok_sink] (audit_init sample_dispatcher []) sample_system"
    using audit_step.log [of 5 zero_Event "audit_init sample_dispatcher []" _ "[ok_sink]"] sample_logged
    by (simp add: audit_init_def sample_system_def sample_dispatcher_def)
  then show ?thesis
    using audit_reachable.step [OF audit_reachable.start [OF sample_new]] by blast
qed

theorem dispatcher_accounts_witness:
  "sy_accepted sample_system = sy_written sample_system @ inflight (sy_d sample_system) @ dp_queue (sy_d sample_system)
   \<and> dp_queue (sy_d sample_system) = [stamp 5 zero_Event]"
  using dispatcher_accounts [OF sample_reachable] by (simp add: sample_system_def)

text \<open>Shutdown drains: from any reachable state after the queue was closed, the worker's own steps
  lead to its end, and by then every accepted event has been written.\<close>

theorem dispatcher_drains:
  assumes "audit_reachable sinks n s" "dp_closed (sy_d s)" "\<not> dp_done (sy_d s)"
  shows "\<exists>s'. (audit_step sinks)\<^sup>*\<^sup>* s s' \<and> dp_done (sy_d s') \<and> sy_written s' = sy_accepted s"
proof -
  obtain s' where s': "(audit_step sinks)\<^sup>*\<^sup>* s s'" "dp_done (sy_d s')" "sy_accepted s' = sy_accepted s"
    using drain [OF assms(2,3)] by blast
  have "audit_inv n s'" using audit_inv_reachable reachable_rtranclp [OF s'(1) assms(1)] by blast
  with s' show ?thesis by (auto simp: audit_inv_def inflight_def)
qed

theorem dispatcher_drains_witness:
  "\<exists>s'. (audit_step [ok_sink])\<^sup>*\<^sup>* (sample_system\<lparr>sy_d := Shutdown_close (sy_d sample_system)\<rparr>) s' \<and>
     dp_done (sy_d s') \<and> sy_written s' = [stamp 5 zero_Event]"
proof -
  let ?s = "sample_system\<lparr>sy_d := Shutdown_close (sy_d sample_system)\<rparr>"
  have "audit_reachable [ok_sink] 1 ?s"
    using audit_reachable.step [OF sample_reachable audit_step.closing] .
  moreover have "dp_closed (sy_d ?s)" "\<not> dp_done (sy_d ?s)" "sy_accepted ?s = [stamp 5 zero_Event]"
    by (simp_all add: Shutdown_close_def sample_system_def sample_dispatcher_def)
  ultimately show ?thesis using dispatcher_drains by metis
qed

text \<open>Logging after the shutdown panics (a send on a closed channel), even when the queue is full.\<close>

theorem log_after_shutdown_panics:
  "snd (Dispatcher_Log now e (Shutdown_close d)) = Some SendOnClosedChannel"
  by (simp add: Dispatcher_Log_def Shutdown_close_def Let_def)

lemma sint_of_int32: "sint (of_int v :: 32 word) = (v + 2 ^ 31) mod 2 ^ 32 - 2 ^ 31"
  by (simp add: sint_sbintrunc' signed_take_bit_eq_take_bit_shift take_bit_eq_mod)

text \<open>C29: The integers of the ClickHouse row.  Status codes and latencies saturate: a value outside the column's
  range is stored as the nearest value in it, all others exactly.  The anomaly score is not clamped, it wraps: the
  column is exact for the values of 32-bit integers and takes the remainder for all others.\<close>

theorem clickhouse_row_integers:
  "uint (ch_Status (clickhouse_row fmt e)) = max 0 (min 65535 (ev_Status e)) \<and>
   uint (ch_OriginStatus (clickhouse_row fmt e)) = max 0 (min 65535 (ev_OriginStatus e)) \<and>
   uint (ch_LatencyMS (clickhouse_row fmt e)) = max 0 (min 4294967295 (ev_LatencyMS e)) \<and>
   uint (ch_OriginLatencyMS (clickhouse_row fmt e)) = max 0 (min 4294967295 (ev_OriginLatencyMS e)) \<and>
   sint (ch_AnomalyScore (clickhouse_row fmt e)) = (ev_AnomalyScore e + 2147483648) mod 4294967296 - 2147483648 \<and>
   (sint (ch_AnomalyScore (clickhouse_row fmt e)) = ev_AnomalyScore e) =
     (ev_AnomalyScore e \<in> {- 2147483648..2147483647})"
proof -
  have "(v + 2147483648) mod 4294967296 - 2147483648 = v \<longleftrightarrow> v \<in> {- 2147483648..2147483647}" for v :: int
    using pos_mod_bound [of 4294967296 "v + 2147483648"] pos_mod_sign [of 4294967296 "v + 2147483648"]
    by (auto simp: mod_pos_pos_trivial)
  then show ?thesis by (simp add: clickhouse_row_def uint_clampUInt16 uint_clampUInt32 sint_of_int32)
qed

end
