(* ===== verification/Metrics.thy ===== *)
theory Metrics
  imports Go_Strings
begin

text \<open>
  The gateway's metrics (\<open>services/gateway/internal/metrics/metrics.go\<close>).  The Prometheus client is a
  third-party package; the model records the increments and observations that are sent to it.
\<close>

datatype metric =
    RequestsTotal string string string
  | RequestDuration int
  | BlockedRequestsTotal string string
  | OriginDuration int
  | PolicyCacheHitsTotal
  | PolicyCacheMissesTotal
  | PolicyFetchErrorsTotal
  | RateLimitedTotal
  | AuditEventsDroppedTotal

definition label :: "string \<Rightarrow> string" where
  "label v = (if v = [] then ''unknown'' else v)"

definition ObserveRequest :: "string \<Rightarrow> string \<Rightarrow> string \<Rightarrow> string \<Rightarrow> int \<Rightarrow> int \<Rightarrow> metric list" where
  "ObserveRequest appID host action reason status duration =
     [RequestsTotal (label appID) (label host) (label action), RequestDuration duration] @
     (if 400 \<le> status \<or> action = ''block'' \<or> action = ''rate_limit''
      then [BlockedRequestsTotal (label appID) (label reason)] else [])"

definition ObserveOrigin :: "int \<Rightarrow> metric list" where
  "ObserveOrigin duration = [OriginDuration duration]"

definition IncPolicyCacheHit :: "metric list" where
  "IncPolicyCacheHit = [PolicyCacheHitsTotal]"

definition IncPolicyCacheMiss :: "metric list" where
  "IncPolicyCacheMiss = [PolicyCacheMissesTotal]"

definition IncPolicyFetchError :: "metric list" where
  "IncPolicyFetchError = [PolicyFetchErrorsTotal]"

definition IncRateLimited :: "metric list" where
  "IncRateLimited = [RateLimitedTotal]"

definition IncAuditEventDropped :: "metric list" where
  "IncAuditEventDropped = [AuditEventsDroppedTotal]"

end
