(* ===== verification/Waf.thy ===== *)
theory Waf
  imports Decision Go_Http Go_Netip Config
begin

text \<open>
  The WAF engines (\<open>services/gateway/internal/waf/engine.go\<close> and \<open>waf/coraza/engine.go\<close>).  The
  Coraza library is a third-party package: a transaction is the record \<open>transaction\<close> of the
  functions the adapter calls, over a state \<open>'t\<close> of the library.  The lemmas give the decision
  the adapter takes from what the library reports, and the order of its calls.
\<close>

section \<open>Requests as the handlers see them\<close>

text \<open>The fields of \<open>http.Request\<close> the gateway reads.  \<open>hr_RequestURI\<close> is the value of
  \<open>req.URL.RequestURI()\<close>; a body is \<^term>\<open>None\<close> for \<open>nil\<close> and \<open>http.NoBody\<close>.\<close>

record body =
  bd_data :: string
  bd_fail :: "nat option"
  bd_closeErr :: bool

record http_request =
  hr_Method :: string
  hr_Path :: string
  hr_RawQuery :: string
  hr_RequestURI :: string
  hr_Proto :: string
  hr_Host :: string
  hr_RemoteAddr :: string
  hr_TLS :: bool
  hr_Header :: http_header
  hr_Body :: "body option"
  hr_Cancelled :: bool

section \<open>The interface and the allowing engine\<close>

record PolicyContext =
  px_RequestID :: string
  px_AppID :: string
  px_Host :: string
  px_ClientIP :: string
  px_Mode :: mode

type_synonym waf_result = "string + Decision option"

definition AllowEngine_Inspect :: "http_request \<Rightarrow> string \<Rightarrow> PolicyContext \<Rightarrow> waf_result" where
  "AllowEngine_Inspect req bodyPreview app = Inr (Some Allow)"

section \<open>The Coraza adapter\<close>

record interruption =
  in_RuleID :: int

record matched_rule =
  mr_ID :: int
  mr_Disruptive :: bool

record 't transaction =
  tx_ProcessConnection :: "string \<Rightarrow> int \<Rightarrow> string \<Rightarrow> int \<Rightarrow> 't \<Rightarrow> 't"
  tx_SetServerName :: "string \<Rightarrow> 't \<Rightarrow> 't"
  tx_ProcessURI :: "string \<Rightarrow> string \<Rightarrow> string \<Rightarrow> 't \<Rightarrow> 't"
  tx_AddRequestHeader :: "string \<Rightarrow> string \<Rightarrow> 't \<Rightarrow> 't"
  tx_ProcessRequestHeaders :: "'t \<Rightarrow> 't \<times> interruption option"
  tx_WriteRequestBody :: "string \<Rightarrow> 't \<Rightarrow> 't \<times> (string + interruption option)"
  tx_ProcessRequestBody :: "'t \<Rightarrow> 't \<times> (string + interruption option)"
  tx_MatchedRules :: "'t \<Rightarrow> matched_rule list"
  tx_ProcessLogging :: "'t \<Rightarrow> 't"
  tx_Close :: "'t \<Rightarrow> 't"

text \<open>The directives the engine is configured with.\<close>

definition coraza_directives :: "WAFConfig \<Rightarrow> string" where
  "coraza_directives cfg = concat (map (\<lambda>l. CHR 0x0A # l)
     [''SecRuleEngine '' @ wc_RuleEngine cfg, ''SecRequestBodyAccess On'', ''SecResponseBodyAccess Off'',
      ''SecRequestBodyLimit '' @ strconv_Itoa (wc_RequestBodyLimitBytes cfg),
      ''SecRequestBodyLimitAction ProcessPartial'', ''''])"

record 'w coraza_engine =
  ce_waf :: 'w
  ce_ruleEngine :: string

text \<open>\<open>newWAF directives file\<close> stands for \<open>corazalib.NewWAF\<close>.\<close>

definition coraza_New :: "(string \<Rightarrow> string option \<Rightarrow> string + 'w) \<Rightarrow> WAFConfig \<Rightarrow> string + 'w coraza_engine" where
  "coraza_New newWAF cfg =
     (case newWAF (coraza_directives cfg)
        (if wc_DirectivesFile cfg \<noteq> [] then Some (wc_DirectivesFile cfg) else None) of
        Inl e \<Rightarrow> Inl e
      | Inr inst \<Rightarrow> Inr \<lparr>ce_waf = inst, ce_ruleEngine = wc_RuleEngine cfg\<rparr>)"

definition addHeaders :: "'t transaction \<Rightarrow> http_request \<Rightarrow> 't \<Rightarrow> 't" where
  "addHeaders tx req t =
     fold (\<lambda>(key, vs) t. fold (\<lambda>v. tx_AddRequestHeader tx key v) vs t) (hr_Header req)
       (tx_AddRequestHeader tx ''Host'' (hr_Host req) t)"

definition coraza_rule_id :: "int \<Rightarrow> string" where
  "coraza_rule_id n = ''coraza:'' @ strconv_Itoa n"

definition coraza_tagged :: "Decision \<Rightarrow> Decision" where
  "coraza_tagged d = d\<lparr>d_RuleGroup := ''coraza'', d_Tags := [''waf'', ''coraza'']\<rparr>"

definition interruptionDecision :: "interruption \<Rightarrow> Decision" where
  "interruptionDecision i = coraza_tagged (Block ''waf_interruption''
     (if in_RuleID i \<noteq> 0 then coraza_rule_id (in_RuleID i) else ''coraza''))"

definition client_port :: "http_request \<Rightarrow> int" where
  "client_port req =
     (case net_SplitHostPort (hr_RemoteAddr req) of
        None \<Rightarrow> 0
      | Some (_, port) \<Rightarrow> strconv_Atoi_value port)"

text \<open>The decision from the matched rules, when nothing interrupted the transaction.\<close>

definition matches_decision :: "string \<Rightarrow> matched_rule list \<Rightarrow> Decision" where
  "matches_decision ruleEngine matches =
     (case matches of
        [] \<Rightarrow> Allow
      | first # _ \<Rightarrow>
          (case find mr_Disruptive matches of
             Some m \<Rightarrow>
               if ruleEngine = ''DetectionOnly''
               then coraza_tagged (Count ''waf_match'' (coraza_rule_id (mr_ID m)))
               else coraza_tagged (Block ''waf_match'' (coraza_rule_id (mr_ID m)))
           | None \<Rightarrow> coraza_tagged (Count ''waf_match'' (coraza_rule_id (mr_ID first)))))"

text \<open>The calls before the headers are processed.\<close>

definition coraza_setup :: "'t transaction \<Rightarrow> http_request \<Rightarrow> PolicyContext \<Rightarrow> 't \<Rightarrow> 't" where
  "coraza_setup tx req app t =
     addHeaders tx req
       (tx_ProcessURI tx (hr_RequestURI req) (hr_Method req) (hr_Proto req)
         (tx_SetServerName tx (px_Host app)
           (tx_ProcessConnection tx (px_ClientIP app) (client_port req) (px_Host app) 0 t)))"

definition coraza_phases ::
  "'t transaction \<Rightarrow> string \<Rightarrow> http_request \<Rightarrow> string \<Rightarrow> PolicyContext \<Rightarrow> 't \<Rightarrow> 't \<times> waf_result" where
  "coraza_phases tx ruleEngine req bodyPreview app t =
     (case tx_ProcessRequestHeaders tx (coraza_setup tx req app t) of
        (t1, Some i) \<Rightarrow> (t1, Inr (Some (interruptionDecision i)))
      | (t1, None) \<Rightarrow>
          (case (if 0 < length bodyPreview then tx_WriteRequestBody tx bodyPreview t1 else (t1, Inr None)) of
             (t2, Inl e) \<Rightarrow> (t2, Inl e)
           | (t2, Inr (Some i)) \<Rightarrow> (t2, Inr (Some (interruptionDecision i)))
           | (t2, Inr None) \<Rightarrow>
               (case tx_ProcessRequestBody tx t2 of
                  (t3, Inl e) \<Rightarrow> (t3, Inl e)
                | (t3, Inr (Some i)) \<Rightarrow> (t3, Inr (Some (interruptionDecision i)))
                | (t3, Inr None) \<Rightarrow>
                    (t3, Inr (Some (matches_decision ruleEngine (tx_MatchedRules tx t3)))))))"

text \<open>\<open>Engine.InspectRequest\<close>: the deferred calls run in reverse order, logging before closing.\<close>

definition coraza_Inspect ::
  "'t transaction \<Rightarrow> string \<Rightarrow> http_request \<Rightarrow> string \<Rightarrow> PolicyContext \<Rightarrow> 't \<Rightarrow> 't \<times> waf_result" where
  "coraza_Inspect tx ruleEngine req bodyPreview app t =
     (if hr_Cancelled req then (t, Inl ''context canceled'')
      else (case coraza_phases tx ruleEngine req bodyPreview app t of
          (t', res) \<Rightarrow> (tx_Close tx (tx_ProcessLogging tx t'), res)))"

section \<open>What the adapter decides\<close>

lemma coraza_tagged_simps [simp]:
  "d_Action (coraza_tagged d) = d_Action d" "d_Reason (coraza_tagged d) = d_Reason d"
  "WouldBlock (coraza_tagged d) = WouldBlock d"
  by (simp_all add: coraza_tagged_def WouldBlock_def)

lemma matches_decision_blocks:
  "WouldBlock (matches_decision eng ms) \<longleftrightarrow> (\<exists>m \<in> set ms. mr_Disruptive m) \<and> eng \<noteq> ''DetectionOnly''"
proof (cases ms)
  case (Cons m0 ms')
  show ?thesis
  proof (cases "find mr_Disruptive ms")
    case None
    then have "\<not> (\<exists>m \<in> set ms. mr_Disruptive m)" by (simp add: find_None_iff)
    with None Cons show ?thesis by (simp add: matches_decision_def del: find.simps)
  next
    case (Some m)
    then have "\<exists>m \<in> set ms. mr_Disruptive m" using find_Some_in [OF Some] by blast
    with Some Cons show ?thesis by (simp add: matches_decision_def del: find.simps)
  qed
qed (simp add: matches_decision_def)

lemma matches_decision_allow: "matches_decision eng ms = Allow \<longleftrightarrow> ms = []"
  by (auto simp: matches_decision_def coraza_tagged_def decision_defs split: list.split option.split)

lemma coraza_Inspect_never_nil:
  "coraza_Inspect tx eng req bp app t = (t', Inr d) \<Longrightarrow> d \<noteq> None"
  by (auto simp: coraza_Inspect_def coraza_phases_def split: if_splits prod.splits option.splits sum.splits)

lemma coraza_reasons:
  "coraza_Inspect tx eng req bp app t = (t', Inr (Some d)) \<Longrightarrow>
     d_Reason d \<in> {[], ''waf_interruption'', ''waf_match''} \<and> d_Action d \<in> {ActionAllow, ActionCount, ActionBlock}"
  by (auto simp: coraza_Inspect_def coraza_phases_def interruptionDecision_def matches_decision_def
      split: if_splits prod.splits option.splits sum.splits list.splits)

text \<open>The first interruption that the library reports: for the headers, for the inspected part of the body when there is
  one, or after the body.\<close>

definition first_interruption :: "'t transaction \<Rightarrow> http_request \<Rightarrow> string \<Rightarrow> PolicyContext \<Rightarrow> 't \<Rightarrow> interruption option" where
  "first_interruption tx req bodyPreview app t =
     (case tx_ProcessRequestHeaders tx (coraza_setup tx req app t) of
        (_, Some i) \<Rightarrow> Some i
      | (t1, None) \<Rightarrow>
          (case (if bodyPreview = [] then (t1, Inr None) else tx_WriteRequestBody tx bodyPreview t1) of
             (_, Inl _) \<Rightarrow> None
           | (_, Inr (Some i)) \<Rightarrow> Some i
           | (t2, Inr None) \<Rightarrow> (case snd (tx_ProcessRequestBody tx t2) of Inl _ \<Rightarrow> None | Inr i \<Rightarrow> i)))"

lemma coraza_phases_decision:
  assumes "coraza_phases tx eng req bp app t = (t3, Inr (Some d))"
  shows "d = (case first_interruption tx req bp app t of
     Some i \<Rightarrow> interruptionDecision i | None \<Rightarrow> matches_decision eng (tx_MatchedRules tx t3))"
  using assms by (auto simp: coraza_phases_def first_interruption_def split: if_splits prod.splits option.splits sum.splits)

text \<open>C24: Once a transaction is open, the Coraza adapter blocks a request exactly when the library
  interrupted it, or reported a disruptive match while the engine is not in detection-only mode;
  whatever the phases return, the library's logging runs and then the transaction is closed.\<close>

theorem coraza_block_iff:
  assumes "\<not> hr_Cancelled req" "coraza_phases tx eng req bp app t = (t3, Inr (Some d))"
  shows "coraza_Inspect tx eng req bp app t = (tx_Close tx (tx_ProcessLogging tx t3), Inr (Some d)) \<and>
     (WouldBlock d \<longleftrightarrow>
        first_interruption tx req bp app t \<noteq> None \<or>
        (eng \<noteq> ''DetectionOnly'' \<and> (\<exists>m \<in> set (tx_MatchedRules tx t3). mr_Disruptive m)))"
proof -
  have "WouldBlock (interruptionDecision i)" for i by (simp add: interruptionDecision_def)
  then show ?thesis
    using assms coraza_phases_decision [OF assms(2)] matches_decision_blocks [of eng "tx_MatchedRules tx t3"]
    by (auto simp: coraza_Inspect_def split: option.splits)
qed

text \<open>A transaction that reports one disruptive match and logs the calls it gets.\<close>

definition sample_tx :: "string list transaction" where
  "sample_tx = \<lparr>tx_ProcessConnection = (\<lambda>_ _ _ _ t. ''connection'' # t), tx_SetServerName = (\<lambda>_ t. t),
     tx_ProcessURI = (\<lambda>_ _ _ t. ''uri'' # t), tx_AddRequestHeader = (\<lambda>_ _ t. ''header'' # t),
     tx_ProcessRequestHeaders = (\<lambda>t. (t, None)), tx_WriteRequestBody = (\<lambda>_ t. (t, Inr None)),
     tx_ProcessRequestBody = (\<lambda>t. (''body'' # t, Inr None)),
     tx_MatchedRules = (\<lambda>_. [\<lparr>mr_ID = 942100, mr_Disruptive = True\<rparr>]),
     tx_ProcessLogging = (\<lambda>t. ''logging'' # t), tx_Close = (\<lambda>t. ''close'' # t)\<rparr>"

definition sample_http :: "string \<Rightarrow> http_request" where
  "sample_http path = \<lparr>hr_Method = ''GET'', hr_Path = path, hr_RawQuery = [], hr_RequestURI = path,
     hr_Proto = ''HTTP/1.1'', hr_Host = ''example.com'', hr_RemoteAddr = ''203.0.113.9:4711'', hr_TLS = False,
     hr_Header = [], hr_Body = None, hr_Cancelled = False\<rparr>"

definition sample_px :: PolicyContext where
  "sample_px = \<lparr>px_RequestID = ''id'', px_AppID = ''app1'', px_Host = ''example.com'', px_ClientIP = ''203.0.113.9'',
     px_Mode = ''block''\<rparr>"

theorem coraza_block_iff_witness:
  "fst (coraza_Inspect sample_tx ''On'' (sample_http ''/'') [] sample_px []) =
     [''close'', ''logging'', ''body'', ''header'', ''uri'', ''connection''] \<and>
   (\<exists>d. snd (coraza_Inspect sample_tx ''On'' (sample_http ''/'') [] sample_px []) = Inr (Some d) \<and> WouldBlock d)"
proof -
  have "\<not> hr_Cancelled (sample_http ''/'')" by (simp add: sample_http_def)
  moreover have "coraza_phases sample_tx ''On'' (sample_http ''/'') [] sample_px [] =
     ([''body'', ''header'', ''uri'', ''connection''],
      Inr (Some (coraza_tagged (Block ''waf_match'' (coraza_rule_id 942100)))))"
    by (simp add: coraza_phases_def coraza_setup_def addHeaders_def sample_tx_def sample_http_def
        matches_decision_def)
  ultimately show ?thesis
    using coraza_block_iff [of "sample_http ''/''" sample_tx "''On''" "[]" sample_px "[]"]
    by (simp add: sample_tx_def)
qed

end
