(* ===== verification/Go_Proxy.thy ===== *)
theory Go_Proxy
  imports Waf
begin

text \<open>
  Go's \<open>httputil.NewSingleHostReverseProxy\<close>: how the outgoing request is made from the incoming one, and
  how the answer of the origin is copied to the response.  The transport that talks to the origin is
  an argument.
\<close>

record out_request =
  or_Scheme :: string
  or_TargetHost :: string
  or_Path :: string
  or_RawQuery :: string
  or_Method :: string
  or_HostHeader :: string
  or_Header :: http_header
  or_Body :: "body option"

text \<open>The last field of an answer says whether its body arrived completely.\<close>

datatype origin_result =
    OriginFailed
  | OriginAnswer (oa_status: int) (oa_header: http_header) (oa_body: string) (oa_complete: bool)

definition singleJoiningSlash :: "string \<Rightarrow> string \<Rightarrow> string" where
  "singleJoiningSlash a b =
     (if strings_HasSuffix a ''/'' \<and> strings_HasPrefix b ''/'' then a @ drop 1 b
      else if \<not> strings_HasSuffix a ''/'' \<and> \<not> strings_HasPrefix b ''/'' then a @ ''/'' @ b
      else a @ b)"

definition join_query :: "string \<Rightarrow> string \<Rightarrow> string" where
  "join_query a b = (if a = [] \<or> b = [] then a @ b else a @ ''&'' @ b)"

definition hopHeaders :: "string list" where
  "hopHeaders = [''Connection'', ''Proxy-Connection'', ''Keep-Alive'', ''Proxy-Authenticate'',
     ''Proxy-Authorization'', ''Te'', ''Trailer'', ''Transfer-Encoding'', ''Upgrade'']"

definition connection_tokens :: "http_header \<Rightarrow> string list" where
  "connection_tokens h =
     filter (\<lambda>t. t \<noteq> []) (concat (map (\<lambda>f. map strings_TrimSpace (split_on CHR '','' f)) (header_values h ''Connection'')))"

definition removeHopByHopHeaders :: "http_header \<Rightarrow> http_header" where
  "removeHopByHopHeaders h =
     fold (\<lambda>k h. header_Del h k) (connection_tokens h @ hopHeaders) h"

definition has_token :: "string list \<Rightarrow> string \<Rightarrow> bool" where
  "has_token vs token \<longleftrightarrow>
     list_ex (\<lambda>v. list_ex (\<lambda>t. map ascii_lower (strings_TrimSpace t) = map ascii_lower token) (split_on CHR '','' v)) vs"

definition upgradeType :: "http_header \<Rightarrow> string" where
  "upgradeType h = (if has_token (header_values h ''Connection'') ''Upgrade'' then header_Get h ''Upgrade'' else [])"

definition ascii_print :: "string \<Rightarrow> bool" where
  "ascii_print s = list_all (\<lambda>c. 32 \<le> byte c \<and> byte c \<le> 126) s"

text \<open>The headers of the outgoing request.\<close>

definition forwarded_for :: "http_request \<Rightarrow> http_header \<Rightarrow> http_header" where
  "forwarded_for r h =
     (case net_SplitHostPort (hr_RemoteAddr r) of
        None \<Rightarrow> h
      | Some (ip, _) \<Rightarrow>
          (let prior = header_values h ''X-Forwarded-For'' in
           header_Set h ''X-Forwarded-For'' (if prior = [] then ip else strings_Join prior '', '' @ '', '' @ ip)))"

definition out_header :: "http_request \<Rightarrow> http_header" where
  "out_header r =
     (let up = upgradeType (hr_Header r);
          h1 = removeHopByHopHeaders (hr_Header r);
          h2 = (if has_token (header_values (hr_Header r) ''Te'') ''trailers'' then header_Set h1 ''Te'' ''trailers'' else h1);
          h3 = (if up \<noteq> [] then header_Set (header_Set h2 ''Connection'' ''Upgrade'') ''Upgrade'' up else h2);
          h4 = forwarded_for r h3 in
      if map_of h4 ''User-Agent'' = None then header_Set h4 ''User-Agent'' [] else h4)"

definition outgoing :: "URL \<Rightarrow> http_request \<Rightarrow> out_request" where
  "outgoing target r =
     \<lparr>or_Scheme = url_Scheme target, or_TargetHost = url_Host target,
      or_Path = singleJoiningSlash (url_Path target) (hr_Path r),
      or_RawQuery = join_query (url_RawQuery target) (hr_RawQuery r),
      or_Method = hr_Method r, or_HostHeader = hr_Host r, or_Header = out_header r, or_Body = hr_Body r\<rparr>"

definition copyHeader :: "http_header \<Rightarrow> response \<Rightarrow> response" where
  "copyHeader h w =
     (if rsp_wroteHeader w then w
      else w\<lparr>rsp_header := fold (\<lambda>(k, vs) acc. fold (\<lambda>v acc. header_Add acc k v) vs acc) h (rsp_header w)\<rparr>)"

end
