(* ===== verification/Gateway.thy ===== *)
theory Gateway
  imports Ratelimit Audit_Log Metrics Go_Proxy Policy_Client
begin

text \<open>
  The request handler of the gateway (\<open>services/gateway/internal/proxy/gateway.go\<close>).  The components the
  handler calls through interfaces (policy provider, rate limiter, WAF engine, auditor, transport)
  are the functions of the record \<open>services\<close>, over a world state \<open>'s\<close>; the handler itself is written
  out whole, with the response writer, the status recorder, the audit event of the deferred function
  and the recovery from panics.
\<close>

section \<open>Client addresses\<close>

definition parseRemoteAddr :: "string \<Rightarrow> Addr" where
  "parseRemoteAddr v =
     (let host = (case net_SplitHostPort v of None \<Rightarrow> v | Some (h, _) \<Rightarrow> h) in
      case netip_ParseAddr (strings_Trim host ''[]'') of None \<Rightarrow> IPv4Unspecified | Some a \<Rightarrow> a)"

definition parse_trusted :: "string \<Rightarrow> string + Prefix" where
  "parse_trusted v = (case netip_ParsePrefix v of None \<Rightarrow> Inl v | Some p \<Rightarrow> Inr (prefix_Masked p))"

definition parseTrustedProxies :: "string list \<Rightarrow> string + Prefix list" where
  "parseTrustedProxies vs = traverse parse_trusted vs"

definition containsAddr :: "Prefix list \<Rightarrow> Addr \<Rightarrow> bool" where
  "containsAddr prefixes addr = list_ex (\<lambda>p. prefix_Contains p addr) prefixes"

definition clientIP :: "Prefix list \<Rightarrow> http_request \<Rightarrow> Addr" where
  "clientIP trusted r =
     (let remoteIP = parseRemoteAddr (hr_RemoteAddr r) in
      if length trusted = 0 \<or> \<not> containsAddr trusted remoteIP then remoteIP
      else (let xff = header_Get (hr_Header r) ''X-Forwarded-For'' in
        if xff = [] then remoteIP
        else (case netip_ParseAddr (strings_TrimSpace (hd (split_on CHR '','' xff))) of
            Some parsed \<Rightarrow> parsed
          | None \<Rightarrow> remoteIP)))"

section \<open>The gateway and its services\<close>

record 's services =
  sv_Lookup :: "string \<Rightarrow> 's \<Rightarrow> 's \<times> LookupResult"
  sv_Check :: "App \<Rightarrow> Request \<Rightarrow> RateLimitRule \<Rightarrow> 's \<Rightarrow> 's \<times> (panic + Decision)"
  sv_Inspect :: "http_request \<Rightarrow> string \<Rightarrow> PolicyContext \<Rightarrow> 's \<Rightarrow> 's \<times> waf_result"
  sv_Log :: "(Event \<Rightarrow> 's \<Rightarrow> 's \<times> panic option) option"
  sv_RoundTrip :: "out_request \<Rightarrow> 's \<Rightarrow> 's \<times> origin_result"
  sv_MetricsPage :: "response \<Rightarrow> response"

record 's Options =
  op_Config :: Config
  op_Policies :: "Store option"
  op_Provider :: "(string \<Rightarrow> 's \<Rightarrow> 's \<times> LookupResult) option"
  op_RateLimiter :: "(App \<Rightarrow> Request \<Rightarrow> RateLimitRule \<Rightarrow> 's \<Rightarrow> 's \<times> (panic + Decision)) option"
  op_Auditor :: "(Event \<Rightarrow> 's \<Rightarrow> 's \<times> panic option) option"
  op_WAF :: "(http_request \<Rightarrow> string \<Rightarrow> PolicyContext \<Rightarrow> 's \<Rightarrow> 's \<times> waf_result) option"
  op_Transport :: "out_request \<Rightarrow> 's \<Rightarrow> 's \<times> origin_result"
  op_MetricsPage :: "response \<Rightarrow> response"

record 's Gateway =
  gw_WAF :: WAFConfig
  gw_services :: "'s services"
  gw_trustedProxies :: "Prefix list"

datatype gateway_error = ProviderRequired | BadTrustedProxy string

definition NewGateway :: "unicode \<Rightarrow> 's Options \<Rightarrow> gateway_error + 's Gateway" where
  "NewGateway U opts =
     (case (case op_Provider opts of
              Some p \<Rightarrow> Some p
            | None \<Rightarrow> map_option (\<lambda>st h s. (s, Store_Lookup U st h)) (op_Policies opts)) of
        None \<Rightarrow> Inl ProviderRequired
      | Some provider \<Rightarrow>
          (case parseTrustedProxies (sc_TrustedProxies (cfg_Server (op_Config opts))) of
             Inl e \<Rightarrow> Inl (BadTrustedProxy e)
           | Inr trusted \<Rightarrow>
               Inr \<lparr>gw_WAF = cfg_WAF (op_Config opts),
                 gw_services = \<lparr>
                   sv_Lookup = provider,
                   sv_Check = (case op_RateLimiter opts of Some l \<Rightarrow> l | None \<Rightarrow> (\<lambda>_ _ _ s. NoopLimiter_Check s)),
                   sv_Inspect = (case op_WAF opts of Some e \<Rightarrow> e
                     | None \<Rightarrow> (\<lambda>req bp px s. (s, AllowEngine_Inspect req bp px))),
                   sv_Log = op_Auditor opts, sv_RoundTrip = op_Transport opts,
                   sv_MetricsPage = op_MetricsPage opts\<rparr>,
                 gw_trustedProxies = trusted\<rparr>))"

definition NewTarget :: "string \<Rightarrow> URL option" where
  "NewTarget rawURL =
     (case url_Parse rawURL of
        None \<Rightarrow> None
      | Some p \<Rightarrow> if url_Scheme p = [] \<or> url_Host p = [] then None else Some p)"

section \<open>The request body\<close>

text \<open>\<open>io.ReadAll(io.LimitReader(body, n))\<close> gives the bytes read and leaves the body at the byte after
  them: \<open>bd_data\<close> holds the bytes still to be read, and \<open>bd_fail = Some k\<close> means that reading fails
  after \<open>k\<close> more bytes.  With \<open>n \<le> 0\<close> nothing is read.\<close>

definition read_limited :: "body \<Rightarrow> int \<Rightarrow> (string \<times> body) option" where
  "read_limited b n =
     (let data = take (nat n) (bd_data b); rest = b\<lparr>bd_data := drop (nat n) (bd_data b)\<rparr> in
      case bd_fail b of
        None \<Rightarrow> Some (data, rest)
      | Some k \<Rightarrow> if k < nat n then None else Some (data, rest\<lparr>bd_fail := Some (k - nat n)\<rparr>))"

text \<open>\<open>multiReadCloser\<close> over \<open>io.MultiReader(bytes.NewReader(data), rest)\<close>: the bytes in memory, then what is left
  of the original body, whose \<open>Close\<close> it calls.\<close>

definition multi_read_closer :: "string \<Rightarrow> body \<Rightarrow> body" where
  "multi_read_closer data rest =
     \<lparr>bd_data = data @ bd_data rest, bd_fail = map_option (\<lambda>k. length data + k) (bd_fail rest), bd_closeErr = bd_closeErr rest\<rparr>"

datatype prepared =
    PrepareFailed
  | Prepared (pr_preview: string) (pr_exceeded: bool) (pr_body: "body option")

definition prepareRequestBody :: "WAFConfig \<Rightarrow> body option \<Rightarrow> prepared" where
  "prepareRequestBody cfg bo =
     (case bo of
        None \<Rightarrow> Prepared [] False None
      | Some original \<Rightarrow>
          (let limit = wc_RequestBodyLimitBytes cfg in
           if limit \<le> 0 then Prepared [] False (Some original)
           else (case read_limited original (wrap64 (limit + 1)) of
               None \<Rightarrow> PrepareFailed
             | Some (data, rest) \<Rightarrow>
                 if limit < int (length data) then Prepared (take (nat limit) data) True (Some (multi_read_closer data rest))
                 else if bd_closeErr rest then PrepareFailed
                 else Prepared data False (Some \<lparr>bd_data = data, bd_fail = None, bd_closeErr = False\<rparr>))))"

definition redactedPreview :: "string \<Rightarrow> int \<Rightarrow> string" where
  "redactedPreview b maxBytes =
     (if maxBytes \<le> 0 then []
      else ''[redacted preview: '' @
        show_nat (if maxBytes < int (length b) then nat maxBytes else length b) @ '' bytes]'')"

definition schemeForRequest :: "http_request \<Rightarrow> string" where
  "schemeForRequest r = (if hr_TLS r then ''https'' else ''http'')"

text \<open>\<open>requestID\<close>: sixteen random bytes in hexadecimal, or the time when the random source fails.\<close>

definition requestID :: "string option \<Rightarrow> string \<Rightarrow> string" where
  "requestID random time = hex_EncodeToString (case random of Some b \<Rightarrow> b | None \<Rightarrow> time)"

section \<open>The context of one request\<close>

text \<open>\<open>gx_rec\<close> is the status field of the recorder; \<open>gx_sent\<close> and \<open>gx_audited\<close> are the requests handed
  to the transport and the events handed to the auditor so far.\<close>

record 's gwctx =
  gx_s :: 's
  gx_w :: response
  gx_rec :: int
  gx_event :: Event
  gx_metrics :: "metric list"
  gx_sent :: "out_request list"
  gx_audited :: "Event list"

record clock =
  ck_now :: int
  ck_latency :: int
  ck_originLatency :: int

definition error_body :: "string \<Rightarrow> string \<Rightarrow> string" where
  "error_body message rid = json_strings [(''error'', message), (''request_id'', rid)]"

text \<open>\<open>writeJSONError\<close> on the server's writer, and on the recorder, which notes the status first.\<close>

definition writeJSONError :: "int \<Rightarrow> string \<Rightarrow> string \<Rightarrow> response \<Rightarrow> response \<times> panic option" where
  "writeJSONError status rid message w =
     (case rw_WriteHeader status (rw_SetHeader ''Content-Type'' ''application/json'' w) of
        Inl w' \<Rightarrow> (w', Some (InvalidWriteHeaderCode status))
      | Inr w' \<Rightarrow> (rw_Write (error_body message rid) w', None))"

definition recorder_error :: "int \<Rightarrow> string \<Rightarrow> string \<Rightarrow> 's gwctx \<Rightarrow> 's gwctx \<times> panic option" where
  "recorder_error status rid message c =
     (case writeJSONError status rid message (gx_w c) of
        (w', p) \<Rightarrow> (c\<lparr>gx_w := w', gx_rec := status\<rparr>, p))"

section \<open>The decision\<close>

definition rl_request :: "http_request \<Rightarrow> string \<Rightarrow> string \<Rightarrow> Request" where
  "rl_request r ip host = \<lparr>rr_ClientIP = ip, rr_Method = hr_Method r, rr_Host = host, rr_Path = hr_Path r,
     rr_Headers = hr_Header r, rr_Query = fst (url_ParseQuery (hr_RawQuery r))\<rparr>"

fun evaluateRateLimits ::
  "'s services \<Rightarrow> App \<Rightarrow> Request \<Rightarrow> RateLimitRule list \<Rightarrow> 's \<Rightarrow> 's \<times> (panic + Decision)" where
  "evaluateRateLimits sv app req [] s = (s, Inr Allow)"
| "evaluateRateLimits sv app req (rule # rules) s =
     (case sv_Check sv app req rule s of
        (s', Inl p) \<Rightarrow> (s', Inl p)
      | (s', Inr got) \<Rightarrow>
          if d_Action got \<noteq> ActionAllow then (s', Inr got) else evaluateRateLimits sv app req rules s')"

definition rememberCount :: "Decision \<Rightarrow> Decision option \<Rightarrow> Decision option" where
  "rememberCount got observed = (if d_Action got = ActionCount \<and> observed = None then Some got else observed)"

text \<open>The rate limits are consulted only when the IP lists allow the request.\<close>

definition rate_phase ::
  "'s services \<Rightarrow> App \<Rightarrow> Request \<Rightarrow> Decision \<Rightarrow> 's \<Rightarrow> 's \<times> (panic + Decision \<times> Decision option)" where
  "rate_phase sv app req final s =
     (if d_Action final \<noteq> ActionAllow then (s, Inr (final, None))
      else (case evaluateRateLimits sv app req (app_RateLimits app) s of
          (s', Inl p) \<Rightarrow> (s', Inl p)
        | (s', Inr got) \<Rightarrow>
            (s', Inr (if d_Action got \<in> {ActionRateLimit, ActionBlock, ActionChallenge} then (got, None)
              else (final, rememberCount got None)))))"

definition body_phase :: "bool \<Rightarrow> Decision \<Rightarrow> Decision" where
  "body_phase exceeded final =
     (if d_Action final = ActionAllow \<and> exceeded then Block ''request_body_limit_exceeded'' ''waf:request_body_limit''
      else final)"

definition custom_phase ::
  "unicode \<Rightarrow> App \<Rightarrow> RequestContext \<Rightarrow> Decision \<Rightarrow> Decision option \<Rightarrow> Decision \<times> Decision option" where
  "custom_phase U app ctx final observed =
     (if d_Action final \<noteq> ActionAllow then (final, observed)
      else (let custom = EvaluateCustomRules U app ctx in
        if d_Action custom = ActionBlock \<or> d_Reason custom = ''custom_rule_allow'' then (custom, observed)
        else if d_Action custom = ActionCount then (final, rememberCount custom observed)
        else (final, observed)))"

definition waf_phase ::
  "'s services \<Rightarrow> http_request \<Rightarrow> string \<Rightarrow> PolicyContext \<Rightarrow> Decision \<Rightarrow> Decision option \<Rightarrow> 's \<Rightarrow>
     's \<times> (string + Decision \<times> Decision option \<times> bool)" where
  "waf_phase sv r preview px final observed s =
     (let terminalAllow = (d_Action final = ActionAllow \<and> d_Reason final = ''custom_rule_allow'') in
      if d_Action final \<noteq> ActionAllow then (s, Inr (final, observed, terminalAllow))
      else (case sv_Inspect sv r preview px s of
          (s', Inl e) \<Rightarrow> (s', Inl e)
        | (s', Inr None) \<Rightarrow> (s', Inr (final, observed, terminalAllow))
        | (s', Inr (Some d)) \<Rightarrow>
            (s', Inr (if d_Action d \<in> {ActionBlock, ActionRateLimit, ActionChallenge} then (d, observed, False)
              else (final, rememberCount d observed, terminalAllow)))))"

definition default_phase :: "App \<Rightarrow> Decision \<Rightarrow> Decision option \<Rightarrow> bool \<Rightarrow> Decision" where
  "default_phase app final observed terminalAllow =
     (let f1 = (if d_Action final = ActionAllow \<and> \<not> terminalAllow \<and> app_DefaultAction app = ActionBlock
                then Block ''default_action'' ''default_action'' else final) in
      if d_Action f1 = ActionAllow then (case observed of Some d \<Rightarrow> d | None \<Rightarrow> f1) else f1)"

datatype outcome = Panicked panic | WafError | Decided Decision

definition request_ctx :: "http_request \<Rightarrow> Addr \<Rightarrow> string \<Rightarrow> RequestContext" where
  "request_ctx r ip host = \<lparr>rq_Method = hr_Method r, rq_Path = hr_Path r, rq_Host = host,
     rq_Headers = hr_Header r, rq_Query = fst (url_ParseQuery (hr_RawQuery r)), rq_ClientIP = ip\<rparr>"

definition policy_px :: "string \<Rightarrow> App \<Rightarrow> string \<Rightarrow> Addr \<Rightarrow> PolicyContext" where
  "policy_px rid app host ip = \<lparr>px_RequestID = rid, px_AppID = app_ID app, px_Host = host,
     px_ClientIP = addr_String ip, px_Mode = app_Mode app\<rparr>"

definition decide ::
  "unicode \<Rightarrow> 's services \<Rightarrow> string \<Rightarrow> http_request \<Rightarrow> App \<Rightarrow> Addr \<Rightarrow> string \<Rightarrow> string \<Rightarrow> bool \<Rightarrow> 's \<Rightarrow> 's \<times> outcome" where
  "decide U sv rid r app ip host preview exceeded s =
     (case rate_phase sv app (rl_request r (addr_String ip) host) (EvaluateIP app ip) s of
        (s1, Inl p) \<Rightarrow> (s1, Panicked p)
      | (s1, Inr (f1, obs1)) \<Rightarrow>
          (case custom_phase U app (request_ctx r ip host) (body_phase exceeded f1) obs1 of (f2, obs2) \<Rightarrow>
             (case waf_phase sv r preview (policy_px rid app host ip) f2 obs2 s1 of
                (s2, Inl e) \<Rightarrow> (s2, WafError)
              | (s2, Inr (f3, obs3, terminalAllow)) \<Rightarrow> (s2, Decided (default_phase app f3 obs3 terminalAllow)))))"

section \<open>The reverse proxy\<close>

definition proxy_error :: "clock \<Rightarrow> string \<Rightarrow> 's gwctx \<Rightarrow> 's gwctx \<times> panic option" where
  "proxy_error ck rid c =
     recorder_error 502 rid ''origin unavailable''
       (c\<lparr>gx_event := (gx_event c)\<lparr>ev_OriginLatencyMS := ck_originLatency ck\<rparr>,
          gx_metrics := gx_metrics c @ ObserveOrigin (ck_originLatency ck)\<rparr>)"

definition proxy_modify :: "clock \<Rightarrow> int \<Rightarrow> 's gwctx \<Rightarrow> 's gwctx" where
  "proxy_modify ck status c = c\<lparr>
     gx_event := (gx_event c)\<lparr>ev_OriginStatus := status, ev_OriginLatencyMS := ck_originLatency ck\<rparr>,
     gx_metrics := gx_metrics c @ ObserveOrigin (ck_originLatency ck)\<rparr>"

text \<open>The recorder has no \<open>Hijack\<close>, so a protocol switch (101) ends in the error handler; a body that
  breaks off makes the proxy panic with \<open>http.ErrAbortHandler\<close>.\<close>

definition proxy_copy :: "int \<Rightarrow> http_header \<Rightarrow> string \<Rightarrow> bool \<Rightarrow> 's gwctx \<Rightarrow> 's gwctx \<times> panic option" where
  "proxy_copy status hdr bdy complete c =
     (case rw_WriteHeader status (copyHeader (removeHopByHopHeaders hdr) (gx_w c)) of
        Inl w' \<Rightarrow> (c\<lparr>gx_w := w', gx_rec := status\<rparr>, Some (InvalidWriteHeaderCode status))
      | Inr w' \<Rightarrow>
          (c\<lparr>gx_w := (if bdy = [] then w' else rw_Write bdy w'), gx_rec := status\<rparr>,
           if complete then None else Some AbortHandler))"

definition proxy_ServeHTTP ::
  "'s services \<Rightarrow> clock \<Rightarrow> string \<Rightarrow> URL \<Rightarrow> http_request \<Rightarrow> 's gwctx \<Rightarrow> 's gwctx \<times> panic option" where
  "proxy_ServeHTTP sv ck rid origin r c =
     (if \<not> ascii_print (upgradeType (hr_Header r)) then proxy_error ck rid c
      else (let out = outgoing origin r; c1 = c\<lparr>gx_sent := gx_sent c @ [out]\<rparr> in
        case sv_RoundTrip sv out (gx_s c1) of
          (s', OriginFailed) \<Rightarrow> proxy_error ck rid (c1\<lparr>gx_s := s'\<rparr>)
        | (s', OriginAnswer status hdr bdy complete) \<Rightarrow>
            (let c2 = proxy_modify ck status (c1\<lparr>gx_s := s'\<rparr>) in
             if status = 101 then proxy_error ck rid c2
             else proxy_copy status hdr bdy complete c2)))"

section \<open>The handler\<close>

definition event_rate_limit :: "RateLimitInfo \<Rightarrow> audit_RateLimit" where
  "event_rate_limit i = \<lparr>arl_Limit = rli_Limit i, arl_Remaining = rli_Remaining i, arl_ResetAt = rli_ResetAt i,
     arl_RuleID = rli_RuleID i, arl_Action = rli_Action i\<rparr>"

definition event_decision :: "App \<Rightarrow> Decision \<Rightarrow> Event \<Rightarrow> Event" where
  "event_decision app final e = e\<lparr>
     ev_Action := d_Action final,
     ev_Enforced := (app_Mode app = ModeBlock \<and> WouldBlock final),
     ev_WouldBlock := WouldBlock final,
     ev_Reason := d_Reason final,
     ev_MatchedRuleID := d_MatchedRuleID final,
     ev_MatchedRuleName := d_MatchedRuleName final,
     ev_RuleGroup := d_RuleGroup final,
     ev_Tags := d_Tags final,
     ev_AnomalyScore := d_AnomalyScore final,
     ev_RateLimit := (case d_RateLimit final of Some i \<Rightarrow> Some (event_rate_limit i) | None \<Rightarrow> ev_RateLimit e)\<rparr>"

definition rate_metrics :: "Decision \<Rightarrow> metric list" where
  "rate_metrics final =
     (if d_RateLimit final \<noteq> None \<and> d_Action final = ActionRateLimit then IncRateLimited else [])"

definition forward_request :: "string \<Rightarrow> http_request \<Rightarrow> http_request" where
  "forward_request rid r = r\<lparr>hr_Header :=
     header_Set (header_Set (header_Set (hr_Header r) ''X-BedemWAF-Request-ID'' rid)
       ''X-Forwarded-Host'' (hr_Host r)) ''X-Forwarded-Proto'' (schemeForRequest r)\<rparr>"

text \<open>Enforcing the final decision: block, or forward to the origin.\<close>

definition enforce ::
  "'s services \<Rightarrow> clock \<Rightarrow> string \<Rightarrow> http_request \<Rightarrow> App \<Rightarrow> Decision \<Rightarrow> 's gwctx \<Rightarrow> 's gwctx \<times> panic option" where
  "enforce sv ck rid r app final c =
     (let c1 = c\<lparr>gx_event := event_decision app final (gx_event c), gx_metrics := gx_metrics c @ rate_metrics final\<rparr> in
      if EnforcedAction (app_Mode app) final \<noteq> ActionAllow \<and> app_Mode app = ModeBlock \<and> WouldBlock final
      then recorder_error (if d_StatusCode final = 0 then 403 else d_StatusCode final) rid ''request blocked'' c1
      else proxy_ServeHTTP sv ck rid (app_Origin app) (forward_request rid r) c1)"

definition handle_app ::
  "unicode \<Rightarrow> 's Gateway \<Rightarrow> clock \<Rightarrow> string \<Rightarrow> http_request \<Rightarrow> Addr \<Rightarrow> string \<Rightarrow> App \<Rightarrow> 's gwctx \<Rightarrow> 's gwctx \<times> panic option" where
  "handle_app U g ck rid r ip host app c =
     (let sv = gw_services g;
          c1 = c\<lparr>gx_event := (gx_event c)\<lparr>ev_TenantID := app_TenantID app, ev_AppID := app_ID app,
            ev_PolicyID := app_PolicyID app, ev_PolicyVersion := app_PolicyVersion app, ev_Mode := app_Mode app\<rparr>\<rparr> in
      case prepareRequestBody (gw_WAF g) (hr_Body r) of
        PrepareFailed \<Rightarrow>
          recorder_error 400 rid ''invalid request body''
            (c1\<lparr>gx_event := (gx_event c1)\<lparr>ev_Action := ActionBlock, ev_Reason := ''request_body_read_failed''\<rparr>\<rparr>)
      | Prepared preview exceeded body' \<Rightarrow>
          (let c2 = (if wc_DebugBodyPreview (gw_WAF g) \<and> 0 < length preview
                     then c1\<lparr>gx_event := (gx_event c1)\<lparr>ev_BodyPreview := redactedPreview preview (wc_BodyPreviewBytes (gw_WAF g))\<rparr>\<rparr>
                     else c1);
               r1 = r\<lparr>hr_Body := body'\<rparr> in
           case decide U sv rid r1 app ip host preview exceeded (gx_s c2) of
             (s', Panicked p) \<Rightarrow> (c2\<lparr>gx_s := s'\<rparr>, Some p)
           | (s', WafError) \<Rightarrow>
               recorder_error 400 rid ''waf inspection failed''
                 (c2\<lparr>gx_s := s', gx_event := (gx_event c2)\<lparr>ev_Action := ActionBlock, ev_Reason := ''waf_error''\<rparr>\<rparr>)
           | (s', Decided final) \<Rightarrow> enforce sv ck rid r1 app final (c2\<lparr>gx_s := s'\<rparr>)))"

definition handle_lookup ::
  "unicode \<Rightarrow> 's Gateway \<Rightarrow> clock \<Rightarrow> string \<Rightarrow> http_request \<Rightarrow> Addr \<Rightarrow> string \<Rightarrow> 's gwctx \<Rightarrow> 's gwctx \<times> panic option" where
  "handle_lookup U g ck rid r ip host c =
     (case sv_Lookup (gw_services g) host (gx_s c) of (s', lookup) \<Rightarrow>
        (let c1 = c\<lparr>gx_s := s',
               gx_event := (if lr_Warning lookup \<noteq> [] then (gx_event c)\<lparr>ev_Reason := lr_Warning lookup\<rparr> else gx_event c)\<rparr> in
         if lr_FailOpen lookup then
           (c1\<lparr>gx_event := (gx_event c1)\<lparr>ev_Action := ActionAllow, ev_Reason := lr_Reason lookup\<rparr>\<rparr>, None)
         else if \<not> lr_Found lookup then
           (let status = (if lr_StatusCode lookup = 0 then 404 else lr_StatusCode lookup) in
            recorder_error status rid (if status = 503 then ''policy unavailable'' else ''no matching app'')
              (c1\<lparr>gx_event := (gx_event c1)\<lparr>ev_Action := ActionBlock, ev_Reason := lr_Reason lookup\<rparr>\<rparr>))
         else (case lr_App lookup of
             None \<Rightarrow> (c1, Some NilDereference)
           | Some app \<Rightarrow> handle_app U g ck rid r ip host app c1)))"

definition initial_event :: "unicode \<Rightarrow> clock \<Rightarrow> string \<Rightarrow> http_request \<Rightarrow> Addr \<Rightarrow> string \<Rightarrow> Event" where
  "initial_event U ck rid r ip host = zero_Event\<lparr>
     ev_Timestamp := ck_now ck, ev_RequestID := rid, ev_Host := host, ev_ClientIP := addr_String ip,
     ev_Country := ''ZZ'', ev_Method := hr_Method r, ev_Path := hr_Path r,
     ev_QueryRedacted := Query U (hr_RawQuery r), ev_Action := ActionAllow,
     ev_UserAgent := header_Get (hr_Header r) ''User-Agent''\<rparr>"

text \<open>The deferred function: it runs on every exit, a panic included, and before the recovery.\<close>

definition audit_deferred :: "'s services \<Rightarrow> clock \<Rightarrow> 's gwctx \<Rightarrow> 's gwctx \<times> panic option" where
  "audit_deferred sv ck c =
     (let e = (gx_event c)\<lparr>ev_Status := gx_rec c, ev_LatencyMS := ck_latency ck\<rparr>;
          c1 = c\<lparr>gx_event := e, gx_metrics := gx_metrics c @
            ObserveRequest (ev_AppID e) (ev_Host e) (ev_Action e) (ev_Reason e) (ev_Status e) (ck_latency ck)\<rparr> in
      case sv_Log sv of
        None \<Rightarrow> (c1, None)
      | Some log \<Rightarrow>
          (case log e (gx_s c1) of (s', p) \<Rightarrow> (c1\<lparr>gx_s := s', gx_audited := gx_audited c1 @ [e]\<rparr>, p)))"

definition recover_panic :: "'s gwctx \<times> panic option \<Rightarrow> 's gwctx" where
  "recover_panic cp =
     (case cp of
        (c, None) \<Rightarrow> c
      | (c, Some _) \<Rightarrow> c\<lparr>gx_w := fst (writeJSONError 500 [] ''internal server error'' (gx_w c))\<rparr>)"

definition new_ctx :: "'s \<Rightarrow> response \<Rightarrow> 's gwctx" where
  "new_ctx s w = \<lparr>gx_s = s, gx_w = w, gx_rec = 200, gx_event = zero_Event, gx_metrics = [], gx_sent = [], gx_audited = []\<rparr>"

text \<open>The body of \<open>ServeHTTP\<close> with the panic it ends in, if any: a panic of the deferred auditing replaces the one
  it interrupts, and the deferred recovery runs last.\<close>

definition serve_audited ::
  "unicode \<Rightarrow> 's Gateway \<Rightarrow> clock \<Rightarrow> string \<Rightarrow> http_request \<Rightarrow> 's gwctx \<Rightarrow> 's gwctx \<times> panic option" where
  "serve_audited U g ck rid r c =
     (let ip = clientIP (gw_trustedProxies g) r; host = NormalizeHost U (hr_Host r);
          c1 = c\<lparr>gx_event := initial_event U ck rid r ip host\<rparr> in
      case handle_lookup U g ck rid r ip host c1 of
        (c2, p) \<Rightarrow>
          (case audit_deferred (gw_services g) ck c2 of
             (c3, p') \<Rightarrow> (c3, if p' \<noteq> None then p' else p)))"

definition serve_request ::
  "unicode \<Rightarrow> 's Gateway \<Rightarrow> clock \<Rightarrow> string \<Rightarrow> http_request \<Rightarrow> 's \<Rightarrow> 's gwctx \<times> panic option" where
  "serve_request U g ck rid r s =
     (let c = new_ctx s new_response in
      if hr_Path r = ''/healthz'' then
        (c\<lparr>gx_w := rw_Write ([CHR ''{''] @ json_pair (''status'', ''ok'') @ [CHR ''}'', CHR 0x0A])
          (case rw_WriteHeader 200 (rw_SetHeader ''Content-Type'' ''application/json'' (gx_w c)) of Inl w \<Rightarrow> w | Inr w \<Rightarrow> w)\<rparr>, None)
      else if hr_Path r = ''/metrics'' then (c\<lparr>gx_w := sv_MetricsPage (gw_services g) (gx_w c)\<rparr>, None)
      else if \<not> ValidHost U (NormalizeHost U (hr_Host r)) then recorder_error 400 rid ''invalid host'' c
      else serve_audited U g ck rid r c)"

definition ServeHTTP :: "unicode \<Rightarrow> 's Gateway \<Rightarrow> clock \<Rightarrow> string \<Rightarrow> http_request \<Rightarrow> 's \<Rightarrow> 's gwctx" where
  "ServeHTTP U g ck rid r s = recover_panic (serve_request U g ck rid r s)"

text \<open>What the client receives when the handler has returned.  The server sends no body in answer to \<open>HEAD\<close>: it counts
  what the handler writes and drops it.\<close>

definition client_body :: "http_request \<Rightarrow> string \<Rightarrow> string" where
  "client_body r b = (if hr_Method r = ''HEAD'' then [] else b)"

definition served_response :: "http_request \<Rightarrow> 's gwctx \<Rightarrow> response" where
  "served_response r c = (rw_finish (gx_w c))\<lparr>rsp_body := client_body r (rsp_body (rw_finish (gx_w c)))\<rparr>"

end
