(* ===== verification/Gateway_Facts.thy ===== *)
theory Gateway_Facts
  imports Gateway
begin

text \<open>
  What the request handler guarantees.  The first part shows that the sequence of phases is a
  precedence list of stages; the second part follows a request through the handler to the origin, to the
  client and to the audit log, in a locale for services whose logging does not panic; the last part
  treats request bodies and client addresses.  \<open>Gateway_Main\<close> interprets the locale for the services of the program.
\<close>

section \<open>The order of the stages\<close>

text \<open>The stages in the order of precedence; a stage blocks, counts or lets pass.  The first stage that
  blocks decides; otherwise the first count shows; otherwise the request is allowed.\<close>

definition precedence :: "Decision list \<Rightarrow> Decision list \<Rightarrow> Decision \<Rightarrow> Decision" where
  "precedence stages counting allow =
     (case find WouldBlock stages of
        Some d \<Rightarrow> d
      | None \<Rightarrow> (case find (\<lambda>d. d_Action d = ActionCount) counting of Some d \<Rightarrow> d | None \<Rightarrow> allow))"

definition body_stage :: "bool \<Rightarrow> Decision" where
  "body_stage exceeded = (if exceeded then Block ''request_body_limit_exceeded'' ''waf:request_body_limit'' else Allow)"

definition default_stage :: "App \<Rightarrow> Decision \<Rightarrow> Decision" where
  "default_stage app custom =
     (if app_DefaultAction app = ActionBlock \<and> d_Reason custom \<noteq> ''custom_rule_allow''
      then Block ''default_action'' ''default_action'' else Allow)"

lemma first_match_cases:
  "(\<exists>r. first_match act rules = block_decision r) \<or> (\<exists>r. first_match act rules = count_decision r) \<or>
   (\<exists>r. first_match act rules = allow_decision r) \<or> first_match act rules = Allow"
  unfolding first_match_def
  by (cases "find (\<lambda>r. act r \<and> terminal r) rules"; cases "find (\<lambda>r. act r \<and> cr_Action r = ActionCount) rules") auto

lemma rule_decision_reasons [simp]:
  "d_Reason (block_decision r) = ''custom_rule''" "d_Reason (count_decision r) = ''custom_rule''"
  "d_Reason (allow_decision r) = ''custom_rule_allow''"
  "WouldBlock (block_decision r)" "\<not> WouldBlock (count_decision r)" "\<not> WouldBlock (allow_decision r)"
  by (simp_all add: block_decision_def count_decision_def allow_decision_def decision_defs WouldBlock_def)

lemma custom_decision_facts:
  assumes custom_def: "custom = EvaluateCustomRules U app ctx"
  shows "WouldBlock custom \<longleftrightarrow> d_Action custom = ActionBlock"
    and "d_Reason custom = ''custom_rule_allow'' \<Longrightarrow> d_Action custom = ActionAllow"
    and "d_Action custom \<in> {ActionBlock, ActionCount, ActionAllow}"
  using first_match_cases [of "active U ctx (app_IPSets app)" "app_CustomRules app"]
  unfolding custom_def EvaluateCustomRules_first_match by auto

lemma blocking_actions:
  "d_Action d \<in> {ActionRateLimit, ActionBlock, ActionChallenge} \<longleftrightarrow> WouldBlock d"
  "d_Action d \<in> {ActionBlock, ActionRateLimit, ActionChallenge} \<longleftrightarrow> WouldBlock d"
  by (auto simp: WouldBlock_def)

lemma not_WouldBlock:
  "d_Action d = ActionCount \<Longrightarrow> \<not> WouldBlock d" "d_Action d = ActionAllow \<Longrightarrow> \<not> WouldBlock d"
  by (simp_all add: WouldBlock_def)

lemma rememberCount_simps [simp]:
  "rememberCount d None = (if d_Action d = ActionCount then Some d else None)"
  "rememberCount d (Some e) = Some e"
  by (simp_all add: rememberCount_def)

lemma rememberCount_Allow [simp]: "rememberCount Allow obs = obs"
  by (simp add: rememberCount_def)

lemma EvaluateIP_pass: "\<not> WouldBlock (EvaluateIP app ip) \<Longrightarrow> EvaluateIP app ip = Allow"
  using EvaluateIP_blocks_iff EvaluateIP_not_blocklisted by metis

lemma EvaluateIP_block_action: "WouldBlock (EvaluateIP app ip) \<Longrightarrow> d_Action (EvaluateIP app ip) = ActionBlock"
  using EvaluateIP_action [of app ip] by (auto simp: WouldBlock_def)

text \<open>Once a decision is not to allow, the later phases keep it.\<close>

lemma later_phases_keep:
  assumes "d_Action f \<noteq> ActionAllow"
  shows "body_phase exceeded f = f" "custom_phase U app ctx f obs = (f, obs)"
    "waf_phase sv r preview px f obs s = (s, Inr (f, obs, False))" "default_phase app f obs t = f"
  using assms by (simp_all add: body_phase_def custom_phase_def waf_phase_def default_phase_def Let_def)

lemma decide_ip:
  assumes "WouldBlock (EvaluateIP app ip)"
  shows "decide U sv rid r app ip host preview exceeded s = (s, Decided (EvaluateIP app ip))"
proof -
  have "d_Action (EvaluateIP app ip) \<noteq> ActionAllow" using EvaluateIP_block_action [OF assms] by simp
  then show ?thesis by (simp add: decide_def rate_phase_def later_phases_keep)
qed

lemma rate_phase_pass:
  assumes "\<not> WouldBlock (EvaluateIP app ip)"
    and "evaluateRateLimits sv app req (app_RateLimits app) s = (s1, Inr rate)"
  shows "rate_phase sv app req (EvaluateIP app ip) s =
     (s1, Inr (if WouldBlock rate then (rate, None) else (Allow, rememberCount rate None)))"
  using assms EvaluateIP_pass [OF assms(1)] by (simp only: rate_phase_def blocking_actions) simp

lemma decide_rate:
  assumes "\<not> WouldBlock (EvaluateIP app ip)" "WouldBlock rate"
    and "evaluateRateLimits sv app (rl_request r (addr_String ip) host) (app_RateLimits app) s = (s1, Inr rate)"
  shows "decide U sv rid r app ip host preview exceeded s = (s1, Decided rate)"
proof -
  have "d_Action rate \<noteq> ActionAllow" using assms(2) by (auto simp: WouldBlock_def)
  then show ?thesis
    using assms(2) by (simp add: decide_def rate_phase_pass [OF assms(1,3)] later_phases_keep)
qed

lemma decide_body:
  assumes "\<not> WouldBlock (EvaluateIP app ip)" "\<not> WouldBlock rate"
    and "evaluateRateLimits sv app (rl_request r (addr_String ip) host) (app_RateLimits app) s = (s1, Inr rate)"
  shows "decide U sv rid r app ip host preview True s = (s1, Decided (body_stage True))"
proof -
  have "body_phase True Allow = body_stage True" by (simp add: body_phase_def body_stage_def)
  moreover have "d_Action (body_stage True) \<noteq> ActionAllow" by (simp add: body_stage_def)
  ultimately show ?thesis
    using assms(2) by (simp add: decide_def rate_phase_pass [OF assms(1,3)] later_phases_keep)
qed

lemma custom_phase_pass:
  assumes custom_def: "custom = EvaluateCustomRules U app ctx"
  shows "custom_phase U app ctx Allow obs =
     (if WouldBlock custom \<or> d_Reason custom = ''custom_rule_allow'' then (custom, obs)
      else (Allow, rememberCount custom obs))"
  using custom_decision_facts [OF custom_def]
  unfolding custom_phase_def custom_def [symmetric] Let_def by (auto simp: rememberCount_def)

lemma waf_phase_pass:
  assumes "d_Action f = ActionAllow" "sv_Inspect sv r preview px s1 = (s2, Inr result)"
    and "waf = (case result of Some d \<Rightarrow> d | None \<Rightarrow> Allow)"
  shows "waf_phase sv r preview px f obs s1 =
     (s2, Inr (if WouldBlock waf then (waf, obs, False) else (f, rememberCount waf obs, d_Reason f = ''custom_rule_allow'')))"
  using assms by (cases result) (simp_all only: waf_phase_def blocking_actions Let_def, simp_all)

lemma decide_late:
  assumes "\<not> WouldBlock (EvaluateIP app ip)" "\<not> WouldBlock rate"
    and "evaluateRateLimits sv app (rl_request r (addr_String ip) host) (app_RateLimits app) s = (s1, Inr rate)"
    and "sv_Inspect sv r preview (policy_px rid app host ip) s1 = (s2, Inr result)"
    and "waf = (case result of Some d \<Rightarrow> d | None \<Rightarrow> Allow)"
    and custom: "custom = EvaluateCustomRules U app (request_ctx r ip host)"
  shows "snd (decide U sv rid r app ip host preview False s) =
      Decided (precedence [custom, waf, default_stage app custom] [rate, custom, waf]
        (if d_Reason custom = ''custom_rule_allow'' then custom else Allow))"
proof (cases "WouldBlock custom")
  case True
  then have "d_Action custom \<noteq> ActionAllow" by (auto simp: WouldBlock_def)
  then show ?thesis
    using assms(2) True
    by (simp add: decide_def rate_phase_pass [OF assms(1,3)] body_phase_def custom_phase_pass [OF custom]
        later_phases_keep precedence_def)
next
  case False
  define f where "f = (if d_Reason custom = ''custom_rule_allow'' then custom else Allow)"
  define obs where "obs = (if d_Reason custom = ''custom_rule_allow'' then rememberCount rate None
     else rememberCount custom (rememberCount rate None))"
  note cf = custom_decision_facts [OF custom]
  have f: "d_Action f = ActionAllow" using cf by (simp add: f_def)
  have fr: "d_Reason f = ''custom_rule_allow'' \<longleftrightarrow> d_Reason custom = ''custom_rule_allow''" by (simp add: f_def)
  have c: "custom_phase U app (request_ctx r ip host) Allow (rememberCount rate None) = (f, obs)"
    using False by (simp add: custom_phase_pass [OF custom] f_def obs_def)
  have decided: "snd (decide U sv rid r app ip host preview False s) =
      Decided (if WouldBlock waf then waf
        else default_phase app f (rememberCount waf obs) (d_Reason custom = ''custom_rule_allow''))"
  proof (cases "WouldBlock waf")
    case True
    then have "d_Action waf \<noteq> ActionAllow" by (auto simp: WouldBlock_def)
    with True show ?thesis
      using assms(2)
      by (simp add: decide_def rate_phase_pass [OF assms(1,3)] body_phase_def c waf_phase_pass [OF f assms(4,5)]
          later_phases_keep del: rememberCount_simps)
  next
    case False
    with assms(2) show ?thesis
      by (simp add: decide_def rate_phase_pass [OF assms(1,3)] body_phase_def c waf_phase_pass [OF f assms(4,5)] fr
          del: rememberCount_simps)
  qed
  have "default_phase app f (rememberCount waf obs) (d_Reason custom = ''custom_rule_allow'') =
      precedence [default_stage app custom] [rate, custom, waf] f" if "\<not> WouldBlock waf"
    using f cf(2) by (auto simp: default_phase_def precedence_def default_stage_def obs_def f_def Let_def)
  with decided False show ?thesis by (simp add: precedence_def f_def)
qed

text \<open>C1: The final decision is the first blocking one in the order IP lists, rate limits, body limit, custom
  rules, WAF, default action; when no stage blocks, the first count among rate limits, custom rules
  and WAF; and otherwise the request is allowed.  A terminal allow rule switches off the default
  action only.\<close>

theorem decide_precedence:
  assumes "evaluateRateLimits sv app (rl_request r (addr_String ip) host) (app_RateLimits app) s = (s1, Inr rate)"
    and "sv_Inspect sv r preview (policy_px rid app host ip) s1 = (s2, Inr result)"
    and "waf = (case result of Some d \<Rightarrow> d | None \<Rightarrow> Allow)"
    and custom: "custom = EvaluateCustomRules U app (request_ctx r ip host)"
  shows "snd (decide U sv rid r app ip host preview exceeded s) =
     Decided (precedence [EvaluateIP app ip, rate, body_stage exceeded, custom, waf, default_stage app custom]
       [rate, custom, waf] (if d_Reason custom = ''custom_rule_allow'' then custom else Allow))"
proof -
  consider "WouldBlock (EvaluateIP app ip)" | "\<not> WouldBlock (EvaluateIP app ip)" "WouldBlock rate"
    | "\<not> WouldBlock (EvaluateIP app ip)" "\<not> WouldBlock rate" exceeded
    | "\<not> WouldBlock (EvaluateIP app ip)" "\<not> WouldBlock rate" "\<not> exceeded" by blast
  then show ?thesis
  proof cases
    case 1
    then show ?thesis by (simp add: decide_ip precedence_def)
  next
    case 2
    then show ?thesis by (simp add: decide_rate [OF 2 assms(1)] precedence_def)
  next
    case 3
    then show ?thesis using decide_body [OF 3(1,2) assms(1)] by (simp add: precedence_def body_stage_def)
  next
    case 4
    then have "exceeded = False" by simp
    with 4 show ?thesis
      using decide_late [OF 4(1,2) assms] by (simp add: precedence_def body_stage_def)
  qed
qed


section \<open>Where a request goes\<close>

text \<open>The verdict on a request that reaches the end of the evaluation: the application, the request with the
  body that is forwarded, the state after the evaluation and the final decision.\<close>

definition evaluated ::
  "unicode \<Rightarrow> 's Gateway \<Rightarrow> string \<Rightarrow> http_request \<Rightarrow> 's \<Rightarrow> (App \<times> http_request \<times> 's \<times> Decision) option" where
  "evaluated U g rid r s =
     (let host = NormalizeHost U (hr_Host r); ip = clientIP (gw_trustedProxies g) r in
      if hr_Path r \<in> {''/healthz'', ''/metrics''} \<or> \<not> ValidHost U host then None
      else (case sv_Lookup (gw_services g) host s of (s1, l) \<Rightarrow>
        if lr_FailOpen l \<or> \<not> lr_Found l then None
        else (case (lr_App l, prepareRequestBody (gw_WAF g) (hr_Body r)) of
            (Some app, Prepared preview exceeded body') \<Rightarrow>
              (case decide U (gw_services g) rid (r\<lparr>hr_Body := body'\<rparr>) app ip host preview exceeded s1 of
                 (s2, Decided final) \<Rightarrow> Some (app, r\<lparr>hr_Body := body'\<rparr>, s2, final)
               | _ \<Rightarrow> None)
          | _ \<Rightarrow> None)))"

definition enforced :: "App \<Rightarrow> Decision \<Rightarrow> bool" where
  "enforced app final \<longleftrightarrow> app_Mode app = ModeBlock \<and> WouldBlock final"

lemma enforced_guard:
  "EnforcedAction (app_Mode app) final \<noteq> ActionAllow \<and> app_Mode app = ModeBlock \<and> WouldBlock final \<longleftrightarrow> enforced app final"
  by (auto simp: enforced_def EnforcedAction_def WouldBlock_def)

lemma recorder_error_keeps [simp]:
  "gx_sent (fst (recorder_error st rid m c)) = gx_sent c" "gx_audited (fst (recorder_error st rid m c)) = gx_audited c"
  "gx_event (fst (recorder_error st rid m c)) = gx_event c" "gx_s (fst (recorder_error st rid m c)) = gx_s c"
  "gx_rec (fst (recorder_error st rid m c)) = st"
  by (simp_all add: recorder_error_def split: prod.splits)

lemma recover_panic_keeps [simp]:
  "gx_sent (recover_panic cp) = gx_sent (fst cp)" "gx_audited (recover_panic cp) = gx_audited (fst cp)"
  "gx_event (recover_panic cp) = gx_event (fst cp)" "gx_rec (recover_panic cp) = gx_rec (fst cp)"
  by (simp_all add: recover_panic_def split: prod.splits option.splits)

lemma audit_deferred_keeps [simp]:
  "gx_sent (fst (audit_deferred sv ck c)) = gx_sent c" "gx_w (fst (audit_deferred sv ck c)) = gx_w c"
  "gx_rec (fst (audit_deferred sv ck c)) = gx_rec c"
  "gx_audited (fst (audit_deferred sv ck c)) = gx_audited c @
     (if sv_Log sv = None then [] else [(gx_event c)\<lparr>ev_Status := gx_rec c, ev_LatencyMS := ck_latency ck\<rparr>])"
  by (simp_all add: audit_deferred_def Let_def split: option.splits prod.splits)

lemma proxy_keeps [simp]:
  "gx_sent (fst (proxy_error ck rid c)) = gx_sent c" "gx_audited (fst (proxy_error ck rid c)) = gx_audited c"
  "gx_sent (proxy_modify ck st c) = gx_sent c" "gx_audited (proxy_modify ck st c) = gx_audited c"
  "gx_sent (fst (proxy_copy st h b f c)) = gx_sent c" "gx_audited (fst (proxy_copy st h b f c)) = gx_audited c"
  "gx_event (fst (proxy_copy st h b f c)) = gx_event c"
  by (simp_all add: proxy_error_def proxy_modify_def proxy_copy_def split: sum.splits)

text \<open>The reverse proxy sends exactly one request, unless the \<open>Upgrade\<close> header is not printable.\<close>

definition forwarded :: "string \<Rightarrow> App \<Rightarrow> http_request \<Rightarrow> out_request list" where
  "forwarded rid app r =
     (if ascii_print (upgradeType (hr_Header (forward_request rid r))) then [outgoing (app_Origin app) (forward_request rid r)] else [])"

lemma proxy_sent:
  "gx_sent (fst (proxy_ServeHTTP sv ck rid (app_Origin app) (forward_request rid r) c)) = gx_sent c @ forwarded rid app r"
  by (simp add: proxy_ServeHTTP_def forwarded_def Let_def split: prod.splits origin_result.splits)

lemma proxy_audited [simp]: "gx_audited (fst (proxy_ServeHTTP sv ck rid o' r c)) = gx_audited c"
  by (simp add: proxy_ServeHTTP_def Let_def split: prod.splits origin_result.splits)

lemma enforce_sent:
  "gx_sent (fst (enforce sv ck rid r app final c)) = gx_sent c @ (if enforced app final then [] else forwarded rid app r)"
  by (simp add: enforce_def enforced_guard proxy_sent Let_def)

lemma enforce_audited [simp]: "gx_audited (fst (enforce sv ck rid r app final c)) = gx_audited c"
  by (simp add: enforce_def Let_def)

lemma handle_app_sent:
  "gx_sent (fst (handle_app U g ck rid r ip host app c)) = gx_sent c @
     (case prepareRequestBody (gw_WAF g) (hr_Body r) of
        PrepareFailed \<Rightarrow> []
      | Prepared preview exceeded b \<Rightarrow>
          (case decide U (gw_services g) rid (r\<lparr>hr_Body := b\<rparr>) app ip host preview exceeded (gx_s c) of
             (_, Decided final) \<Rightarrow> if enforced app final then [] else forwarded rid app (r\<lparr>hr_Body := b\<rparr>)
           | _ \<Rightarrow> []))"
  by (simp add: handle_app_def Let_def enforce_sent split: prepared.splits prod.splits outcome.splits)

lemma handle_app_audited [simp]: "gx_audited (fst (handle_app U g ck rid r ip host app c)) = gx_audited c"
  by (simp add: handle_app_def Let_def split: prepared.splits prod.splits outcome.splits)

lemma handle_lookup_audited [simp]: "gx_audited (fst (handle_lookup U g ck rid r ip host c)) = gx_audited c"
  by (simp add: handle_lookup_def Let_def split: prod.splits option.splits)

lemma serve_audited_sent: "gx_sent (fst (serve_audited U g ck rid r c)) =
   gx_sent (fst (handle_lookup U g ck rid r (clientIP (gw_trustedProxies g) r) (NormalizeHost U (hr_Host r))
     (c\<lparr>gx_event := initial_event U ck rid r (clientIP (gw_trustedProxies g) r) (NormalizeHost U (hr_Host r))\<rparr>)))"
  by (simp add: serve_audited_def Let_def case_prod_unfold)

text \<open>C2: The origin is contacted exactly for the requests whose evaluation ends in a verdict that is not
  enforced, at most once, and with the request the handler forwards.\<close>

theorem origin_contacted_iff:
  "gx_sent (ServeHTTP U g ck rid r s) =
     (case evaluated U g rid r s of
        None \<Rightarrow> []
      | Some (app, r1, _, final) \<Rightarrow> if enforced app final then [] else forwarded rid app r1)"
  by (simp add: ServeHTTP_def serve_request_def evaluated_def serve_audited_sent handle_lookup_def handle_app_sent new_ctx_def Let_def
      split: prod.splits option.splits prepared.splits outcome.splits)


section \<open>The audit event\<close>

definition event_ident :: "Event \<Rightarrow> string \<times> string \<times> string \<times> string \<times> string \<times> string" where
  "event_ident e = (ev_RequestID e, ev_Host e, ev_ClientIP e, ev_Method e, ev_Path e, ev_QueryRedacted e)"

lemma event_ident_updates [simp]:
  "event_ident (e\<lparr>ev_Status := st\<rparr>) = event_ident e" "event_ident (e\<lparr>ev_LatencyMS := l\<rparr>) = event_ident e"
  "event_ident (e\<lparr>ev_OriginLatencyMS := l\<rparr>) = event_ident e" "event_ident (e\<lparr>ev_OriginStatus := st\<rparr>) = event_ident e"
  "event_ident (e\<lparr>ev_Action := a\<rparr>) = event_ident e" "event_ident (e\<lparr>ev_Reason := x\<rparr>) = event_ident e"
  "event_ident (e\<lparr>ev_TenantID := x\<rparr>) = event_ident e" "event_ident (e\<lparr>ev_AppID := x\<rparr>) = event_ident e"
  "event_ident (e\<lparr>ev_PolicyID := x\<rparr>) = event_ident e" "event_ident (e\<lparr>ev_PolicyVersion := x\<rparr>) = event_ident e"
  "event_ident (e\<lparr>ev_Mode := x\<rparr>) = event_ident e" "event_ident (e\<lparr>ev_BodyPreview := x\<rparr>) = event_ident e"
  "event_ident (event_decision app final e) = event_ident e"
  by (simp_all add: event_ident_def event_decision_def)

lemma proxy_ident [simp]:
  "event_ident (gx_event (fst (proxy_error ck rid c))) = event_ident (gx_event c)"
  "event_ident (gx_event (proxy_modify ck st c)) = event_ident (gx_event c)"
  "event_ident (gx_event (fst (proxy_ServeHTTP sv ck rid o' r c))) = event_ident (gx_event c)"
proof -
  show *: "event_ident (gx_event (fst (proxy_error ck rid c))) = event_ident (gx_event c)" for c :: "'a gwctx"
    by (simp add: proxy_error_def)
  show **: "event_ident (gx_event (proxy_modify ck st c)) = event_ident (gx_event c)" for c :: "'a gwctx" and st
    by (simp add: proxy_modify_def)
  show "event_ident (gx_event (fst (proxy_ServeHTTP sv ck rid o' r c))) = event_ident (gx_event c)"
    by (simp add: proxy_ServeHTTP_def * ** Let_def split: prod.splits origin_result.splits)
qed

lemma handle_app_ident [simp]: "event_ident (gx_event (fst (handle_app U g ck rid r ip host app c))) = event_ident (gx_event c)"
  by (simp add: handle_app_def enforce_def Let_def split: prepared.splits prod.splits outcome.splits)

lemma handle_lookup_ident [simp]:
  "event_ident (gx_event (fst (handle_lookup U g ck rid r ip host c))) = event_ident (gx_event c)"
  by (simp add: handle_lookup_def Let_def split: prod.splits option.splits)

lemma serve_audited_event: "gx_audited (fst (serve_audited U g ck rid r c)) = gx_audited c @
   (let c2 = fst (handle_lookup U g ck rid r (clientIP (gw_trustedProxies g) r) (NormalizeHost U (hr_Host r))
       (c\<lparr>gx_event := initial_event U ck rid r (clientIP (gw_trustedProxies g) r) (NormalizeHost U (hr_Host r))\<rparr>)) in
    if sv_Log (gw_services g) = None then [] else [(gx_event c2)\<lparr>ev_Status := gx_rec c2, ev_LatencyMS := ck_latency ck\<rparr>])"
  by (simp add: serve_audited_def Let_def case_prod_unfold)

text \<open>C3: Every request past the host check leaves exactly one event at the auditor, however it ends (blocked,
  failed, proxied, or in a panic), with its identity and its redacted query; health checks, metrics
  and invalid hosts leave none.\<close>

theorem audited_once:
  "map event_ident (gx_audited (ServeHTTP U g ck rid r s)) =
     (let host = NormalizeHost U (hr_Host r) in
      if hr_Path r \<notin> {''/healthz'', ''/metrics''} \<and> ValidHost U host \<and> sv_Log (gw_services g) \<noteq> None
      then [(rid, host, addr_String (clientIP (gw_trustedProxies g) r), hr_Method r, hr_Path r, Query U (hr_RawQuery r))]
      else [])"
proof -
  have "event_ident (initial_event U ck rid r ip host) = (rid, host, addr_String ip, hr_Method r, hr_Path r, Query U (hr_RawQuery r))"
    for ip host by (simp add: event_ident_def initial_event_def)
  then show ?thesis by (simp add: ServeHTTP_def serve_request_def serve_audited_event new_ctx_def Let_def)
qed


section \<open>What the client receives\<close>

definition blocked_status :: "Decision \<Rightarrow> int" where
  "blocked_status final = (if d_StatusCode final = 0 then 403 else d_StatusCode final)"

text \<open>The event of an application before the decision is entered.\<close>

definition event_of_app :: "App \<Rightarrow> Event \<Rightarrow> bool" where
  "event_of_app app e \<longleftrightarrow> ev_TenantID e = app_TenantID app \<and> ev_AppID e = app_ID app \<and>
     ev_PolicyID e = app_PolicyID app \<and> ev_PolicyVersion e = app_PolicyVersion app \<and> ev_Mode e = app_Mode app"

text \<open>A verdict reaches the enforcement with an untouched response.\<close>

lemma ServeHTTP_verdict:
  assumes "evaluated U g rid r s = Some (app, r1, s2, final)"
  obtains c where "gx_w c = new_response" "gx_audited c = []" "gx_sent c = []" "gx_s c = s2"
    "event_of_app app (gx_event c)" "ev_OriginStatus (gx_event c) = 0"
    "ServeHTTP U g ck rid r s =
       (let cp = enforce (gw_services g) ck rid r1 app final c; ap = audit_deferred (gw_services g) ck (fst cp) in
        recover_panic (fst ap, if snd ap \<noteq> None then snd ap else snd cp))"
proof -
  define ip where "ip = clientIP (gw_trustedProxies g) r"
  define host where "host = NormalizeHost U (hr_Host r)"
  obtain s1 l where l: "sv_Lookup (gw_services g) host s = (s1, l)" by (cases "sv_Lookup (gw_services g) host s")
  from assms l obtain preview exceeded b where
    path: "hr_Path r \<noteq> ''/healthz''" "hr_Path r \<noteq> ''/metrics''" and host: "ValidHost U host"
    and lr: "\<not> lr_FailOpen l" "lr_Found l" "lr_App l = Some app"
    and b: "prepareRequestBody (gw_WAF g) (hr_Body r) = Prepared preview exceeded b" "r1 = r\<lparr>hr_Body := b\<rparr>"
    and d: "decide U (gw_services g) rid r1 app ip host preview exceeded s1 = (s2, Decided final)"
    by (auto simp: evaluated_def Let_def ip_def host_def
        split: if_splits prod.splits option.splits prepared.splits outcome.splits)
  define e0 where "e0 = initial_event U ck rid r ip host"
  define e1 where "e1 = (if lr_Warning l \<noteq> [] then e0\<lparr>ev_Reason := lr_Warning l\<rparr> else e0)"
  define e2 where "e2 = e1\<lparr>ev_TenantID := app_TenantID app, ev_AppID := app_ID app,
            ev_PolicyID := app_PolicyID app, ev_PolicyVersion := app_PolicyVersion app, ev_Mode := app_Mode app\<rparr>"
  define e3 where "e3 = (if wc_DebugBodyPreview (gw_WAF g) \<and> 0 < length preview
      then e2\<lparr>ev_BodyPreview := redactedPreview preview (wc_BodyPreviewBytes (gw_WAF g))\<rparr> else e2)"
  define c where "c = (new_ctx s new_response)\<lparr>gx_s := s2, gx_event := e3\<rparr>"
  have h: "handle_lookup U g ck rid r ip host ((new_ctx s new_response)\<lparr>gx_event := e0\<rparr>) =
      enforce (gw_services g) ck rid r1 app final c"
    using l lr b d by (simp add: handle_lookup_def handle_app_def Let_def new_ctx_def c_def e3_def e2_def e1_def)
  have "ServeHTTP U g ck rid r s = recover_panic (serve_audited U g ck rid r (new_ctx s new_response))"
    using path host by (simp add: ServeHTTP_def serve_request_def host_def Let_def)
  also have "\<dots> = (let cp = enforce (gw_services g) ck rid r1 app final c; ap = audit_deferred (gw_services g) ck (fst cp) in
        recover_panic (fst ap, if snd ap \<noteq> None then snd ap else snd cp))"
    using h by (simp add: serve_audited_def Let_def case_prod_unfold ip_def host_def e0_def)
  finally have serve: "ServeHTTP U g ck rid r s = \<dots>" .
  have "ev_OriginStatus e3 = 0"
    by (simp add: e3_def e2_def e1_def e0_def initial_event_def zero_Event_def)
  then show thesis
    using that [of c] serve
    by (auto simp: c_def new_ctx_def event_of_app_def e3_def e2_def)
qed

lemma copyHeader_keeps [simp]:
  "rsp_wroteHeader (copyHeader h w) = rsp_wroteHeader w" "rsp_status (copyHeader h w) = rsp_status w" "rsp_body (copyHeader h w) = rsp_body w"
  by (simp_all add: copyHeader_def)

lemma new_response_simps [simp]: "\<not> rsp_wroteHeader new_response" "rsp_body new_response = []" "rsp_status new_response = 0"
  by (simp_all add: new_response_def)

text \<open>The enforcement of a verdict that is not enforced, when the origin answers.\<close>

lemma enforce_proxied:
  assumes "\<not> enforced app final" "ascii_print (upgradeType (hr_Header (forward_request rid r)))" "gx_w c = new_response"
    and "sv_RoundTrip sv (outgoing (app_Origin app) (forward_request rid r)) (gx_s c) = (s', OriginAnswer st hdr bdy complete)"
    and "200 \<le> st" "st \<le> 999"
  obtains c' where "enforce sv ck rid r app final c = (c', if complete then None else Some AbortHandler)"
    "gx_w c' = (let w = (copyHeader (removeHopByHopHeaders hdr) new_response)\<lparr>rsp_wroteHeader := True, rsp_status := st\<rparr> in
       if bdy = [] then w else rw_Write bdy w)"
    "gx_rec c' = st" "gx_event c' = (event_decision app final (gx_event c))\<lparr>ev_OriginStatus := st, ev_OriginLatencyMS := ck_originLatency ck\<rparr>"
proof -
  have "st \<noteq> 101" using assms(5) by simp
  then show thesis
    using assms that
    by (simp add: enforce_def enforced_guard proxy_ServeHTTP_def proxy_copy_def proxy_modify_def rw_WriteHeader_def Let_def)
qed

section \<open>An audit log that does not fail\<close>

lemma client_body_empty [simp]: "client_body r [] = []"
  by (simp add: client_body_def)

text \<open>What the answers rest on: as long as the state is ready, logging does not panic, and every service keeps it
  ready.  For the gateway of the program the state is ready while the audit queue is open.\<close>

locale audited_services =
  fixes sv :: "'s services" and ready :: "'s \<Rightarrow> bool"
  assumes log_ready: "ready s \<Longrightarrow> \<exists>log. sv_Log sv = Some log \<and> snd (log e s) = None"
    and lookup_ready: "ready s \<Longrightarrow> sv_Lookup sv h s = (s', l) \<Longrightarrow> ready s'"
    and check_ready: "ready s \<Longrightarrow> sv_Check sv app req rule s = (s', res) \<Longrightarrow> ready s'"
    and inspect_ready: "ready s \<Longrightarrow> sv_Inspect sv r preview px s = (s', found) \<Longrightarrow> ready s'"
    and origin_ready: "ready s \<Longrightarrow> sv_RoundTrip sv out s = (s', answer) \<Longrightarrow> ready s'"
begin

lemma rates_ready:
  "ready s \<Longrightarrow> evaluateRateLimits sv app req rules s = (s', res) \<Longrightarrow> ready s'"
proof (induction rules arbitrary: s)
  case (Cons rule rules)
  obtain s1 r1 where c: "sv_Check sv app req rule s = (s1, r1)" by (cases "sv_Check sv app req rule s")
  then show ?case using Cons.IH Cons.prems check_ready [OF Cons.prems(1) c] by (auto split: sum.splits if_splits)
qed auto

lemma decide_ready:
  assumes "ready s" "decide U sv rid r app ip host preview exceeded s = (s', out)"
  shows "ready s'"
proof -
  obtain s1 rp where rp: "rate_phase sv app (rl_request r (addr_String ip) host) (EvaluateIP app ip) s = (s1, rp)"
    by (cases "rate_phase sv app (rl_request r (addr_String ip) host) (EvaluateIP app ip) s")
  then have s1: "ready s1"
    using assms(1) rates_ready [OF assms(1)] by (auto simp: rate_phase_def split: if_splits prod.splits sum.splits)
  have waf: "ready s2" if "waf_phase sv r preview px f obs s1 = (s2, found)" for preview px f obs s2 found
    using that s1 inspect_ready [OF s1]
    by (auto simp: waf_phase_def Let_def split: if_splits prod.splits sum.splits option.splits)
  show ?thesis
    using assms(2) s1 waf by (auto simp: decide_def rp split: prod.splits sum.splits)
qed

lemma evaluated_ready:
  assumes "evaluated U g rid r s = Some (app, r1, s2, final)" "gw_services g = sv" "ready s"
  shows "ready s2"
proof -
  obtain s1 l where l: "sv_Lookup sv (NormalizeHost U (hr_Host r)) s = (s1, l)"
    by (cases "sv_Lookup sv (NormalizeHost U (hr_Host r)) s")
  then show ?thesis
    using assms(1,2) decide_ready [OF lookup_ready [OF assms(3) l]]
    by (auto simp: evaluated_def Let_def split: if_splits prod.splits option.splits prepared.splits outcome.splits)
qed

lemma proxy_ready:
  assumes "ready (gx_s c)"
  shows "ready (gx_s (fst (proxy_ServeHTTP sv ck rid o' r c)))"
proof -
  have e: "gx_s (fst (proxy_error ck rid c)) = gx_s c" for c :: "'s gwctx" by (simp add: proxy_error_def)
  have cp: "gx_s (fst (proxy_copy st h b f c)) = gx_s c" for c :: "'s gwctx" and st h b f
    by (simp add: proxy_copy_def split: sum.splits)
  have md: "gx_s (proxy_modify ck st c) = gx_s c" for c :: "'s gwctx" and st by (simp add: proxy_modify_def)
  show ?thesis
    using assms by (auto simp: proxy_ServeHTTP_def Let_def e cp md intro: origin_ready split: prod.splits origin_result.splits)
qed

lemma enforce_ready: "ready (gx_s c) \<Longrightarrow> ready (gx_s (fst (enforce sv ck rid r app final c)))"
  using proxy_ready [of "c\<lparr>gx_event := event_decision app final (gx_event c), gx_metrics := gx_metrics c @ rate_metrics final\<rparr>"]
  by (simp add: enforce_def Let_def)

lemma audit_deferred_ready:
  assumes "ready (gx_s c)"
  shows "snd (audit_deferred sv ck c) = None" "sv_Log sv \<noteq> None"
proof -
  let ?e = "(gx_event c)\<lparr>ev_Status := gx_rec c, ev_LatencyMS := ck_latency ck\<rparr>"
  obtain log where "sv_Log sv = Some log" "snd (log ?e (gx_s c)) = None" using log_ready [OF assms] by blast
  then show "snd (audit_deferred sv ck c) = None" "sv_Log sv \<noteq> None"
    by (simp_all add: audit_deferred_def Let_def case_prod_unfold)
qed

text \<open>What the handler leaves behind, from the pair that the enforcement returns.\<close>

lemma ServeHTTP_ready:
  assumes "evaluated U g rid r s = Some (app, r1, s2, final)" "gw_services g = sv" "ready s"
  obtains c where "gx_w c = new_response" "gx_s c = s2" "event_of_app app (gx_event c)" "ev_OriginStatus (gx_event c) = 0"
    "gx_w (ServeHTTP U g ck rid r s) = gx_w (recover_panic (enforce sv ck rid r1 app final c))"
    "gx_audited (ServeHTTP U g ck rid r s) =
       (let c' = fst (enforce sv ck rid r1 app final c) in
        [(gx_event c')\<lparr>ev_Status := gx_rec c', ev_LatencyMS := ck_latency ck\<rparr>])"
proof (rule ServeHTTP_verdict [OF assms(1), of ck])
  fix c
  assume c: "gx_w c = new_response" "gx_audited c = []" "gx_s c = s2" "event_of_app app (gx_event c)" "ev_OriginStatus (gx_event c) = 0"
    and serve: "ServeHTTP U g ck rid r s =
       (let cp = enforce (gw_services g) ck rid r1 app final c; ap = audit_deferred (gw_services g) ck (fst cp) in
        recover_panic (fst ap, if snd ap \<noteq> None then snd ap else snd cp))"
  have "gx_w (recover_panic (fst (audit_deferred sv ck x), p)) = gx_w (recover_panic (x, p))" for x :: "'s gwctx" and p
    by (cases p) (simp_all add: recover_panic_def)
  moreover have "ready (gx_s (fst (enforce sv ck rid r1 app final c)))"
    using enforce_ready evaluated_ready [OF assms] c(3) by simp
  ultimately show thesis
    using that [of c] c(1,3,4,5) serve audit_deferred_ready(1) [of "fst (enforce sv ck rid r1 app final c)" ck]
      audit_deferred_ready(2) [of "fst (enforce sv ck rid r1 app final c)"]
    by (simp add: Let_def c(2) assms(2))
qed

text \<open>An enforced decision.\<close>

lemma blocked_answer:
  assumes v: "evaluated U g rid r s = Some (app, r1, s2, final)" "gw_services g = sv" "ready s" and "enforced app final"
    and st: "200 \<le> blocked_status final" "blocked_status final \<le> 999" "bodyAllowedForStatus (blocked_status final)"
  shows "rsp_status (served_response r (ServeHTTP U g ck rid r s)) = blocked_status final \<and>
    rsp_body (served_response r (ServeHTTP U g ck rid r s)) = client_body r (error_body ''request blocked'' rid) \<and>
    (\<exists>e. gx_audited (ServeHTTP U g ck rid r s) = [e] \<and> ev_Enforced e \<and> ev_WouldBlock e \<and> event_of_app app e \<and>
       ev_Status e = blocked_status final \<and> ev_Action e = d_Action final \<and> ev_Reason e = d_Reason final \<and>
       ev_MatchedRuleID e = d_MatchedRuleID final \<and> ev_OriginStatus e = 0)"
proof (rule ServeHTTP_ready [OF v, of ck])
  fix c
  assume c: "gx_w c = new_response" "event_of_app app (gx_event c)" "ev_OriginStatus (gx_event c) = 0"
    and w: "gx_w (ServeHTTP U g ck rid r s) = gx_w (recover_panic (enforce sv ck rid r1 app final c))"
    and a: "gx_audited (ServeHTTP U g ck rid r s) =
       (let c' = fst (enforce sv ck rid r1 app final c) in
        [(gx_event c')\<lparr>ev_Status := gx_rec c', ev_LatencyMS := ck_latency ck\<rparr>])"
  have e: "enforce sv ck rid r1 app final c = recorder_error (blocked_status final) rid ''request blocked''
      (c\<lparr>gx_event := event_decision app final (gx_event c), gx_metrics := gx_metrics c @ rate_metrics final\<rparr>)"
    using assms(4) by (simp add: enforce_def enforced_guard blocked_status_def Let_def)
  have "gx_w (recover_panic (enforce sv ck rid r1 app final c)) =
      rw_Write (error_body ''request blocked'' rid) ((rw_SetHeader ''Content-Type'' ''application/json'' new_response)
        \<lparr>rsp_wroteHeader := True, rsp_status := blocked_status final\<rparr>)"
    using st by (simp add: e recorder_error_def writeJSONError_def rw_WriteHeader_def recover_panic_def c(1) rw_SetHeader_def new_response_def)
  then show ?thesis
    using a assms(4) st(3) c(2,3) unfolding served_response_def w
    by (simp add: e rw_Write_def rw_ensure_header_def rw_SetHeader_def new_response_def event_decision_def
        enforced_def event_of_app_def)
qed

text \<open>A verdict that is not enforced, when the origin answers: completely, and with a body that breaks off.\<close>

lemma proxied_answer:
  assumes v: "evaluated U g rid r s = Some (app, r1, s2, final)" "gw_services g = sv" "ready s" and n: "\<not> enforced app final"
    and up: "ascii_print (upgradeType (hr_Header (forward_request rid r1)))"
    and rt: "sv_RoundTrip sv (outgoing (app_Origin app) (forward_request rid r1)) s2 = (s', OriginAnswer st hdr bdy True)"
    and st: "200 \<le> st" "st \<le> 999" "bodyAllowedForStatus st"
  shows "served_response r (ServeHTTP U g ck rid r s) =
      (copyHeader (removeHopByHopHeaders hdr) new_response)\<lparr>rsp_wroteHeader := True, rsp_status := st, rsp_body := client_body r bdy\<rparr> \<and>
    (\<exists>e. gx_audited (ServeHTTP U g ck rid r s) = [e] \<and> \<not> ev_Enforced e \<and> event_of_app app e \<and>
       ev_Status e = st \<and> ev_OriginStatus e = st \<and> ev_WouldBlock e = WouldBlock final)"
proof (rule ServeHTTP_ready [OF v, of ck])
  fix c
  assume c: "gx_w c = new_response" "gx_s c = s2" "event_of_app app (gx_event c)"
    and w: "gx_w (ServeHTTP U g ck rid r s) = gx_w (recover_panic (enforce sv ck rid r1 app final c))"
    and a: "gx_audited (ServeHTTP U g ck rid r s) =
       (let c' = fst (enforce sv ck rid r1 app final c) in
        [(gx_event c')\<lparr>ev_Status := gx_rec c', ev_LatencyMS := ck_latency ck\<rparr>])"
  show ?thesis
  proof (rule enforce_proxied [OF n up c(1) rt [folded c(2)] st(1,2), of ck])
    fix c'
    assume c': "enforce sv ck rid r1 app final c = (c', if True then None else Some AbortHandler)"
      "gx_w c' = (let w = (copyHeader (removeHopByHopHeaders hdr) new_response)\<lparr>rsp_wroteHeader := True, rsp_status := st\<rparr> in
         if bdy = [] then w else rw_Write bdy w)" "gx_rec c' = st"
      "gx_event c' = (event_decision app final (gx_event c))\<lparr>ev_OriginStatus := st, ev_OriginLatencyMS := ck_originLatency ck\<rparr>"
    show ?thesis
      using c(3) n st(3) unfolding served_response_def w a c'(1)
      by (auto simp: recover_panic_def c' Let_def rw_Write_def rw_ensure_header_def event_decision_def event_of_app_def enforced_def)
  qed
qed

lemma truncated_answer:
  assumes v: "evaluated U g rid r s = Some (app, r1, s2, final)" "gw_services g = sv" "ready s" and n: "\<not> enforced app final"
    and up: "ascii_print (upgradeType (hr_Header (forward_request rid r1)))"
    and rt: "sv_RoundTrip sv (outgoing (app_Origin app) (forward_request rid r1)) s2 = (s', OriginAnswer st hdr bdy False)"
    and st: "200 \<le> st" "st \<le> 999" "bodyAllowedForStatus st"
  shows "rsp_status (served_response r (ServeHTTP U g ck rid r s)) = st \<and>
    rsp_body (served_response r (ServeHTTP U g ck rid r s)) = client_body r (bdy @ error_body ''internal server error'' [])"
proof (rule ServeHTTP_ready [OF v, of ck])
  fix c
  assume c: "gx_w c = new_response" "gx_s c = s2"
    and w: "gx_w (ServeHTTP U g ck rid r s) = gx_w (recover_panic (enforce sv ck rid r1 app final c))"
  show ?thesis
  proof (rule enforce_proxied [OF n up c(1) rt [folded c(2)] st(1,2), of ck])
    fix c'
    assume c': "enforce sv ck rid r1 app final c = (c', if False then None else Some AbortHandler)"
      "gx_w c' = (let w = (copyHeader (removeHopByHopHeaders hdr) new_response)\<lparr>rsp_wroteHeader := True, rsp_status := st\<rparr> in
         if bdy = [] then w else rw_Write bdy w)"
    show ?thesis
      using st(3) unfolding served_response_def w c'(1)
      by (simp add: recover_panic_def writeJSONError_def c' Let_def rw_Write_def rw_ensure_header_def rw_WriteHeader_def rw_SetHeader_def)
  qed
qed

text \<open>An enforced decision with a status that cannot be written.\<close>

lemma panicking_answer:
  assumes v: "evaluated U g rid r s = Some (app, r1, s2, final)" "gw_services g = sv" "ready s" and n: "enforced app final"
    and st: "d_StatusCode final \<noteq> 0" "d_StatusCode final < 100"
  shows "rsp_status (served_response r (ServeHTTP U g ck rid r s)) = 500 \<and>
    rsp_body (served_response r (ServeHTTP U g ck rid r s)) = client_body r (error_body ''internal server error'' []) \<and>
    map ev_Status (gx_audited (ServeHTTP U g ck rid r s)) = [d_StatusCode final]"
proof (rule ServeHTTP_ready [OF v, of ck])
  fix c
  assume c: "gx_w c = new_response"
    and w: "gx_w (ServeHTTP U g ck rid r s) = gx_w (recover_panic (enforce sv ck rid r1 app final c))"
    and a: "gx_audited (ServeHTTP U g ck rid r s) =
       (let c' = fst (enforce sv ck rid r1 app final c) in
        [(gx_event c')\<lparr>ev_Status := gx_rec c', ev_LatencyMS := ck_latency ck\<rparr>])"
  have e: "enforce sv ck rid r1 app final c = recorder_error (d_StatusCode final) rid ''request blocked''
      (c\<lparr>gx_event := event_decision app final (gx_event c), gx_metrics := gx_metrics c @ rate_metrics final\<rparr>)"
    using n st(1) by (simp add: enforce_def enforced_guard Let_def)
  show ?thesis
    using st unfolding served_response_def w a e
    by (simp add: recorder_error_def writeJSONError_def rw_WriteHeader_def recover_panic_def c rw_SetHeader_def
        rw_Write_def rw_ensure_header_def bodyAllowedForStatus_def new_response_def)
qed

text \<open>A lookup that fails open.\<close>

lemma fail_open_answer:
  assumes "hr_Path r \<notin> {''/healthz'', ''/metrics''}" "ValidHost U (NormalizeHost U (hr_Host r))"
    and g: "gw_services g = sv" "ready s"
    and l: "sv_Lookup sv (NormalizeHost U (hr_Host r)) s = (s', l)" "lr_FailOpen l"
  shows "gx_sent (ServeHTTP U g ck rid r s) = [] \<and>
    rsp_status (served_response r (ServeHTTP U g ck rid r s)) = 200 \<and> rsp_body (served_response r (ServeHTTP U g ck rid r s)) = [] \<and>
    map (\<lambda>e. (ev_Action e, ev_Status e, ev_Reason e)) (gx_audited (ServeHTTP U g ck rid r s)) = [(ActionAllow, 200, lr_Reason l)]"
proof -
  have h: "handle_lookup U g ck rid r ip (NormalizeHost U (hr_Host r)) c = (c', None)" if
    "c' = c\<lparr>gx_s := s', gx_event := (if lr_Warning l \<noteq> [] then (gx_event c)\<lparr>ev_Reason := lr_Warning l\<rparr> else gx_event c)
      \<lparr>ev_Action := ActionAllow, ev_Reason := lr_Reason l\<rparr>\<rparr>" "gx_s c = s" for c c' ip
    using l that g by (simp add: handle_lookup_def Let_def)
  have "ServeHTTP U g ck rid r s = recover_panic (serve_audited U g ck rid r (new_ctx s new_response))"
    using assms(1,2) by (simp add: ServeHTTP_def serve_request_def Let_def)
  moreover have "snd (audit_deferred sv ck c) = None" if "gx_s c = s'" for c
    using audit_deferred_ready(1) [of c ck] that lookup_ready [OF g(2) l(1)] by simp
  moreover have "sv_Log sv \<noteq> None"
    using audit_deferred_ready(2) [of "new_ctx s' new_response"] lookup_ready [OF g(2) l(1)] by (simp add: new_ctx_def)
  ultimately show ?thesis
    by (simp add: served_response_def serve_audited_def Let_def h [OF refl] new_ctx_def case_prod_unfold g
      recover_panic_def rw_ensure_header_def)
qed

end

section \<open>A sample request\<close>

text \<open>Services with one application, no rate limiter, the allowing engine, a logger that appends to a list, and a
  fixed answer of the origin.\<close>

definition sample_services :: "LookupResult \<Rightarrow> origin_result \<Rightarrow> Event list services" where
  "sample_services l answer = \<lparr>sv_Lookup = (\<lambda>_ s. (s, l)), sv_Check = (\<lambda>_ _ _ s. NoopLimiter_Check s),
     sv_Inspect = (\<lambda>req bp px s. (s, AllowEngine_Inspect req bp px)), sv_Log = Some (\<lambda>e s. (s @ [e], None)),
     sv_RoundTrip = (\<lambda>_ s. (s, answer)), sv_MetricsPage = id\<rparr>"

definition sample_waf_config :: WAFConfig where
  "sample_waf_config = \<lparr>wc_Enabled = False, wc_Engine = ''coraza'', wc_RuleEngine = ''On'', wc_RequestBodyLimitBytes = 1024,
     wc_DirectivesFile = [], wc_DebugBodyPreview = False, wc_BodyPreviewBytes = 0\<rparr>"

text \<open>The services behind a request that passes the rate limits and the engine unseen.\<close>

definition passing :: "'s services \<Rightarrow> bool" where
  "passing sv \<longleftrightarrow> (\<forall>app req rule t. sv_Check sv app req rule t = (t, Inr Allow)) \<and>
     (\<forall>r preview px t. sv_Inspect sv r preview px t = (t, Inr (Some Allow)))"

lemma sample_passing: "passing (sample_services l answer)"
  by (simp add: passing_def sample_services_def NoopLimiter_Check_def AllowEngine_Inspect_def)

lemma passing_inspect: "passing sv \<Longrightarrow> sv_Inspect sv r preview px t = (t, Inr (Some Allow))"
  by (simp add: passing_def)

lemma sample_host [simp]: "ValidHost ascii_tables ''example.com''"
  by code_simp

lemma sample_client [simp]: "clientIP [] (sample_http path) = IPv4 3405803785"
  by (simp add: clientIP_def parseRemoteAddr_def sample_http_def go_eval)


abbreviation sample_ctx :: "string \<Rightarrow> RequestContext" where
  "sample_ctx path \<equiv> request_ctx (sample_http path) (IPv4 3405803785) ''example.com''"

lemma sample_ip: "EvaluateIP sample_compiled (IPv4 3405803785) = Allow"
  by code_simp

definition sample_block :: Decision where
  "sample_block = block_decision (app_CustomRules sample_compiled ! 1)"

lemma sample_block_simps [simp]: "WouldBlock sample_block" "blocked_status sample_block = 403"
  by (simp_all add: sample_block_def) (simp add: blocked_status_def block_decision_def sample_compiled_def)

lemma sample_custom:
  "EvaluateCustomRules ascii_tables sample_compiled (sample_ctx ''/admin'') = sample_block"
  "EvaluateCustomRules ascii_tables sample_compiled (sample_ctx ''/'') = Allow"
  by code_simp+

lemma passing_rates: "passing sv \<Longrightarrow> evaluateRateLimits sv app req rules s = (s, Inr Allow)"
  by (induction rules) (simp_all add: passing_def)

lemma sample_decide:
  assumes custom: "custom = EvaluateCustomRules ascii_tables app (sample_ctx path)" and sv: "passing sv"
    and "WouldBlock custom \<or> custom = Allow" "EvaluateIP app (IPv4 3405803785) = Allow" "app_DefaultAction app = ActionAllow"
  shows "decide ascii_tables sv rid (sample_http path) app (IPv4 3405803785) ''example.com'' preview False s = (s, Decided custom)"
proof -
  have "d_Action custom \<noteq> ActionAllow \<or> custom = Allow" using assms(3) by (auto simp: WouldBlock_def)
  then show ?thesis
    using assms(3,4,5)
    by (auto simp: decide_def rate_phase_def passing_rates [OF sv] body_phase_def custom_phase_pass [OF custom]
        later_phases_keep waf_phase_def default_phase_def Let_def passing_inspect [OF sv])
qed

lemma sample_verdict:
  assumes "custom = EvaluateCustomRules ascii_tables app (sample_ctx path)" "passing (gw_services g)"
    and "WouldBlock custom \<or> custom = Allow" "EvaluateIP app (IPv4 3405803785) = Allow" "app_DefaultAction app = ActionAllow"
    and "path \<notin> {''/healthz'', ''/metrics''}" "gw_trustedProxies g = []"
    and "sv_Lookup (gw_services g) ''example.com'' s = (s, found_result app)"
  shows "evaluated ascii_tables g rid (sample_http path) s = Some (app, sample_http path, s, custom)"
proof -
  have r: "hr_Host (sample_http path) = ''example.com''" "hr_Path (sample_http path) = path" "hr_Body (sample_http path) = None"
    "(sample_http path)\<lparr>hr_Body := None\<rparr> = sample_http path" by (simp_all add: sample_http_def)
  show ?thesis
    using assms(6-8) by (simp add: evaluated_def prepareRequestBody_def r sample_decide [OF assms(1-5)])
qed

lemma sample_compiled_simps [simp]:
  "app_DefaultAction sample_compiled = ActionAllow" "app_Mode sample_compiled = ModeBlock"
  by (simp_all add: sample_compiled_def action_defs mode_defs)

theorem decide_precedence_witness:
  "snd (decide ascii_tables (sample_services (found_result sample_compiled) OriginFailed) ''id'' (sample_http ''/admin'')
     sample_compiled (IPv4 3405803785) ''example.com'' [] False []) = Decided sample_block"
proof -
  note p = decide_precedence [where sv = "sample_services (found_result sample_compiled) OriginFailed" and app = sample_compiled
      and r = "sample_http ''/admin''" and host = "''example.com''" and ip = "IPv4 3405803785" and preview = "[]"
      and rid = "''id''" and result = "Some Allow" and U = ascii_tables and s = "[]",
      OF passing_rates [OF sample_passing] passing_inspect [OF sample_passing] refl refl]
  show ?thesis using p [of False] by (simp add: sample_custom sample_ip precedence_def body_stage_def)
qed

section \<open>The body of the request\<close>

lemma multi_read_closer_rest:
  assumes "read_limited b n = Some (data, rest)" "0 < n" "nat n \<le> length (bd_data b)"
  shows "multi_read_closer data rest = b"
  using assms by (cases b) (auto simp: read_limited_def multi_read_closer_def Let_def split: option.splits if_splits)

text \<open>C33: A body that can be read is forwarded unchanged, whatever its length, and the WAF sees its first bytes up to
  the limit.  A body within the limit is read to its end and replaced by the bytes read.  A longer one is reported as
  exceeding the limit and reassembled: reading the new body gives every byte of the original, the ones already consumed
  and the ones still to come, fails where the original would have failed, and closes the original.\<close>

theorem prepareRequestBody_intact:
  assumes "0 < wc_RequestBodyLimitBytes cfg" "wc_RequestBodyLimitBytes cfg < 9223372036854775807"
    and "\<And>k. bd_fail b = Some k \<Longrightarrow> wc_RequestBodyLimitBytes cfg < int k \<and> k \<le> length (bd_data b)"
    and "wc_RequestBodyLimitBytes cfg < int (length (bd_data b)) \<or> \<not> bd_closeErr b"
  shows "prepareRequestBody cfg (Some b) =
    Prepared (take (nat (wc_RequestBodyLimitBytes cfg)) (bd_data b)) (wc_RequestBodyLimitBytes cfg < int (length (bd_data b)))
      (Some b)"
proof -
  define limit where "limit = wc_RequestBodyLimitBytes cfg"
  have n: "wrap64 (limit + 1) = limit + 1" "0 < limit" using assms by (simp_all add: limit_def int64_ok_def)
  let ?data = "take (nat (limit + 1)) (bd_data b)"
  have "\<exists>rest. read_limited b (limit + 1) = Some (?data, rest) \<and> bd_closeErr rest = bd_closeErr b"
    using assms(3) by (auto simp: read_limited_def Let_def limit_def split: option.splits)
  then obtain rest where r: "read_limited b (limit + 1) = Some (?data, rest)" "bd_closeErr rest = bd_closeErr b" by blast
  have p: "prepareRequestBody cfg (Some b) =
     (if limit < int (length ?data) then Prepared (take (nat limit) ?data) True (Some (multi_read_closer ?data rest))
      else if bd_closeErr b then PrepareFailed
      else Prepared ?data False (Some \<lparr>bd_data = ?data, bd_fail = None, bd_closeErr = False\<rparr>))"
    using n r by (simp add: prepareRequestBody_def limit_def Let_def)
  show ?thesis
  proof (cases "limit < int (length (bd_data b))")
    case True
    then have "multi_read_closer ?data rest = b" using multi_read_closer_rest [OF r(1)] n by simp
    moreover have "take (nat limit) ?data = take (nat limit) (bd_data b)" "limit < int (length ?data)"
      using True n by (simp_all add: min_def)
    ultimately show ?thesis using True p by (simp add: limit_def [symmetric])
  next
    case False
    then have "?data = bd_data b" "take (nat limit) (bd_data b) = bd_data b" by simp_all
    moreover have "bd_fail b = None" using False assms(3) by (cases "bd_fail b") (auto simp: limit_def [symmetric])
    ultimately show ?thesis using False p assms(4) by (cases b) (simp add: limit_def [symmetric])
  qed
qed

theorem prepareRequestBody_intact_witness:
  "prepareRequestBody (sample_waf_config\<lparr>wc_RequestBodyLimitBytes := 2\<rparr>) (Some \<lparr>bd_data = ''abcdef'', bd_fail = Some 5, bd_closeErr = True\<rparr>) =
     Prepared ''ab'' True (Some \<lparr>bd_data = ''abcdef'', bd_fail = Some 5, bd_closeErr = True\<rparr>) \<and>
   prepareRequestBody sample_waf_config (Some \<lparr>bd_data = ''abc'', bd_fail = None, bd_closeErr = False\<rparr>) =
     Prepared ''abc'' False (Some \<lparr>bd_data = ''abc'', bd_fail = None, bd_closeErr = False\<rparr>)"
proof
  show "prepareRequestBody (sample_waf_config\<lparr>wc_RequestBodyLimitBytes := 2\<rparr>) (Some \<lparr>bd_data = ''abcdef'', bd_fail = Some 5, bd_closeErr = True\<rparr>) =
     Prepared ''ab'' True (Some \<lparr>bd_data = ''abcdef'', bd_fail = Some 5, bd_closeErr = True\<rparr>)"
    using prepareRequestBody_intact [of "sample_waf_config\<lparr>wc_RequestBodyLimitBytes := 2\<rparr>"
        "\<lparr>bd_data = ''abcdef'', bd_fail = Some 5, bd_closeErr = True\<rparr>"] by simp
  show "prepareRequestBody sample_waf_config (Some \<lparr>bd_data = ''abc'', bd_fail = None, bd_closeErr = False\<rparr>) =
     Prepared ''abc'' False (Some \<lparr>bd_data = ''abc'', bd_fail = None, bd_closeErr = False\<rparr>)"
    using prepareRequestBody_intact [of sample_waf_config "\<lparr>bd_data = ''abc'', bd_fail = None, bd_closeErr = False\<rparr>"]
    by (simp add: sample_waf_config_def)
qed

text \<open>With the largest limit the 64-bit addition \<open>limit + 1\<close> wraps around, nothing is read, and every body is replaced by
  an empty one.\<close>

theorem body_limit_overflow:
  "prepareRequestBody (cfg\<lparr>wc_RequestBodyLimitBytes := 9223372036854775807\<rparr>) (Some \<lparr>bd_data = data, bd_fail = None, bd_closeErr = False\<rparr>) =
     Prepared [] False (Some \<lparr>bd_data = [], bd_fail = None, bd_closeErr = False\<rparr>)"
proof -
  have "wrap64 (9223372036854775807 + 1) = - 9223372036854775808" by code_simp
  then show ?thesis by (simp add: prepareRequestBody_def read_limited_def)
qed

section \<open>The address of the client\<close>

text \<open>The text before the first comma; the whole text when there is none.\<close>

lemma split_on_first: "hd (split_on c xs) = takeWhile (\<lambda>x. x \<noteq> c) xs"
  by (induction xs) (auto split: list.splits)

text \<open>C34: The address of the client is the peer's own address, whatever the headers say, unless the peer is a trusted
  proxy.  For a trusted proxy it is the leftmost entry of \<open>X-Forwarded-For\<close>: the text before the first
  comma, or the whole header when there is none, which whoever wrote the header first chooses.  Without the header, and
  when that entry is no address, it is the address of the proxy.\<close>

theorem clientIP_trust:
  "clientIP trusted r =
     (let peer = parseRemoteAddr (hr_RemoteAddr r);
          entry = takeWhile (\<lambda>c. c \<noteq> CHR '','') (header_Get (hr_Header r) ''X-Forwarded-For'') in
      if \<not> (\<exists>p \<in> set trusted. prefix_Contains p peer) then peer
      else case netip_ParseAddr (strings_TrimSpace entry) of Some ip \<Rightarrow> ip | None \<Rightarrow> peer)"
proof -
  have "trusted \<noteq> []" if "containsAddr trusted a" for a using that by (auto simp: containsAddr_def)
  moreover have "netip_ParseAddr (strings_TrimSpace []) = None" by code_simp
  ultimately show ?thesis
    by (auto simp: clientIP_def Let_def split_on_first containsAddr_def list_ex_iff split: option.splits)
qed

end
