(* ===== verification/Gateway_Main.thy ===== *)
theory Gateway_Main
  imports Gateway_Facts
begin

text \<open>
  The gateway program (\<open>services/gateway/cmd/gateway/main.go\<close>): how the components are built from the
  configuration and put together.  The world of the running program holds the remote provider's cache,
  the audit dispatcher and the state \<open>'x\<close> of everything outside (the control plane, Redis, the Coraza
  library, the origins); \<open>start\<close> is \<open>main\<close> up to the server it serves.  A locale states what the handler
  needs of its services, and is interpreted for the services that \<open>start\<close> installs; the theorems on what the
  client and the audit log get are about the gateway that \<open>start\<close> returns, in every world it serves in.
\<close>

section \<open>Building the components\<close>

definition durationMillis :: "int \<Rightarrow> int" where
  "durationMillis v = (if v \<le> 0 then 0 else wrap64 (v * 1000000))"

definition defaultConfigPath :: "(string \<Rightarrow> string) \<Rightarrow> string" where
  "defaultConfigPath getenv =
     (if getenv ''BEDEMWAF_GATEWAY_CONFIG'' \<noteq> [] then getenv ''BEDEMWAF_GATEWAY_CONFIG'' else ''config.example.yaml'')"

datatype built_provider = RemoteProvider Client Provider | LocalProvider Store

datatype start_error =
    LoadConfigFailed config_error
  | ControlClientInvalid
  | StoreRejected policy_error
  | WAFFailed string
  | ClickHouseURLInvalid
  | DispatcherRejected string
  | GatewayRejected gateway_error

definition buildPolicyProvider :: "unicode \<Rightarrow> Config \<Rightarrow> start_error + built_provider" where
  "buildPolicyProvider U cfg =
     (if cac_Enabled (cfg_ControlAPI cfg) then
        (case NewClient (cfg_ControlAPI cfg) of
           None \<Rightarrow> Inl ControlClientInvalid
         | Some client \<Rightarrow> Inr (RemoteProvider client (NewProvider (cfg_ControlAPI cfg))))
      else (case NewStore U (cfg_Apps cfg) of Inl e \<Rightarrow> Inl (StoreRejected e) | Inr store \<Rightarrow> Inr (LocalProvider store)))"

datatype 'w waf_engine = AllowEngine | CorazaEngine "'w coraza_engine"

definition buildWAF :: "(string \<Rightarrow> string option \<Rightarrow> string + 'w) \<Rightarrow> Config \<Rightarrow> start_error + 'w waf_engine" where
  "buildWAF newWAF cfg =
     (if \<not> wc_Enabled (cfg_WAF cfg) then Inr AllowEngine
      else if wc_Engine (cfg_WAF cfg) = ''coraza'' then
        (case coraza_New newWAF (cfg_WAF cfg) of Inl e \<Rightarrow> Inl (WAFFailed e) | Inr e \<Rightarrow> Inr (CorazaEngine e))
      else Inl (WAFFailed (''unsupported waf engine '' @ wc_Engine (cfg_WAF cfg))))"

section \<open>The running program\<close>

record 'x world =
  wd_provider :: Provider
  wd_dispatcher :: Dispatcher
  wd_ext :: 'x

text \<open>What lies outside the program: the clock, the control plane's HTTP endpoint, Redis, the Coraza library (building an
  engine and opening a transaction), ClickHouse, standard output and the origins.\<close>

record ('x, 'w) outside =
  os_now :: "'x \<Rightarrow> 'x \<times> int"
  os_control :: "URL \<Rightarrow> string \<Rightarrow> string \<Rightarrow> 'x \<Rightarrow> 'x \<times> http_answer"
  os_redis :: "string \<Rightarrow> int \<Rightarrow> string \<Rightarrow> 'x \<Rightarrow> 'x \<times> string option"
  os_newWAF :: "string \<Rightarrow> string option \<Rightarrow> string + 'w"
  os_transaction :: "'w \<Rightarrow> string \<Rightarrow> 'x transaction"
  os_stdout :: "Event \<Rightarrow> 'x \<Rightarrow> 'x \<times> bool"
  os_clickhouse :: "string \<Rightarrow> (string \<times> string) option \<Rightarrow> clickHouseEvent \<Rightarrow> 'x \<Rightarrow> 'x \<times> int option"
  os_urlString :: "URL \<Rightarrow> string"
  os_timeFormat :: "int \<Rightarrow> string"
  os_origin :: "out_request \<Rightarrow> 'x \<Rightarrow> 'x \<times> origin_result"
  os_metricsPage :: "response \<Rightarrow> response"

text \<open>A reading of the clock.  Each may differ from the one before; nothing is assumed of them.  A lookup reads the clock
  twice, a check and the logger once.\<close>

definition now_world :: "('x, 'w) outside \<Rightarrow> 'x world \<Rightarrow> 'x world \<times> int" where
  "now_world out s = (case os_now out (wd_ext s) of (x', t) \<Rightarrow> (s\<lparr>wd_ext := x'\<rparr>, t))"

definition lookup_world ::
  "unicode \<Rightarrow> ('x, 'w) outside \<Rightarrow> built_provider \<Rightarrow> string \<Rightarrow> 'x world \<Rightarrow> 'x world \<times> LookupResult" where
  "lookup_world U out bp host s =
     (case bp of
        LocalProvider store \<Rightarrow> (s, Store_Lookup U store host)
      | RemoteProvider client _ \<Rightarrow>
          (case now_world out s of (s1, now1) \<Rightarrow>
           case now_world out s1 of (s2, now2) \<Rightarrow>
           case Provider_Lookup U (FetchPolicy U (os_control out) client) now1 now2 host (wd_provider s2, wd_ext s2) of
             ((p', x'), r) \<Rightarrow> (s2\<lparr>wd_provider := p', wd_ext := x'\<rparr>, r)))"

definition check_world ::
  "unicode \<Rightarrow> ('x, 'w) outside \<Rightarrow> Limiter \<Rightarrow> App \<Rightarrow> Request \<Rightarrow> RateLimitRule \<Rightarrow> 'x world \<Rightarrow> 'x world \<times> (panic + Decision)" where
  "check_world U out l app req rule s =
     (case now_world out s of (s1, now) \<Rightarrow>
      case Limiter_Check U (os_redis out) l now app req rule (wd_ext s1) of (x', res) \<Rightarrow> (s1\<lparr>wd_ext := x'\<rparr>, res))"

definition inspect_world ::
  "('x, 'w) outside \<Rightarrow> 'w waf_engine \<Rightarrow> http_request \<Rightarrow> string \<Rightarrow> PolicyContext \<Rightarrow> 'x world \<Rightarrow> 'x world \<times> waf_result" where
  "inspect_world out engine r preview px s =
     (case engine of
        AllowEngine \<Rightarrow> (s, AllowEngine_Inspect r preview px)
      | CorazaEngine e \<Rightarrow>
          (case coraza_Inspect (os_transaction out (ce_waf e) (px_RequestID px)) (ce_ruleEngine e) r preview px (wd_ext s) of
             (x', res) \<Rightarrow> (s\<lparr>wd_ext := x'\<rparr>, res)))"

definition log_world :: "('x, 'w) outside \<Rightarrow> Event \<Rightarrow> 'x world \<Rightarrow> 'x world \<times> panic option" where
  "log_world out e s =
     (case now_world out s of (s1, now) \<Rightarrow>
      case Dispatcher_Log now e (wd_dispatcher s1) of (d', p) \<Rightarrow> (s1\<lparr>wd_dispatcher := d'\<rparr>, p))"

definition origin_world :: "('x, 'w) outside \<Rightarrow> out_request \<Rightarrow> 'x world \<Rightarrow> 'x world \<times> origin_result" where
  "origin_world out req s = (case os_origin out req (wd_ext s) of (x', a) \<Rightarrow> (s\<lparr>wd_ext := x'\<rparr>, a))"

text \<open>The sinks of the dispatcher: standard output, and ClickHouse when it is enabled.\<close>

definition auditSinks :: "('x, 'w) outside \<Rightarrow> ClickHouseConfig \<Rightarrow> start_error + 'x sink list" where
  "auditSinks out cfg =
     (let stdout = JSONStdoutSink_Write (os_stdout out) False in
      if chc_Enabled cfg then
        (case NewClickHouseSink (os_urlString out) cfg of
           None \<Rightarrow> Inl ClickHouseURLInvalid
         | Some sink \<Rightarrow> Inr [stdout, ClickHouseSink_Write (os_clickhouse out) (os_timeFormat out) sink])
      else Inr [stdout])"

record 's Server =
  srv_Addr :: string
  srv_Handler :: "'s Gateway"
  srv_ReadHeaderTimeout :: int
  srv_ReadTimeout :: int
  srv_WriteTimeout :: int
  srv_IdleTimeout :: int
  srv_MaxHeaderBytes :: int

definition server_of :: "ServerConfig \<Rightarrow> 's Gateway \<Rightarrow> 's Server" where
  "server_of c handler = \<lparr>srv_Addr = sc_ListenAddr c, srv_Handler = handler,
     srv_ReadHeaderTimeout = durationMillis (sc_ReadHeaderTimeoutMillis c),
     srv_ReadTimeout = durationMillis (sc_ReadTimeoutMillis c), srv_WriteTimeout = durationMillis (sc_WriteTimeoutMillis c),
     srv_IdleTimeout = durationMillis (sc_IdleTimeoutMillis c), srv_MaxHeaderBytes = sc_MaxHeaderBytes c\<rparr>"

definition gateway_options ::
  "unicode \<Rightarrow> ('x, 'w) outside \<Rightarrow> Config \<Rightarrow> built_provider \<Rightarrow> 'w waf_engine \<Rightarrow> 'x world Options" where
  "gateway_options U out cfg bp engine = \<lparr>op_Config = cfg,
     op_Policies = (case bp of LocalProvider store \<Rightarrow> Some store | RemoteProvider _ _ \<Rightarrow> None),
     op_Provider = Some (lookup_world U out bp),
     op_RateLimiter = Some (check_world U out (FromConfig (cfg_Redis cfg))),
     op_Auditor = Some (log_world out), op_WAF = Some (inspect_world out engine),
     op_Transport = origin_world out, op_MetricsPage = os_metricsPage out\<rparr>"

text \<open>\<open>main\<close> from the loaded configuration to the server: the handler, the initial world, and the sinks
  of the dispatcher.\<close>

definition start ::
  "unicode \<Rightarrow> ('x, 'w) outside \<Rightarrow> config_error + Config \<Rightarrow> 'x \<Rightarrow> start_error + 'x world Server \<times> 'x world \<times> 'x sink list" where
  "start U out loaded x =
     (case loaded of Inl e \<Rightarrow> Inl (LoadConfigFailed e)
      | Inr cfg \<Rightarrow> (case buildPolicyProvider U cfg of Inl e \<Rightarrow> Inl e
      | Inr bp \<Rightarrow> (case buildWAF (os_newWAF out) cfg of Inl e \<Rightarrow> Inl e
      | Inr engine \<Rightarrow> (case auditSinks out (cfg_ClickHouse cfg) of Inl e \<Rightarrow> Inl e
      | Inr sinks \<Rightarrow> (case NewDispatcher 1024 sinks of Inl e \<Rightarrow> Inl (DispatcherRejected e)
      | Inr d \<Rightarrow> (case NewGateway U (gateway_options U out cfg bp engine) of Inl e \<Rightarrow> Inl (GatewayRejected e)
      | Inr g \<Rightarrow>
          Inr (server_of (cfg_Server cfg) g,
            \<lparr>wd_provider = (case bp of RemoteProvider _ p \<Rightarrow> p | LocalProvider _ \<Rightarrow> NewProvider (cfg_ControlAPI cfg)),
             wd_dispatcher = d, wd_ext = x\<rparr>, sinks)))))))"

section \<open>What the handler needs of its services\<close>

text \<open>The panics that a request may still end in are provoked from outside: a body of the origin that breaks off, a
  status code of a rule or of the origin that cannot be written, and an array reply of Redis of impossible
  length.\<close>

definition outside_panic :: "panic \<Rightarrow> bool" where
  "outside_panic p \<longleftrightarrow> p \<in> {AbortHandler, MakeSliceOutOfRange} \<or>
     (\<exists>n. p = InvalidWriteHeaderCode n \<and> (n < 100 \<or> 999 < n))"

definition harmless :: "panic option \<Rightarrow> bool" where
  "harmless po \<longleftrightarrow> (case po of None \<Rightarrow> True | Some p \<Rightarrow> outside_panic p)"

lemma harmless_simps [simp]:
  "harmless None" "harmless (Some p) \<longleftrightarrow> outside_panic p"
  "outside_panic AbortHandler" "outside_panic MakeSliceOutOfRange"
  "outside_panic (InvalidWriteHeaderCode n) \<longleftrightarrow> n < 100 \<or> 999 < n"
  by (simp_all add: harmless_def outside_panic_def)

locale gateway_services = policy_provider "sv_Lookup sv" inv
  for sv :: "'s services" and inv :: "'s \<Rightarrow> bool" +
  assumes check_safe: "inv s \<Longrightarrow> app_ok app \<Longrightarrow> rule \<in> set (app_RateLimits app) \<Longrightarrow> sv_Check sv app req rule s = (s', res) \<Longrightarrow>
      inv s' \<and> (\<forall>p. res = Inl p \<longrightarrow> p = MakeSliceOutOfRange)"
    and inspect_inv: "inv s \<Longrightarrow> sv_Inspect sv r preview px s = (s', found) \<Longrightarrow> inv s'"
    and origin_inv: "inv s \<Longrightarrow> sv_RoundTrip sv out s = (s', answer) \<Longrightarrow> inv s'"
    and log_safe: "inv s \<Longrightarrow> sv_Log sv = Some log \<Longrightarrow> log e s = (s', p) \<Longrightarrow> inv s' \<and> p = None"
begin

lemma evaluateRateLimits_safe:
  assumes "inv s" "app_ok app" "set rules \<subseteq> set (app_RateLimits app)" "evaluateRateLimits sv app req rules s = (s', res)"
  shows "inv s' \<and> (\<forall>p. res = Inl p \<longrightarrow> p = MakeSliceOutOfRange)"
  using assms
proof (induction rules arbitrary: s)
  case (Cons rule rules)
  obtain s1 r1 where c: "sv_Check sv app req rule s = (s1, r1)" by (cases "sv_Check sv app req rule s")
  then have "inv s1" "\<forall>p. r1 = Inl p \<longrightarrow> p = MakeSliceOutOfRange" using check_safe [OF Cons.prems(1,2) _ c] Cons.prems(3) by auto
  then show ?case using Cons.IH [of s1] Cons.prems c by (auto split: sum.splits if_splits)
qed auto

lemma decide_safe:
  assumes "inv s" "app_ok app" "decide U sv rid r app ip host preview exceeded s = (s', out)"
  shows "inv s' \<and> (\<forall>p. out = Panicked p \<longrightarrow> p = MakeSliceOutOfRange)"
proof -
  obtain s1 rp where rp: "rate_phase sv app (rl_request r (addr_String ip) host) (EvaluateIP app ip) s = (s1, rp)"
    by (cases "rate_phase sv app (rl_request r (addr_String ip) host) (EvaluateIP app ip) s")
  have s1: "inv s1" "\<forall>p. rp = Inl p \<longrightarrow> p = MakeSliceOutOfRange"
    using rp assms(1) evaluateRateLimits_safe [OF assms(1,2) subset_refl]
    by (auto simp: rate_phase_def split: if_splits prod.splits sum.splits)
  have waf: "inv s2" if "waf_phase sv r preview px f obs s1 = (s2, found)" for preview px f obs s2 found
    using that s1(1) inspect_inv [OF s1(1)]
    by (auto simp: waf_phase_def Let_def split: if_splits prod.splits sum.splits option.splits)
  show ?thesis using assms(3) s1 waf by (auto simp: decide_def rp split: prod.splits sum.splits)
qed

lemma recorder_error_harmless: "harmless (snd (recorder_error st rid m c))"
  by (auto simp: recorder_error_def writeJSONError_def rw_WriteHeader_def split: sum.splits if_splits)

lemma proxy_safe:
  assumes "inv (gx_s c)"
  shows "inv (gx_s (fst (proxy_ServeHTTP sv ck rid o' r c))) \<and> harmless (snd (proxy_ServeHTTP sv ck rid o' r c))"
proof -
  have e: "gx_s (fst (proxy_error ck rid c)) = gx_s c" "harmless (snd (proxy_error ck rid c))" for c :: "'s gwctx"
    by (simp_all add: proxy_error_def recorder_error_harmless)
  have cp: "gx_s (fst (proxy_copy st h b f c)) = gx_s c" "harmless (snd (proxy_copy st h b f c))" for c :: "'s gwctx" and st h b f
    by (auto simp: proxy_copy_def rw_WriteHeader_def split: sum.splits if_splits)
  have md: "gx_s (proxy_modify ck st c) = gx_s c" for c :: "'s gwctx" and st by (simp add: proxy_modify_def)
  show ?thesis
    using assms by (auto simp: proxy_ServeHTTP_def Let_def e cp md intro: origin_inv split: prod.splits origin_result.splits)
qed

lemma handle_app_safe:
  assumes "gw_services g = sv" "inv (gx_s c)" "app_ok app"
  shows "inv (gx_s (fst (handle_app U g ck rid r ip host app c))) \<and> harmless (snd (handle_app U g ck rid r ip host app c))"
proof -
  have en: "inv (gx_s (fst (enforce sv ck rid r app final c))) \<and> harmless (snd (enforce sv ck rid r app final c))"
    if "inv (gx_s c)" for c r final
    using that proxy_safe [of "c\<lparr>gx_event := event_decision app final (gx_event c), gx_metrics := gx_metrics c @ rate_metrics final\<rparr>"]
    by (simp add: enforce_def Let_def recorder_error_harmless)
  have panicked: "outside_panic p" if "decide U sv rid r app ip host preview exceeded (gx_s c) = (s', Panicked p)" for r preview exceeded s' p
    using decide_safe [OF assms(2,3) that] by (simp add: outside_panic_def)
  have kept: "inv s'" if "decide U sv rid r app ip host preview exceeded (gx_s c) = (s', out)" for r preview exceeded s' out
    using decide_safe [OF assms(2,3) that] by simp
  show ?thesis
    using assms panicked kept en recorder_error_harmless
    by (auto simp: handle_app_def Let_def split: prepared.splits prod.splits outcome.splits)
qed

lemma handle_lookup_safe:
  assumes "gw_services g = sv" "inv (gx_s c)"
  shows "inv (gx_s (fst (handle_lookup U g ck rid r ip host c))) \<and> harmless (snd (handle_lookup U g ck rid r ip host c))"
proof -
  obtain s' l where l: "sv_Lookup sv host (gx_s c) = (s', l)" by (cases "sv_Lookup sv host (gx_s c)")
  have "inv s'" using lookup_inv [OF assms(2) l] .
  moreover have "\<exists>a. lr_App l = Some a \<and> app_ok a" if "lr_Found l" using lookup_found [OF assms(2) l that] .
  ultimately show ?thesis
    using l assms handle_app_safe [OF assms(1)]
    by (auto simp: handle_lookup_def Let_def recorder_error_harmless split: option.splits)
qed

text \<open>The whole request, the deferred auditing included.\<close>

lemma audit_safe:
  assumes "inv (gx_s c)"
  shows "inv (gx_s (fst (audit_deferred sv ck c)))" "snd (audit_deferred sv ck c) = None"
  using assms log_safe by (auto simp: audit_deferred_def Let_def split: option.splits prod.splits)

lemma serve_request_safe:
  assumes "gw_services g = sv" "inv s"
  shows "inv (gx_s (fst (serve_request U g ck rid r s))) \<and> harmless (snd (serve_request U g ck rid r s))"
proof -
  have "inv (gx_s (fst (serve_audited U g ck rid r c))) \<and> harmless (snd (serve_audited U g ck rid r c))" if "gx_s c = s" for c
    using handle_lookup_safe [OF assms(1)] assms that audit_safe
    by (simp add: serve_audited_def Let_def case_prod_unfold)
  then show ?thesis using assms(2) by (simp add: serve_request_def Let_def new_ctx_def recorder_error_harmless)
qed

lemma ServeHTTP_inv:
  assumes "gw_services g = sv" "inv s"
  shows "inv (gx_s (ServeHTTP U g ck rid r s))"
proof -
  have "gx_s (recover_panic cp) = gx_s (fst cp)" for cp :: "'s gwctx \<times> panic option"
    by (simp add: recover_panic_def split: prod.splits option.splits)
  then show ?thesis using serve_request_safe [OF assms] by (simp add: ServeHTTP_def)
qed

text \<open>Any sequence of requests keeps the invariant, so that no request of it panics on the gateway's
  account.\<close>

lemma requests_inv:
  assumes "gw_services g = sv" "inv s"
  shows "inv (fold (\<lambda>(ck, rid, r) s. gx_s (ServeHTTP U g ck rid r s)) reqs s)"
  using assms(2) by (induction reqs arbitrary: s) (simp_all add: ServeHTTP_inv [OF assms(1)] case_prod_unfold)

end


section \<open>The services of the program\<close>

text \<open>What the program keeps true of its world: the provider's policies are compiled ones, and the dispatcher is
  open.\<close>

definition provider_ok :: "unicode \<Rightarrow> built_provider \<Rightarrow> bool" where
  "provider_ok U bp \<longleftrightarrow> (case bp of LocalProvider store \<Rightarrow> \<exists>cfgs. NewStore U cfgs = Inr store | RemoteProvider _ p \<Rightarrow> cache_ok p)"

definition world_inv :: "unicode \<Rightarrow> built_provider \<Rightarrow> 'x world \<Rightarrow> bool" where
  "world_inv U bp s \<longleftrightarrow> provider_ok U bp \<and> cache_ok (wd_provider s) \<and> \<not> dp_closed (wd_dispatcher s)"

definition program_services ::
  "unicode \<Rightarrow> ('x, 'w) outside \<Rightarrow> built_provider \<Rightarrow> Limiter \<Rightarrow> 'w waf_engine \<Rightarrow> 'x world services" where
  "program_services U out bp l engine = \<lparr>sv_Lookup = lookup_world U out bp, sv_Check = check_world U out l,
     sv_Inspect = inspect_world out engine, sv_Log = Some (log_world out), sv_RoundTrip = origin_world out,
     sv_MetricsPage = os_metricsPage out\<rparr>"

lemma Dispatcher_Log_open:
  assumes "\<not> dp_closed d" "Dispatcher_Log now e d = (d', p)"
  shows "\<not> dp_closed d'" "p = None"
  using assms by (auto simp: Dispatcher_Log_def Let_def split: if_splits)

lemma Limiter_Check_panics:
  assumes "app_ok app" "rule \<in> set (app_RateLimits app)" "Limiter_Check U (os_redis out) l now app req rule x = (x', Inl p)"
  shows "p = MakeSliceOutOfRange"
proof (cases l)
  case Noop
  then show ?thesis using assms(3) by (simp add: Limiter_Check_def NoopLimiter_Check_def)
next
  case (FixedWindow store fc)
  have "rl_WindowSeconds rule \<noteq> 0" using assms(1,2) by (auto simp: app_ok_def list_all_iff rate_limit_ok_def)
  then show ?thesis using FixedWindow redis.Check_panics assms(3) by (fastforce simp: Limiter_Check_def)
qed

text \<open>What each service does to the provider and to the dispatcher.\<close>

lemma now_world_keeps [simp]:
  "wd_provider (fst (now_world out s)) = wd_provider s" "wd_dispatcher (fst (now_world out s)) = wd_dispatcher s"
  by (simp_all add: now_world_def split: prod.split)

lemma world_keeps:
  "lookup_world U out bp h s = (s', r) \<Longrightarrow> wd_dispatcher s' = wd_dispatcher s"
  "check_world U out l app req rule s = (s', res) \<Longrightarrow> wd_dispatcher s' = wd_dispatcher s \<and> wd_provider s' = wd_provider s"
  "inspect_world out engine hr preview px s = (s', found) \<Longrightarrow> wd_dispatcher s' = wd_dispatcher s \<and> wd_provider s' = wd_provider s"
  "origin_world out req' s = (s', answer) \<Longrightarrow> wd_dispatcher s' = wd_dispatcher s \<and> wd_provider s' = wd_provider s"
  using now_world_keeps [of out]
  by (auto simp: lookup_world_def check_world_def inspect_world_def origin_world_def case_prod_unfold
      split: built_provider.splits waf_engine.splits)

lemma lookup_world_safe:
  assumes inv: "world_inv U bp s" and l: "lookup_world U out bp h s = (s', r)"
  shows "world_inv U bp s' \<and> (lr_Found r \<longrightarrow> (\<exists>a. lr_App r = Some a \<and> app_ok a))"
proof (cases bp)
  case (LocalProvider store)
  then have "s' = s" "Store_Lookup U store h = r" "\<exists>cfgs. NewStore U cfgs = Inr store"
    using l inv by (auto simp: lookup_world_def world_inv_def provider_ok_def)
  then show ?thesis using inv local_store.lookup_found [of U store h store r] by auto
next
  case (RemoteProvider client p)
  obtain s1 n1 s2 n2 where n: "now_world out s = (s1, n1)" "now_world out s1 = (s2, n2)" by (metis surj_pair)
  have s2: "wd_provider s2 = wd_provider s" "wd_dispatcher s2 = wd_dispatcher s"
    using now_world_keeps [of out s] now_world_keeps [of out s1] by (simp_all add: n)
  obtain p' x' where pl: "Provider_Lookup U (FetchPolicy U (os_control out) client) n1 n2 h (wd_provider s2, wd_ext s2) = ((p', x'), r)"
    "s' = s2\<lparr>wd_provider := p', wd_ext := x'\<rparr>"
    using l RemoteProvider by (auto simp: lookup_world_def n split: prod.splits)
  have "cache_ok (wd_provider s2)" using inv s2 by (simp add: world_inv_def)
  then show ?thesis
    using remote.lookup_inv [of "(wd_provider s2, wd_ext s2)", OF _ pl(1)] remote.lookup_found [of "(wd_provider s2, wd_ext s2)", OF _ pl(1)] inv
    by (auto simp: world_inv_def pl(2) s2)
qed

lemma log_world_open:
  assumes "\<not> dp_closed (wd_dispatcher s)" "log_world out e s = (s', p)"
  shows "\<not> dp_closed (wd_dispatcher s')" "p = None" "wd_provider s' = wd_provider s"
proof -
  obtain d q where dq: "Dispatcher_Log (snd (now_world out s)) e (wd_dispatcher s) = (d, q)" by (metis surj_pair)
  then have d: "Dispatcher_Log (snd (now_world out s)) e (wd_dispatcher s) = (d, p)" "s' = fst (now_world out s)\<lparr>wd_dispatcher := d\<rparr>"
    using assms(2) by (simp_all add: log_world_def case_prod_unfold dq)
  show "\<not> dp_closed (wd_dispatcher s')" "p = None" "wd_provider s' = wd_provider s"
    using Dispatcher_Log_open [OF assms(1) d(1)] d(2) by simp_all
qed

interpretation program: gateway_services "program_services U out bp l engine" "world_inv U bp"
  for U and out :: "('x, 'w) outside" and bp l engine
proof
  fix s s' :: "'x world" and h r
  assume inv: "world_inv U bp s" and l: "sv_Lookup (program_services U out bp l engine) h s = (s', r)"
  have "world_inv U bp s' \<and> (lr_Found r \<longrightarrow> (\<exists>a. lr_App r = Some a \<and> app_ok a))"
    using lookup_world_safe [OF inv] l by (simp add: program_services_def)
  then show "world_inv U bp s'" "lr_Found r \<Longrightarrow> \<exists>a. lr_App r = Some a \<and> app_ok a" by blast+
next
  fix s s' :: "'x world" and h r
  assume "sv_Lookup (program_services U out bp l engine) h s = (s', r)" "lr_FailOpen r"
  then show "\<not> lr_Found r"
    by (auto simp: program_services_def lookup_world_def Store_Lookup_def zero_LookupResult_def dest: remote.lookup_not_both
        split: built_provider.splits prod.splits option.splits)
next
  fix s s' :: "'x world" and app req rule res
  assume inv: "world_inv U bp s" and app: "app_ok app" "rule \<in> set (app_RateLimits app)"
    and c: "sv_Check (program_services U out bp l engine) app req rule s = (s', res)"
  have "check_world U out l app req rule s = (s', res)" using c by (simp add: program_services_def)
  moreover have "p = MakeSliceOutOfRange" if "res = Inl p" for p
    using calculation Limiter_Check_panics [OF app] that by (auto simp: check_world_def split: prod.splits)
  ultimately show "world_inv U bp s' \<and> (\<forall>p. res = Inl p \<longrightarrow> p = MakeSliceOutOfRange)"
    using inv world_keeps(2) [of U out l app req rule s s' res] by (auto simp: world_inv_def)
next
  fix s s' :: "'x world" and r preview px found
  assume "world_inv U bp s" "sv_Inspect (program_services U out bp l engine) r preview px s = (s', found)"
  then show "world_inv U bp s'" using world_keeps(3) by (fastforce simp: program_services_def world_inv_def)
next
  fix s s' :: "'x world" and req answer
  assume "world_inv U bp s" "sv_RoundTrip (program_services U out bp l engine) req s = (s', answer)"
  then show "world_inv U bp s'" using world_keeps(4) by (fastforce simp: program_services_def world_inv_def)
next
  fix s s' :: "'x world" and log e p
  assume "world_inv U bp s" "sv_Log (program_services U out bp l engine) = Some log" "log e s = (s', p)"
  then show "world_inv U bp s' \<and> p = None"
    using log_world_open [of s out e s' p] by (auto simp: program_services_def world_inv_def)
qed

interpretation program_audit: audited_services "program_services U out bp l engine" "\<lambda>s. \<not> dp_closed (wd_dispatcher s)"
  for U and out :: "('x, 'w) outside" and bp l engine
proof
  fix s :: "'x world" and e
  assume "\<not> dp_closed (wd_dispatcher s)"
  then show "\<exists>log. sv_Log (program_services U out bp l engine) = Some log \<and> snd (log e s) = None"
    using log_world_open [of s out e "fst (log_world out e s)" "snd (log_world out e s)"] by (simp add: program_services_def)
next
  fix s s' :: "'x world" and h r
  assume "\<not> dp_closed (wd_dispatcher s)" "sv_Lookup (program_services U out bp l engine) h s = (s', r)"
  then show "\<not> dp_closed (wd_dispatcher s')" using world_keeps(1) [of U out bp h s s' r] by (simp add: program_services_def)
next
  fix s s' :: "'x world" and app req rule res
  assume "\<not> dp_closed (wd_dispatcher s)" "sv_Check (program_services U out bp l engine) app req rule s = (s', res)"
  then show "\<not> dp_closed (wd_dispatcher s')" using world_keeps(2) [of U out l app req rule s s' res] by (simp add: program_services_def)
next
  fix s s' :: "'x world" and r preview px found
  assume "\<not> dp_closed (wd_dispatcher s)" "sv_Inspect (program_services U out bp l engine) r preview px s = (s', found)"
  then show "\<not> dp_closed (wd_dispatcher s')" using world_keeps(3) [of out engine r preview px s s' found] by (simp add: program_services_def)
next
  fix s s' :: "'x world" and req answer
  assume "\<not> dp_closed (wd_dispatcher s)" "sv_RoundTrip (program_services U out bp l engine) req s = (s', answer)"
  then show "\<not> dp_closed (wd_dispatcher s')" using world_keeps(4) [of out req s s' answer] by (simp add: program_services_def)
qed

section \<open>The started program\<close>

lemma start_services:
  assumes "start U out loaded x = Inr (srv, w, sinks)"
  obtains cfg bp engine where "loaded = Inr cfg" "buildPolicyProvider U cfg = Inr bp"
    "gw_services (srv_Handler srv) = program_services U out bp (FromConfig (cfg_Redis cfg)) engine"
    "NewDispatcher 1024 sinks = Inr (wd_dispatcher w)" "wd_provider w = (case bp of RemoteProvider _ p \<Rightarrow> p | LocalProvider _ \<Rightarrow> NewProvider (cfg_ControlAPI cfg))"
proof -
  from assms obtain cfg bp engine d g where s: "loaded = Inr cfg" "buildPolicyProvider U cfg = Inr bp" "NewDispatcher 1024 sinks = Inr d"
    "NewGateway U (gateway_options U out cfg bp engine) = Inr g"
    "w = \<lparr>wd_provider = (case bp of RemoteProvider _ p \<Rightarrow> p | LocalProvider _ \<Rightarrow> NewProvider (cfg_ControlAPI cfg)), wd_dispatcher = d, wd_ext = x\<rparr>"
    "srv = server_of (cfg_Server cfg) g"
    by (auto simp: start_def split: sum.splits)
  have "gw_services g = program_services U out bp (FromConfig (cfg_Redis cfg)) engine"
    using s(4) by (auto simp: NewGateway_def gateway_options_def program_services_def split: sum.splits)
  with s that show thesis by (simp add: server_of_def)
qed

lemma start_inv:
  assumes "start U out loaded x = Inr (srv, w, sinks)"
  obtains bp l engine where "gw_services (srv_Handler srv) = program_services U out bp l engine" "world_inv U bp w"
proof (rule start_services [OF assms])
  fix cfg bp engine
  assume s: "buildPolicyProvider U cfg = Inr bp" "gw_services (srv_Handler srv) = program_services U out bp (FromConfig (cfg_Redis cfg)) engine"
    "NewDispatcher 1024 sinks = Inr (wd_dispatcher w)" "wd_provider w = (case bp of RemoteProvider _ p \<Rightarrow> p | LocalProvider _ \<Rightarrow> NewProvider (cfg_ControlAPI cfg))"
  have empty: "cache_ok (NewProvider c)" for c by (simp add: NewProvider_def cache_ok_def Let_def)
  have "provider_ok U bp" "cache_ok (wd_provider w)"
    using s(1,4) by (auto simp: buildPolicyProvider_def provider_ok_def empty split: if_splits option.splits sum.splits)
  moreover have "\<not> dp_closed (wd_dispatcher w)" using s(3) by (auto simp: NewDispatcher_def split: if_splits dest: sym)
  ultimately show thesis using that s(2) by (simp add: world_inv_def)
qed

text \<open>The states of the program while it serves: the initial one, those after a request, and those that the rest
  of the program and of the world lead to, the worker taking events off the audit queue among them.\<close>

inductive serving :: "unicode \<Rightarrow> 'x world Server \<Rightarrow> 'x world \<Rightarrow> 'x world \<Rightarrow> bool"
  for U :: unicode and srv :: "'x world Server" and w :: "'x world" where
  started: "serving U srv w w"
| request: "serving U srv w s \<Longrightarrow> serving U srv w (gx_s (ServeHTTP U (srv_Handler srv) ck rid r s))"
| meanwhile: "serving U srv w s \<Longrightarrow> wd_provider s' = wd_provider s \<Longrightarrow>
    dp_closed (wd_dispatcher s') = dp_closed (wd_dispatcher s) \<Longrightarrow> serving U srv w s'"

lemma serving_inv:
  assumes "serving U srv w s" "gw_services (srv_Handler srv) = program_services U out bp l engine" "world_inv U bp w"
  shows "world_inv U bp s"
  using assms
proof (induction rule: serving.induct)
  case (request s ck rid r)
  then show ?case using program.ServeHTTP_inv [OF request.prems(1)] by blast
qed (auto simp: world_inv_def)


section \<open>What the client receives\<close>

text \<open>The answers of the started gateway, while its audit queue is open; it is open in every state in which the
  gateway serves.\<close>

lemma serving_open:
  assumes "start U out loaded x = Inr (srv, w, sinks)" "serving U srv w s"
  shows "\<not> dp_closed (wd_dispatcher s)"
proof (rule start_inv [OF assms(1)])
  fix bp l engine
  assume "gw_services (srv_Handler srv) = program_services U out bp l engine" "world_inv U bp w"
  from serving_inv [OF assms(2) this] show ?thesis by (simp add: world_inv_def)
qed



text \<open>When the origin's body breaks off, the proxy aborts the handler with a panic, and the recovery appends a JSON
  error to the partial body of a response whose status has already been sent.\<close>

theorem truncated_body_gets_error:
  assumes "start U out loaded x = Inr (srv, w, sinks)" "serving U srv w s"
    and v: "evaluated U (srv_Handler srv) rid r s = Some (app, r1, s2, final)" and n: "\<not> enforced app final"
    and up: "ascii_print (upgradeType (hr_Header (forward_request rid r1)))"
    and rt: "os_origin out (outgoing (app_Origin app) (forward_request rid r1)) (wd_ext s2) = (x', OriginAnswer st hdr bdy False)"
    and st: "200 \<le> st" "st \<le> 999" "bodyAllowedForStatus st"
  shows "rsp_status (served_response r (ServeHTTP U (srv_Handler srv) ck rid r s)) = st \<and>
    rsp_body (served_response r (ServeHTTP U (srv_Handler srv) ck rid r s)) = client_body r (bdy @ error_body ''internal server error'' [])"
proof (rule start_services [OF assms(1)])
  fix cfg bp engine
  assume g: "gw_services (srv_Handler srv) = program_services U out bp (FromConfig (cfg_Redis cfg)) engine"
  have "sv_RoundTrip (program_services U out bp (FromConfig (cfg_Redis cfg)) engine)
      (outgoing (app_Origin app) (forward_request rid r1)) s2 = (s2\<lparr>wd_ext := x'\<rparr>, OriginAnswer st hdr bdy False)"
    using rt by (simp add: program_services_def origin_world_def)
  from program_audit.truncated_answer [OF v g serving_open [OF assms(1,2)] n up this st] show ?thesis .
qed

text \<open>C36: A rule whose status code is below 100 (the configuration accepts it) does not produce that status: writing the
  header panics, the client of the started gateway gets a 500 without a request id, and the event still records the
  rule's code.\<close>

theorem invalid_status_panics:
  assumes "start U out loaded x = Inr (srv, w, sinks)" "serving U srv w s"
    and v: "evaluated U (srv_Handler srv) rid r s = Some (app, r1, s2, final)" and "enforced app final"
    and st: "d_StatusCode final \<noteq> 0" "d_StatusCode final < 100"
  shows "rsp_status (served_response r (ServeHTTP U (srv_Handler srv) ck rid r s)) = 500 \<and>
    rsp_body (served_response r (ServeHTTP U (srv_Handler srv) ck rid r s)) = client_body r (error_body ''internal server error'' []) \<and>
    map ev_Status (gx_audited (ServeHTTP U (srv_Handler srv) ck rid r s)) = [d_StatusCode final]"
  by (rule start_services [OF assms(1)]) (rule program_audit.panicking_answer [OF v _ serving_open [OF assms(1,2)] assms(4) st])

text \<open>C35: When the policy cannot be fetched and the fail behaviour is to fail open, the request is not forwarded: the client
  of the started gateway gets an empty 200 response, and the event says that the request was allowed.\<close>

theorem fail_open_is_empty:
  assumes "start U out loaded x = Inr (srv, w, sinks)" "serving U srv w s"
    and "hr_Path r \<notin> {''/healthz'', ''/metrics''}" "ValidHost U (NormalizeHost U (hr_Host r))"
    and l: "sv_Lookup (gw_services (srv_Handler srv)) (NormalizeHost U (hr_Host r)) s = (s', l)" "lr_FailOpen l"
  shows "gx_sent (ServeHTTP U (srv_Handler srv) ck rid r s) = [] \<and>
    rsp_status (served_response r (ServeHTTP U (srv_Handler srv) ck rid r s)) = 200 \<and>
    rsp_body (served_response r (ServeHTTP U (srv_Handler srv) ck rid r s)) = [] \<and>
    map (\<lambda>e. (ev_Action e, ev_Status e, ev_Reason e)) (gx_audited (ServeHTTP U (srv_Handler srv) ck rid r s)) =
      [(ActionAllow, 200, lr_Reason l)]"
proof (rule start_services [OF assms(1)])
  fix cfg bp engine
  assume g: "gw_services (srv_Handler srv) = program_services U out bp (FromConfig (cfg_Redis cfg)) engine"
  from program_audit.fail_open_answer [OF assms(3,4) g serving_open [OF assms(1,2)] l(1) [unfolded g] l(2)] show ?thesis .
qed

section \<open>Started sample gateways\<close>

definition sample_outside :: "(unit, unit) outside" where
  "sample_outside = \<lparr>os_now = (\<lambda>x. (x, 1)), os_control = (\<lambda>_ _ _ x. (x, AnswerError)), os_redis = (\<lambda>_ _ _ x. (x, None)), os_newWAF = (\<lambda>_ _. Inr ()),
     os_transaction = (\<lambda>_ _. \<lparr>tx_ProcessConnection = (\<lambda>_ _ _ _ t. t), tx_SetServerName = (\<lambda>_ t. t),
       tx_ProcessURI = (\<lambda>_ _ _ t. t), tx_AddRequestHeader = (\<lambda>_ _ t. t), tx_ProcessRequestHeaders = (\<lambda>t. (t, None)),
       tx_WriteRequestBody = (\<lambda>_ t. (t, Inr None)), tx_ProcessRequestBody = (\<lambda>t. (t, Inr None)),
       tx_MatchedRules = (\<lambda>_. []), tx_ProcessLogging = id, tx_Close = id\<rparr>),
     os_stdout = (\<lambda>_ x. (x, True)), os_clickhouse = (\<lambda>_ _ _ x. (x, None)), os_urlString = url_Host, os_timeFormat = (\<lambda>_. []),
     os_origin = (\<lambda>_ x. (x, OriginFailed)), os_metricsPage = id\<rparr>"

definition sample_config :: Config where
  "sample_config = \<lparr>cfg_Server = \<lparr>sc_ListenAddr = '':8080'', sc_TrustedProxies = [], sc_ReadHeaderTimeoutMillis = 5000,
       sc_ReadTimeoutMillis = 0, sc_WriteTimeoutMillis = 0, sc_IdleTimeoutMillis = 0, sc_MaxHeaderBytes = 0\<rparr>,
     cfg_Redis = \<lparr>rc_Enabled = True, rc_Addr = ''redis:6379'', rc_FailMode = ''open''\<rparr>,
     cfg_ClickHouse = \<lparr>chc_Enabled = False, chc_URL = [], chc_Database = [], chc_Username = [], chc_Password = []\<rparr>,
     cfg_WAF = sample_waf_config,
     cfg_ControlAPI = \<lparr>cac_Enabled = True, cac_BaseURL = ''http://control:8080'', cac_GatewayAPIKey = ''key'',
       cac_CacheTTLSeconds = 30, cac_FailBehavior = ''fail_closed''\<rparr>, cfg_Apps = []\<rparr>"


text \<open>A gateway with one configured application, without Redis, whose origin gives a fixed answer.\<close>

definition local_config :: "AppConfig \<Rightarrow> Config" where
  "local_config a = sample_config\<lparr>cfg_Redis := \<lparr>rc_Enabled = False, rc_Addr = [], rc_FailMode = ''open''\<rparr>,
     cfg_ControlAPI := \<lparr>cac_Enabled = False, cac_BaseURL = [], cac_GatewayAPIKey = [], cac_CacheTTLSeconds = 30,
       cac_FailBehavior = ''fail_closed''\<rparr>, cfg_Apps := [a]\<rparr>"

definition answering :: "origin_result \<Rightarrow> (unit, unit) outside" where
  "answering answer = sample_outside\<lparr>os_origin := (\<lambda>_ x. (x, answer))\<rparr>"

lemma local_start:
  assumes "newApp a = Inr app" "ac_Hostnames a = [''example.com'']"
  obtains srv w sinks where "start ascii_tables (answering answer) (Inr (local_config a)) () = Inr (srv, w, sinks)"
    "passing (gw_services (srv_Handler srv))" "gw_trustedProxies (srv_Handler srv) = []"
    "\<And>s. sv_Lookup (gw_services (srv_Handler srv)) ''example.com'' s = (s, found_result app)"
proof -
  have host: "NormalizeHost ascii_tables ''example.com'' = ''example.com''" by code_simp
  define store where "store = \<lparr>st_byHost = [''example.com'' \<mapsto> app]\<rparr>"
  have "app_Hostnames app = [''example.com'']" using assms by (simp add: newApp_Inr)
  then have st: "NewStore ascii_tables [a] = Inr store"
    using assms host by (simp add: NewStore_def store_def)
  have lk: "Store_Lookup ascii_tables store ''example.com'' = found_result app"
    by (simp add: Store_Lookup_def MatchHost_def store_def host found_result_def)
  have "\<exists>srv w sinks. start ascii_tables (answering answer) (Inr (local_config a)) () = Inr (srv, w, sinks) \<and>
      gw_services (srv_Handler srv) = program_services ascii_tables (answering answer) (LocalProvider store) Noop AllowEngine \<and>
      gw_trustedProxies (srv_Handler srv) = []"
    by (auto simp: start_def buildPolicyProvider_def buildWAF_def auditSinks_def NewDispatcher_def NewGateway_def server_of_def
        gateway_options_def parseTrustedProxies_def local_config_def sample_config_def sample_waf_config_def st FromConfig_def
        program_services_def Let_def split: sum.splits)
  moreover have "passing (program_services ascii_tables (answering answer) (LocalProvider store) Noop AllowEngine)"
    by (simp add: passing_def program_services_def check_world_def now_world_def answering_def sample_outside_def Limiter_Check_def
        NoopLimiter_Check_def inspect_world_def AllowEngine_Inspect_def)
  moreover have "sv_Lookup (program_services ascii_tables (answering answer) (LocalProvider store) Noop AllowEngine) ''example.com'' s =
      (s, found_result app)" for s
    by (simp add: program_services_def lookup_world_def lk)
  ultimately show thesis using that by metis
qed

lemma sample_hostnames: "ac_Hostnames sample_app = [''example.com'']"
  by (simp add: sample_app_def)

definition sample_clock :: clock where
  "sample_clock = \<lparr>ck_now = 1, ck_latency = 2, ck_originLatency = 3\<rparr>"



lemma sample_client_body [simp]: "client_body (sample_http path) b = b"
  by (simp add: client_body_def sample_http_def)

lemma sample_upgrade: "ascii_print (upgradeType (hr_Header (forward_request ''id'' (sample_http ''/''))))"
  by code_simp

lemma local_verdict_allow:
  assumes "passing (gw_services g)" "gw_trustedProxies g = []"
    "\<And>s. sv_Lookup (gw_services g) ''example.com'' s = (s, found_result sample_compiled)"
  shows "evaluated ascii_tables g rid (sample_http ''/'') w = Some (sample_compiled, sample_http ''/'', w, Allow)"
  using sample_verdict [OF sample_custom(2) [symmetric] assms(1) _ sample_ip _ _ assms(2,3)] by simp


theorem truncated_body_gets_error_witness:
  "\<exists>srv w sinks. start ascii_tables (answering (OriginAnswer 200 [] ''par'' False)) (Inr (local_config sample_app)) () = Inr (srv, w, sinks) \<and>
     rsp_body (served_response (sample_http ''/'') (ServeHTTP ascii_tables (srv_Handler srv) sample_clock ''id'' (sample_http ''/'') w)) =
       ''par'' @ error_body ''internal server error'' []"
proof (rule local_start [OF sample_newApp sample_hostnames, of "OriginAnswer 200 [] ''par'' False"])
  fix srv w sinks
  assume st: "start ascii_tables (answering (OriginAnswer 200 [] ''par'' False)) (Inr (local_config sample_app)) () = Inr (srv, w, sinks)"
    and g: "passing (gw_services (srv_Handler srv))" "gw_trustedProxies (srv_Handler srv) = []"
    "\<And>s. sv_Lookup (gw_services (srv_Handler srv)) ''example.com'' s = (s, found_result sample_compiled)"
  show ?thesis
    using truncated_body_gets_error [OF st started local_verdict_allow [OF g] _ sample_upgrade, of _ 200 "[]" "''par''" sample_clock] st
    by (simp add: enforced_def bodyAllowedForStatus_def answering_def)
qed

text \<open>The sample application with a rule of status 42, which compiles.\<close>

definition odd_app :: AppConfig where
  "odd_app = sample_app\<lparr>ac_Policy := sample_policy\<lparr>pc_CustomRules := [(sample_rule ''r1'' 20 ''block'')\<lparr>crc_StatusCode := 42\<rparr>]\<rparr>\<rparr>"

definition odd_compiled :: App where
  "odd_compiled = sample_compiled\<lparr>app_CustomRules := [(app_CustomRules sample_compiled ! 1)\<lparr>cr_StatusCode := 42\<rparr>]\<rparr>"

lemma odd_newApp: "newApp odd_app = Inr odd_compiled"
proof -
  have "parseCustomRules [(sample_rule ''r1'' 20 ''block'')\<lparr>crc_StatusCode := 42\<rparr>] sets = Inr (app_CustomRules odd_compiled)" for sets
    by (simp add: parseCustomRules_def parse_custom_rule_def sample_rule_def sample_condition action_defs
      sample_compiled_def odd_compiled_def go_eval TrimSpace_graphic)
  then show ?thesis
    unfolding newApp_Inr
    using sample_limits sample_origin sample_prefixes
    by (simp add: odd_app_def sample_app_def sample_policy_def sample_compiled_def odd_compiled_def parseIPSets_def parse_ip_set_def
      TrimSpace_graphic graphic_def default_string_def empty_url_def)
qed

theorem invalid_status_panics_witness:
  "\<exists>srv w sinks. start ascii_tables (answering OriginFailed) (Inr (local_config odd_app)) () = Inr (srv, w, sinks) \<and>
     rsp_status (served_response (sample_http ''/admin'') (ServeHTTP ascii_tables (srv_Handler srv) sample_clock ''id'' (sample_http ''/admin'') w)) = 500"
proof (rule local_start [OF odd_newApp, of OriginFailed])
  show "ac_Hostnames odd_app = [''example.com'']" by (simp add: odd_app_def sample_hostnames)
next
  fix srv w sinks
  assume st: "start ascii_tables (answering OriginFailed) (Inr (local_config odd_app)) () = Inr (srv, w, sinks)"
    and g: "passing (gw_services (srv_Handler srv))" "gw_trustedProxies (srv_Handler srv) = []"
    "\<And>s. sv_Lookup (gw_services (srv_Handler srv)) ''example.com'' s = (s, found_result odd_compiled)"
  define d where "d = block_decision (hd (app_CustomRules odd_compiled))"
  have d: "EvaluateCustomRules ascii_tables odd_compiled (sample_ctx ''/admin'') = d"
    "EvaluateIP odd_compiled (IPv4 3405803785) = Allow" "d_StatusCode d = 42"
    unfolding d_def by code_simp+
  have "evaluated ascii_tables (srv_Handler srv) ''id'' (sample_http ''/admin'') w = Some (odd_compiled, sample_http ''/admin'', w, d)"
    using sample_verdict [OF d(1) [symmetric] g(1) _ d(2) _ _ g(2,3)] by (simp add: d_def odd_compiled_def)
  from invalid_status_panics [OF st started this, of sample_clock] d(3) st show ?thesis
    by (simp add: enforced_def d_def odd_compiled_def)
qed

text \<open>A gateway that fails open, whose control plane does not answer.\<close>

definition open_config :: Config where
  "open_config = sample_config\<lparr>cfg_ControlAPI := (cfg_ControlAPI sample_config)\<lparr>cac_FailBehavior := ''fail_open''\<rparr>\<rparr>"

lemma open_start:
  obtains srv w sinks s' l where "start ascii_tables sample_outside (Inr open_config) () = Inr (srv, w, sinks)"
    "sv_Lookup (gw_services (srv_Handler srv)) ''example.com'' w = (s', l)" "lr_FailOpen l"
proof -
  have "NewClient (cfg_ControlAPI open_config) \<noteq> None" by code_simp
  then obtain client where c: "NewClient (cfg_ControlAPI open_config) = Some client" by blast
  let ?p = "NewProvider (cfg_ControlAPI open_config)"
  have "\<exists>srv w sinks engine. start ascii_tables sample_outside (Inr open_config) () = Inr (srv, w, sinks) \<and> wd_provider w = ?p \<and>
      gw_services (srv_Handler srv) =
        program_services ascii_tables sample_outside (RemoteProvider client ?p) (FromConfig (cfg_Redis open_config)) engine"
    using c
    by (auto simp: start_def buildPolicyProvider_def buildWAF_def auditSinks_def NewDispatcher_def NewGateway_def server_of_def
        gateway_options_def parseTrustedProxies_def open_config_def sample_config_def sample_waf_config_def
        program_services_def Let_def split: sum.splits)
  then obtain srv w sinks engine where st: "start ascii_tables sample_outside (Inr open_config) () = Inr (srv, w, sinks)" "wd_provider w = ?p"
    "gw_services (srv_Handler srv) =
        program_services ascii_tables sample_outside (RemoteProvider client ?p) (FromConfig (cfg_Redis open_config)) engine" by blast
  have "NormalizeHost ascii_tables ''example.com'' = ''example.com''" by code_simp
  moreover have "FetchPolicy ascii_tables (os_control sample_outside) client ''example.com'' () = ((), Inl HTTPFailed)"
    by (simp add: FetchPolicy_def sample_outside_def)
  moreover have "fresh n h (?p\<lparr>pv_misses := m\<rparr>) = None" "fresh n h ?p = None" "lr_FailOpen (snd (after_fetch n h (Inl e) (?p\<lparr>pv_misses := m\<rparr>)))" for n h e m
    by (simp_all add: fresh_def after_fetch_def NewProvider_def open_config_def sample_config_def Let_def zero_LookupResult_def)
  ultimately have "lr_FailOpen (snd (sv_Lookup (gw_services (srv_Handler srv)) ''example.com'' w))"
    using st(2) by (simp add: st(3) program_services_def lookup_world_def now_world_def Provider_Lookup_def sample_outside_def
      case_prod_unfold Let_def)
  then show thesis using that [OF st(1) surjective_pairing] by blast
qed

theorem fail_open_is_empty_witness:
  "\<exists>srv w sinks. start ascii_tables sample_outside (Inr open_config) () = Inr (srv, w, sinks) \<and>
     rsp_status (served_response (sample_http ''/'') (ServeHTTP ascii_tables (srv_Handler srv) sample_clock ''id'' (sample_http ''/'') w)) = 200"
proof (rule open_start)
  fix srv w sinks s' l
  assume st: "start ascii_tables sample_outside (Inr open_config) () = Inr (srv, w, sinks)"
    and l: "sv_Lookup (gw_services (srv_Handler srv)) ''example.com'' w = (s', l)" "lr_FailOpen l"
  have "NormalizeHost ascii_tables ''example.com'' = ''example.com''" by code_simp
  then show ?thesis
    using fail_open_is_empty [OF st started, of "sample_http ''/''" s' l sample_clock "''id''"] l st by (simp add: sample_http_def)
qed

section \<open>Timeouts\<close>

text \<open>The configured milliseconds in nanoseconds, and 0 (no timeout) for values that are not positive, up to
  about 292 years; beyond that the 64-bit product wraps around and may be negative.\<close>

lemma durationMillis_exact: "int64_ok v \<Longrightarrow> v \<le> 9223372036854 \<Longrightarrow> durationMillis v = 1000000 * max 0 v"
  by (auto simp: durationMillis_def int64_ok_def)

lemma durationMillis_wraps: "durationMillis 9223372036855 < 0"
  by code_simp

end
