(* ===== verification/Control_Config.thy ===== *)
theory Control_Config
  imports Go_Http
begin

text \<open>
  Settings and credentials of the control plane: \<open>services/control-api/internal/config/config.go\<close> and
  \<open>services/control-api/internal/auth/auth.go\<close>.  The environment is a function that returns the empty text for a
  variable that is not set.
\<close>

section \<open>Static bearer tokens\<close>

record StaticBearer =
  sb_token :: string

definition NewStaticBearer :: "string \<Rightarrow> StaticBearer" where
  "NewStaticBearer token = \<lparr>sb_token = token\<rparr>"

definition Enabled :: "StaticBearer \<Rightarrow> bool" where
  "Enabled a \<longleftrightarrow> sb_token a \<noteq> []"

definition Authorized :: "StaticBearer \<Rightarrow> http_header \<Rightarrow> bool" where
  "Authorized a h =
     (if sb_token a = [] then False
      else if \<not> strings_HasPrefix (header_Get h ''Authorization'') ''Bearer '' then False
      else strings_TrimSpace (strings_TrimPrefix (header_Get h ''Authorization'') ''Bearer '') = sb_token a)"

lemma Authorized_iff:
  "Authorized a h \<longleftrightarrow> sb_token a \<noteq> [] \<and> (\<exists>t. header_Get h ''Authorization'' = ''Bearer '' @ t \<and> strings_TrimSpace t = sb_token a)"
proof -
  have p: "strings_HasPrefix s ''Bearer '' \<longleftrightarrow> (\<exists>t. s = ''Bearer '' @ t)" for s
    by (rule HasPrefix_iff)
  show ?thesis
  proof (cases "strings_HasPrefix (header_Get h ''Authorization'') ''Bearer ''")
    case True
    then obtain t where t: "header_Get h ''Authorization'' = ''Bearer '' @ t" unfolding p by (rule exE)
    then show ?thesis using True by (simp add: Authorized_def strings_TrimPrefix_def)
  next
    case False
    then have "\<nexists>t. header_Get h ''Authorization'' = ''Bearer '' @ t" unfolding p .
    then show ?thesis using False unfolding Authorized_def by metis
  qed
qed

section \<open>The environment\<close>

record control_Config =
  co_ListenAddr :: string
  co_DatabaseURL :: string
  co_AdminAPIKey :: string
  co_GatewayAPIKey :: string
  co_CORSAllowedOrigins :: "string list"
  co_RequestBodyLimit :: int
  co_ClickHouseURL :: string
  co_ClickHouseDatabase :: string
  co_ClickHouseUsername :: string
  co_ClickHousePassword :: string
  co_DBPingTimeout :: int

definition getenv :: "(string \<Rightarrow> string) \<Rightarrow> string \<Rightarrow> string \<Rightarrow> string" where
  "getenv env name fallback = (if env name \<noteq> [] then env name else fallback)"

text \<open>The loop over the characters; \<^term>\<open>None\<close> is the early return of the fallback.\<close>

fun parse_digits :: "int \<Rightarrow> string \<Rightarrow> int option" where
  "parse_digits parsed [] = Some parsed"
| "parse_digits parsed (c # s) =
     (if byte c < 48 \<or> 57 < byte c then None else parse_digits (wrap64 (wrap64 (parsed * 10) + int (byte c - 48))) s)"

definition getenvInt64 :: "(string \<Rightarrow> string) \<Rightarrow> string \<Rightarrow> int \<Rightarrow> int" where
  "getenvInt64 env name fallback =
     (if env name = [] then fallback
      else (case parse_digits 0 (env name) of
          None \<Rightarrow> fallback
        | Some parsed \<Rightarrow> if parsed \<le> 0 then fallback else parsed))"

definition config_space :: "char \<Rightarrow> bool" where
  "config_space c \<longleftrightarrow> byte c \<in> {32, 9, 10, 13}"

definition config_trimSpace :: "string \<Rightarrow> string" where
  "config_trimSpace v = rev (dropWhile config_space (rev (dropWhile config_space v)))"

definition csv_item :: "string \<Rightarrow> string list" where
  "csv_item piece = (if config_trimSpace piece = [] then [] else [config_trimSpace piece])"

fun csv_loop :: "string \<Rightarrow> string \<Rightarrow> string list" where
  "csv_loop cur [] = csv_item cur"
| "csv_loop cur (c # s) = (if c = CHR '','' then csv_item cur @ csv_loop [] s else csv_loop (cur @ [c]) s)"

definition splitCSV :: "string \<Rightarrow> string list" where
  "splitCSV v = (if v = [] then [] else csv_loop [] v)"

definition Load :: "(string \<Rightarrow> string) \<Rightarrow> control_Config" where
  "Load env =
     (let cfg = \<lparr>co_ListenAddr = getenv env ''BEDEMWAF_CONTROL_API_ADDR'' '':8081'', co_DatabaseURL = env ''BEDEMWAF_DATABASE_URL'',
        co_AdminAPIKey = env ''BEDEMWAF_ADMIN_API_KEY'', co_GatewayAPIKey = env ''BEDEMWAF_GATEWAY_API_KEY'',
        co_CORSAllowedOrigins = splitCSV (getenv env ''BEDEMWAF_CORS_ALLOWED_ORIGINS'' ''http://localhost:3000,http://127.0.0.1:3000''),
        co_RequestBodyLimit = getenvInt64 env ''BEDEMWAF_REQUEST_BODY_LIMIT_BYTES'' 1048576,
        co_ClickHouseURL = getenv env ''BEDEMWAF_CLICKHOUSE_URL'' ''http://localhost:8123'',
        co_ClickHouseDatabase = getenv env ''BEDEMWAF_CLICKHOUSE_DATABASE'' ''bedemwaf'',
        co_ClickHouseUsername = env ''BEDEMWAF_CLICKHOUSE_USERNAME'', co_ClickHousePassword = env ''BEDEMWAF_CLICKHOUSE_PASSWORD'',
        co_DBPingTimeout = 2000000000\<rparr>
      in if co_DatabaseURL cfg = [] then cfg\<lparr>co_DatabaseURL := env ''DATABASE_URL''\<rparr> else cfg)"

section \<open>Facts\<close>

lemma wrap64_cong:
  assumes "x mod 18446744073709551616 = y mod 18446744073709551616"
  shows "wrap64 x = wrap64 y"
  unfolding wrap64_def by (rule arg_cong [of _ _ "\<lambda>z. z - 9223372036854775808"], rule mod_add_cong [OF assms refl])

lemma wrap64_mod: "wrap64 x mod 18446744073709551616 = x mod 18446744073709551616"
  by (simp add: wrap64_def mod_diff_left_eq)

lemma wrap64_step: "wrap64 (wrap64 (wrap64 x * 10) + y) = wrap64 (x * 10 + y)"
proof (rule wrap64_cong, rule mod_add_cong [OF _ refl])
  show "wrap64 (wrap64 x * 10) mod 18446744073709551616 = x * 10 mod 18446744073709551616"
    unfolding wrap64_mod by (rule mod_mult_cong [OF wrap64_mod refl])
qed

lemma parse_digits_value:
  "parse_digits (wrap64 n) s = (if list_all is_digit_char s then Some (wrap64 (foldl (\<lambda>n c. n * 10 + int (byte c - 48)) n s)) else None)"
proof (induction s arbitrary: n)
  case (Cons c s)
  then show ?case by (simp add: wrap64_step is_digit_char_def ascii_digit_def)
qed simp

lemma foldl_digits: "foldl (\<lambda>n c. n * 10 + int (byte c - 48)) (int k) s = int (foldl (\<lambda>n c. n * 10 + (byte c - 48)) k s)"
proof (induction s arbitrary: k)
  case (Cons c s)
  then show ?case using Cons [of "k * 10 + (byte c - 48)"] by simp
qed simp

text \<open>The integer setting.  A variable of decimal digits is read modulo \<open>2^64\<close>; the fallback is used for an unset variable,
  for any other character, and when the wrapped value is not positive.  So the setting is always positive, and it is the
  written number whenever that fits into 63 bits.\<close>

theorem getenvInt64_value:
  "getenvInt64 env name fallback =
     (if env name \<noteq> [] \<and> list_all is_digit_char (env name) \<and> 0 < wrap64 (int (read_nat (env name)))
      then wrap64 (int (read_nat (env name))) else fallback)"
proof -
  have "parse_digits 0 (env name) = (if list_all is_digit_char (env name) then Some (wrap64 (int (read_nat (env name)))) else None)"
    using parse_digits_value [of 0 "env name"] foldl_digits [of 0 "env name"] by (simp add: read_nat_def wrap64_def)
  then show ?thesis by (simp add: getenvInt64_def)
qed

lemma getenvInt64_wraps: "getenvInt64 (\<lambda>_. ''18446744073709551617'') name 1048576 = 1"
  by (simp add: getenvInt64_value list_all_iff is_digit_char_def ascii_digit_def) (simp add: read_nat_def wrap64_def)

text \<open>The loop of \<open>splitCSV\<close> gives the non-blank pieces between the commas.\<close>

lemma csv_loop_pieces: "CHR '','' \<notin> set cur \<Longrightarrow> csv_loop cur s = concat (map csv_item (split_on CHR '','' (cur @ s)))"
proof (induction cur s rule: csv_loop.induct)
  case (1 cur)
  then show ?case by (simp add: split_on_id)
next
  case (2 cur c s)
  show ?case using 2 split_on_append [OF 2(3), of s] by (cases "c = CHR '',''") auto
qed

lemma splitCSV_pieces: "splitCSV v = filter (\<lambda>x. x \<noteq> []) (map config_trimSpace (split_on CHR '','' v))"
proof -
  have "concat (map csv_item ps) = filter (\<lambda>x. x \<noteq> []) (map config_trimSpace ps)" for ps by (induction ps) (simp_all add: csv_item_def)
  then show ?thesis using csv_loop_pieces [of "[]" v] by (auto simp: splitCSV_def config_trimSpace_def)
qed

end
