(* ===== verification/Control_Api.thy ===== *)
theory Control_Api
  imports Control_Db Control_Events Control_Config
begin

text \<open>
  The HTTP interface of the control plane (\<open>services/control-api/internal/httpapi/server.go\<close> and \<open>middleware.go\<close>).
  A request is its method, path segments, headers, query, body and the values the middleware put into its context; a
  response body is the Go value that is encoded.  The repository and the event store are records of functions over a
  state, the interfaces \<open>db.Repository\<close> and \<open>events.Store\<close>; a handler takes the state and the response writer and
  returns them with the value of a panic, if there was one.  The reading of JSON texts is the function \<open>sv_read\<close>, one
  step of \<open>json.Decoder\<close>: a value and the rest.  A raw member that was decoded is a value, so \<open>validateJSON\<close> accepts it
  and has no branch here.  Times count from the zero time of Go.  Deadlines, the log and the redirects of \<open>http.ServeMux\<close> for paths that
  are not clean are not modelled.
\<close>

section \<open>Responses\<close>

datatype message = Message string | ValidationMessage validation_error | EventsMessage events_error

datatype payload =
    ErrorBody string message string
  | StatusBody string
  | MetricsBody
  | TenantsBody "models_Tenant list"
  | TenantBody models_Tenant
  | AppsBody "models_App list"
  | AppBody models_App
  | PoliciesBody "models_Policy list"
  | PolicyBody models_Policy
  | PublishedBody PublishPolicyResponse
  | GatewayBody GatewayPolicy
  | SimulationBody string int int "SimulationRuleSummary list"
  | RuleSetsBody "ManagedRuleSet list"
  | RuleVersionsBody "ManagedRuleVersion list"
  | ActivatedBody ActivateManagedRuleVersionResponse
  | EventsBody "events_Event list"
  | EventBody events_Event

text \<open>The response writer: the headers, the status once it is written, and the values written to the body.\<close>

record writer =
  wr_header :: http_header
  wr_status :: "int option"
  wr_body :: "payload list"
  wr_observed :: "(string \<times> int) list"

definition set_header :: "string \<Rightarrow> string \<Rightarrow> writer \<Rightarrow> writer" where
  "set_header k v w = (if wr_status w = None then w\<lparr>wr_header := header_Set (wr_header w) k v\<rparr> else w)"

definition write_header :: "int \<Rightarrow> writer \<Rightarrow> writer" where
  "write_header code w = (if wr_status w = None then w\<lparr>wr_status := Some code\<rparr> else w)"

record api_request =
  aq_method :: string
  aq_segments :: "string list"
  aq_header :: http_header
  aq_query :: url_values
  aq_body :: string
  aq_random :: "string option"
  aq_clock :: string
  aq_request_id :: string
  aq_tenant :: string

definition writeJSON :: "int \<Rightarrow> payload \<Rightarrow> writer \<Rightarrow> writer" where
  "writeJSON status v w =
     (let w' = write_header status (set_header ''Content-Type'' ''application/json'' w) in w'\<lparr>wr_body := wr_body w' @ [v]\<rparr>)"

definition writeError :: "api_request \<Rightarrow> int \<Rightarrow> string \<Rightarrow> message \<Rightarrow> writer \<Rightarrow> writer" where
  "writeError r status code msg = writeJSON status (ErrorBody code msg (aq_request_id r))"

section \<open>The server\<close>

record 's Repository =
  re_Ping :: "'s \<Rightarrow> bool"
  re_ListTenants :: "'s \<Rightarrow> db_error + models_Tenant list"
  re_CreateTenant :: "CreateTenantRequest \<Rightarrow> 's \<Rightarrow> (db_error + models_Tenant) \<times> 's"
  re_ListApps :: "string \<Rightarrow> 's \<Rightarrow> db_error + models_App list"
  re_CreateApp :: "CreateAppRequest \<Rightarrow> URL \<Rightarrow> 's \<Rightarrow> (db_error + models_App) \<times> 's"
  re_GetApp :: "string \<Rightarrow> string \<Rightarrow> 's \<Rightarrow> db_error + models_App"
  re_UpdateApp :: "string \<Rightarrow> string \<Rightarrow> UpdateAppRequest \<Rightarrow> URL option \<Rightarrow> 's \<Rightarrow> (db_error + models_App) \<times> 's"
  re_ListPoliciesByApp :: "string \<Rightarrow> string \<Rightarrow> 's \<Rightarrow> db_error + models_Policy list"
  re_CreatePolicy :: "string \<Rightarrow> string \<Rightarrow> CreatePolicyRequest \<Rightarrow> 's \<Rightarrow> (db_error + models_Policy) \<times> 's"
  re_GetPolicy :: "string \<Rightarrow> string \<Rightarrow> 's \<Rightarrow> db_error + models_Policy"
  re_UpdatePolicy :: "string \<Rightarrow> string \<Rightarrow> UpdatePolicyRequest \<Rightarrow> 's \<Rightarrow> (db_error + models_Policy) \<times> 's"
  re_PublishPolicy :: "string \<Rightarrow> string \<Rightarrow> 's \<Rightarrow> (db_error + PublishPolicyResponse) \<times> 's"
  re_GetActivePolicyByApp :: "string \<Rightarrow> string \<Rightarrow> 's \<Rightarrow> db_error + GatewayPolicy"
  re_GetGatewayPolicyByHostname :: "string \<Rightarrow> 's \<Rightarrow> db_error + GatewayPolicy"
  re_ListManagedRuleSets :: "'s \<Rightarrow> db_error + ManagedRuleSet list"
  re_ListManagedRuleVersions :: "string \<Rightarrow> 's \<Rightarrow> db_error + ManagedRuleVersion list"
  re_ActivateManagedRuleVersion :: "string \<Rightarrow> string \<Rightarrow> 's \<Rightarrow> db_error + ActivateManagedRuleVersionResponse"

record 's EventStore =
  es_Search :: "SearchFilters \<Rightarrow> 's \<Rightarrow> 's \<times> (events_error + events_Event list)"
  es_GetByRequestID :: "string \<Rightarrow> string \<Rightarrow> 's \<Rightarrow> 's \<times> (events_error + events_Event)"

record 's api_Server =
  sv_repo :: "'s Repository"
  sv_eventStore :: "'s EventStore"
  sv_adminAuth :: StaticBearer
  sv_gatewayAuth :: StaticBearer
  sv_requestBodyLimitBytes :: int
  sv_corsAllowedOrigins :: "string list"
  sv_unicode :: unicode
  sv_unrfc :: "string \<Rightarrow> int option"
  sv_read :: "string \<Rightarrow> (json \<times> string) option"

record SecurityConfig =
  sc_RequestBodyLimitBytes :: int
  sc_CORSAllowedOrigins :: "string list"

definition ConfigureSecurity :: "SecurityConfig \<Rightarrow> 's api_Server \<Rightarrow> 's api_Server" where
  "ConfigureSecurity cfg s =
     (let s1 = (if 0 < sc_RequestBodyLimitBytes cfg then s\<lparr>sv_requestBodyLimitBytes := sc_RequestBodyLimitBytes cfg\<rparr> else s)
      in if sc_CORSAllowedOrigins cfg = [] then s1
         else s1\<lparr>sv_corsAllowedOrigins := filter (\<lambda>origin. origin \<noteq> [] \<and> origin \<noteq> ''*'') (map strings_TrimSpace (sc_CORSAllowedOrigins cfg))\<rparr>)"

definition NewServer ::
  "'s Repository \<Rightarrow> 's EventStore \<Rightarrow> StaticBearer \<Rightarrow> StaticBearer \<Rightarrow> unicode \<Rightarrow> (string \<Rightarrow> int option) \<Rightarrow> (string \<Rightarrow> (json \<times> string) option) \<Rightarrow> 's api_Server" where
  "NewServer repo store admin gateway U unrfc read =
     ConfigureSecurity \<lparr>sc_RequestBodyLimitBytes = 0, sc_CORSAllowedOrigins = [''http://localhost:3000'', ''http://127.0.0.1:3000'']\<rparr>
       \<lparr>sv_repo = repo, sv_eventStore = store, sv_adminAuth = admin, sv_gatewayAuth = gateway, sv_requestBodyLimitBytes = 1048576,
        sv_corsAllowedOrigins = [], sv_unicode = U, sv_unrfc = unrfc, sv_read = read\<rparr>"

type_synonym 's handler = "api_request \<Rightarrow> 's \<Rightarrow> writer \<Rightarrow> 's \<times> writer \<times> string option"

section \<open>Request bodies\<close>

definition create_tenant_fields :: "CreateTenantRequest json_fields" where
  "create_tenant_fields =
     [(''name'', \<lambda>j r. map_option (\<lambda>x. r\<lparr>ct_Name := x\<rparr>) (json_string j (ct_Name r))),
      (''slug'', \<lambda>j r. map_option (\<lambda>x. r\<lparr>ct_Slug := x\<rparr>) (json_string j (ct_Slug r))),
      (''metadata'', \<lambda>j r. Some (r\<lparr>ct_Metadata := Some j\<rparr>))]"

definition string_items :: "json \<Rightarrow> string list \<Rightarrow> string list option" where
  "string_items = json_slice json_string []"

definition create_app_fields :: "CreateAppRequest json_fields" where
  "create_app_fields =
     [(''tenant_id'', \<lambda>j r. map_option (\<lambda>x. r\<lparr>ca_TenantID := x\<rparr>) (json_string j (ca_TenantID r))),
      (''name'', \<lambda>j r. map_option (\<lambda>x. r\<lparr>ca_Name := x\<rparr>) (json_string j (ca_Name r))),
      (''slug'', \<lambda>j r. map_option (\<lambda>x. r\<lparr>ca_Slug := x\<rparr>) (json_string j (ca_Slug r))),
      (''hostnames'', \<lambda>j r. map_option (\<lambda>x. r\<lparr>ca_Hostnames := x\<rparr>) (string_items j (ca_Hostnames r))),
      (''origin_url'', \<lambda>j r. map_option (\<lambda>x. r\<lparr>ca_OriginURL := x\<rparr>) (json_string j (ca_OriginURL r))),
      (''metadata'', \<lambda>j r. Some (r\<lparr>ca_Metadata := Some j\<rparr>))]"

definition update_app_fields :: "UpdateAppRequest json_fields" where
  "update_app_fields =
     [(''name'', \<lambda>j r. map_option (\<lambda>x. r\<lparr>ua_Name := x\<rparr>) (json_ptr json_string [] j (ua_Name r))),
      (''hostnames'', \<lambda>j r. map_option (\<lambda>x. r\<lparr>ua_Hostnames := x\<rparr>) (string_items j (ua_Hostnames r))),
      (''origin_url'', \<lambda>j r. map_option (\<lambda>x. r\<lparr>ua_OriginURL := x\<rparr>) (json_ptr json_string [] j (ua_OriginURL r))),
      (''status'', \<lambda>j r. map_option (\<lambda>x. r\<lparr>ua_Status := x\<rparr>) (json_ptr json_string [] j (ua_Status r))),
      (''metadata'', \<lambda>j r. Some (r\<lparr>ua_Metadata := Some j\<rparr>))]"

definition create_policy_fields :: "CreatePolicyRequest json_fields" where
  "create_policy_fields =
     [(''name'', \<lambda>j r. map_option (\<lambda>x. r\<lparr>cp_Name := x\<rparr>) (json_string j (cp_Name r))),
      (''mode'', \<lambda>j r. map_option (\<lambda>x. r\<lparr>cp_Mode := x\<rparr>) (json_string j (cp_Mode r))),
      (''snapshot'', \<lambda>j r. Some (r\<lparr>cp_Snapshot := Some j\<rparr>))]"

definition update_policy_fields :: "(string \<Rightarrow> int option) \<Rightarrow> UpdatePolicyRequest json_fields" where
  "update_policy_fields unrfc =
     [(''name'', \<lambda>j r. map_option (\<lambda>x. r\<lparr>up_Name := x\<rparr>) (json_ptr json_string [] j (up_Name r))),
      (''mode'', \<lambda>j r. map_option (\<lambda>x. r\<lparr>up_Mode := x\<rparr>) (json_ptr json_string [] j (up_Mode r))),
      (''enabled'', \<lambda>j r. map_option (\<lambda>x. r\<lparr>up_Enabled := x\<rparr>) (json_ptr json_bool False j (up_Enabled r))),
      (''snapshot'', \<lambda>j r. Some (r\<lparr>up_Snapshot := Some j\<rparr>)),
      (''expected_updated_at'', \<lambda>j r. map_option (\<lambda>x. r\<lparr>up_ExpectedUpdatedAt := x\<rparr>) (json_time unrfc j (up_ExpectedUpdatedAt r)))]"

text \<open>White space of JSON, after which the decoder reports the end of the text.\<close>

definition json_blank :: "string \<Rightarrow> bool" where
  "json_blank s \<longleftrightarrow> list_all (\<lambda>c. byte c \<in> {32, 9, 10, 13}) s"

text \<open>\<open>requestSizeLimitMiddleware\<close> and \<open>decodeJSON\<close> both wrap the body into an \<open>http.MaxBytesReader\<close>.\<close>

definition body_limit :: "'s api_Server \<Rightarrow> nat" where
  "body_limit s = (if 0 < sv_requestBodyLimitBytes s then min (nat (sv_requestBodyLimitBytes s)) 1048576 else 1048576)"

definition decodeJSON :: "'s api_Server \<Rightarrow> 'r json_fields \<Rightarrow> 'r \<Rightarrow> api_request \<Rightarrow> message + 'r" where
  "decodeJSON s fs zero r =
     (case sv_read s (take (body_limit s) (aq_body r)) of
        None \<Rightarrow> Inl (Message ''request body must be valid JSON'')
      | Some (j, rest) \<Rightarrow>
          (case json_struct (sv_unicode s) True fs j zero of
             None \<Rightarrow> Inl (Message ''request body must be valid JSON'')
           | Some v \<Rightarrow>
               if json_blank rest \<and> length (aq_body r) \<le> body_limit s then Inr v
               else Inl (Message ''request body must contain a single JSON object'')))"

section \<open>Errors and guards\<close>

definition internalError :: "api_request \<Rightarrow> writer \<Rightarrow> writer" where
  "internalError r = writeError r 500 ''internal_error'' (Message ''internal server error'')"

definition handleReadError :: "api_request \<Rightarrow> db_error \<Rightarrow> writer \<Rightarrow> writer" where
  "handleReadError r e =
     (case e of
        ErrNotFound \<Rightarrow> writeError r 404 ''not_found'' (Message ''resource not found'')
      | ErrConflict \<Rightarrow> writeError r 409 ''conflict'' (Message ''resource was modified; refresh and retry'')
      | DbError \<Rightarrow> internalError r)"

definition bad_request :: "api_request \<Rightarrow> message \<Rightarrow> writer \<Rightarrow> writer" where
  "bad_request r msg = writeError r 400 ''invalid_request'' msg"

definition ret :: "'s \<Rightarrow> writer \<Rightarrow> 's \<times> writer \<times> string option" where
  "ret st w = (st, w, None)"

definition requireAuth :: "'s api_Server \<Rightarrow> 's handler \<Rightarrow> 's handler" where
  "requireAuth s next r st w =
     (if \<not> Authorized (sv_adminAuth s) (aq_header r)
      then ret st (writeError r 401 ''unauthorized'' (Message ''missing or invalid bearer token'') w)
      else next r st w)"

definition requireGatewayAuth :: "'s api_Server \<Rightarrow> 's handler \<Rightarrow> 's handler" where
  "requireGatewayAuth s next r st w =
     (if \<not> Authorized (sv_gatewayAuth s) (aq_header r)
      then ret st (writeError r 401 ''unauthorized'' (Message ''missing or invalid gateway bearer token'') w)
      else next r st w)"

definition requireTenant :: "'s handler \<Rightarrow> 's handler" where
  "requireTenant next r st w =
     (let headerTenantID = strings_TrimSpace (header_Get (aq_header r) ''X-Bedem-Tenant-ID'');
          queryTenantID = strings_TrimSpace (values_Get (aq_query r) ''tenant_id'');
          tenantID = (if headerTenantID = [] then queryTenantID else headerTenantID)
      in if headerTenantID \<noteq> [] \<and> queryTenantID \<noteq> [] \<and> headerTenantID \<noteq> queryTenantID
         then ret st (bad_request r (Message ''tenant_id query parameter must match tenant context'') w)
         else if tenantID = [] then ret st (writeError r 400 ''tenant_required'' (Message ''tenant context is required'') w)
         else next (r\<lparr>aq_tenant := tenantID\<rparr>) st w)"

section \<open>Handlers\<close>

definition healthz :: "'s handler" where
  "healthz r st w = ret st (writeJSON 200 (StatusBody ''ok'') w)"

definition readyz :: "'s api_Server \<Rightarrow> 's handler" where
  "readyz s r st w =
     (if re_Ping (sv_repo s) st then ret st (writeJSON 200 (StatusBody ''ready'') w)
      else ret st (writeError r 503 ''not_ready'' (Message ''database is unavailable'') w))"

text \<open>The two ways a handler ends after a read of the repository.\<close>

definition answer_list :: "('a \<Rightarrow> payload) \<Rightarrow> db_error + 'a \<Rightarrow> 's handler" where
  "answer_list wrap res r st w =
     (case res of Inl e \<Rightarrow> ret st (internalError r w) | Inr x \<Rightarrow> ret st (writeJSON 200 (wrap x) w))"

definition answer_read :: "int \<Rightarrow> ('a \<Rightarrow> payload) \<Rightarrow> db_error + 'a \<Rightarrow> 's handler" where
  "answer_read status wrap res r st w =
     (case res of Inl e \<Rightarrow> ret st (handleReadError r e w) | Inr x \<Rightarrow> ret st (writeJSON status (wrap x) w))"

definition listTenants :: "'s api_Server \<Rightarrow> 's handler" where
  "listTenants s r st = answer_list TenantsBody (re_ListTenants (sv_repo s) st) r st"

definition createTenant :: "'s api_Server \<Rightarrow> 's handler" where
  "createTenant s r st w =
     (case decodeJSON s create_tenant_fields \<lparr>ct_Name = [], ct_Slug = [], ct_Metadata = None\<rparr> r of
        Inl msg \<Rightarrow> ret st (writeError r 400 ''invalid_json'' msg w)
      | Inr body \<Rightarrow>
          let req = body\<lparr>ct_Name := strings_TrimSpace (ct_Name body), ct_Slug := strings_TrimSpace (ct_Slug body)\<rparr> in
          if ct_Name req = [] then ret st (bad_request r (Message ''name is required'') w)
          else (case validateSlug (ct_Slug req) of
              Some e \<Rightarrow> ret st (bad_request r (ValidationMessage e) w)
            | None \<Rightarrow>
                (case re_CreateTenant (sv_repo s) req st of
                   (Inl e, st') \<Rightarrow> ret st' (internalError r w)
                 | (Inr t, st') \<Rightarrow> ret st' (writeJSON 201 (TenantBody t) w))))"

definition listApps :: "'s api_Server \<Rightarrow> 's handler" where
  "listApps s r st = answer_list AppsBody (re_ListApps (sv_repo s) (aq_tenant r) st) r st"

definition validateCreateApp :: "unicode \<Rightarrow> CreateAppRequest \<Rightarrow> message + CreateAppRequest \<times> URL" where
  "validateCreateApp U body =
     (let req = body\<lparr>ca_TenantID := strings_TrimSpace (ca_TenantID body), ca_Name := strings_TrimSpace (ca_Name body),
                     ca_Slug := strings_TrimSpace (ca_Slug body)\<rparr> in
      if ca_TenantID req = [] \<or> ca_Name req = [] then Inl (Message ''tenant_id and name are required'')
      else (case validateSlug (ca_Slug req) of Some e \<Rightarrow> Inl (ValidationMessage e)
      | None \<Rightarrow> (case validateHostnames U (ca_Hostnames req) of Some e \<Rightarrow> Inl (ValidationMessage e)
      | None \<Rightarrow> (case parseOriginURL (ca_OriginURL req) of Inl e \<Rightarrow> Inl (ValidationMessage e)
      | Inr u \<Rightarrow> Inr (req, u)))))"

definition createApp :: "'s api_Server \<Rightarrow> 's handler" where
  "createApp s r st w =
     (case decodeJSON s create_app_fields \<lparr>ca_TenantID = [], ca_Name = [], ca_Slug = [], ca_Hostnames = [], ca_OriginURL = [], ca_Metadata = None\<rparr> r of
        Inl msg \<Rightarrow> ret st (writeError r 400 ''invalid_json'' msg w)
      | Inr body \<Rightarrow>
          let given = strings_TrimSpace (ca_TenantID body) in
          if given \<noteq> [] \<and> given \<noteq> aq_tenant r then ret st (bad_request r (Message ''tenant_id must match tenant context'') w)
          else (case validateCreateApp (sv_unicode s) (body\<lparr>ca_TenantID := (if given = [] then aq_tenant r else given)\<rparr>) of
              Inl msg \<Rightarrow> ret st (bad_request r msg w)
            | Inr (req, originURL) \<Rightarrow>
                (case re_CreateApp (sv_repo s) req originURL st of
                   (Inl e, st') \<Rightarrow> ret st' (internalError r w)
                 | (Inr app, st') \<Rightarrow> ret st' (writeJSON 201 (AppBody app) w))))"

definition getApp :: "'s api_Server \<Rightarrow> string \<Rightarrow> 's handler" where
  "getApp s app_id r st = answer_read 200 AppBody (re_GetApp (sv_repo s) (aq_tenant r) app_id st) r st"

definition validatePatchApp :: "unicode \<Rightarrow> UpdateAppRequest \<Rightarrow> message + UpdateAppRequest \<times> URL option" where
  "validatePatchApp U body =
     (let req = body\<lparr>ua_Name := map_option strings_TrimSpace (ua_Name body)\<rparr> in
      if ua_Name req = Some [] then Inl (Message ''name cannot be empty'')
      else (case (if ua_Hostnames req = [] then None else validateHostnames U (ua_Hostnames req)) of Some e \<Rightarrow> Inl (ValidationMessage e)
      | None \<Rightarrow>
          if ua_Status req \<notin> {None, Some ''active'', Some ''disabled''} then Inl (Message ''status must be active or disabled'')
          else (case ua_OriginURL req of
              None \<Rightarrow> Inr (req, None)
            | Some raw \<Rightarrow> (case parseOriginURL raw of Inl e \<Rightarrow> Inl (ValidationMessage e) | Inr u \<Rightarrow> Inr (req, Some u)))))"

definition patchApp :: "'s api_Server \<Rightarrow> string \<Rightarrow> 's handler" where
  "patchApp s app_id r st w =
     (case decodeJSON s update_app_fields \<lparr>ua_Name = None, ua_Hostnames = [], ua_OriginURL = None, ua_Status = None, ua_Metadata = None\<rparr> r of
        Inl msg \<Rightarrow> ret st (writeError r 400 ''invalid_json'' msg w)
      | Inr body \<Rightarrow>
          (case validatePatchApp (sv_unicode s) body of
             Inl msg \<Rightarrow> ret st (bad_request r msg w)
           | Inr (req, parsedOrigin) \<Rightarrow>
               (case re_UpdateApp (sv_repo s) (aq_tenant r) app_id req parsedOrigin st of
                  (Inl e, st') \<Rightarrow> ret st' (handleReadError r e w)
                | (Inr app, st') \<Rightarrow> ret st' (writeJSON 200 (AppBody app) w))))"

definition listPolicies :: "'s api_Server \<Rightarrow> string \<Rightarrow> 's handler" where
  "listPolicies s app_id r st = answer_list PoliciesBody (re_ListPoliciesByApp (sv_repo s) (aq_tenant r) app_id st) r st"

definition createPolicy :: "'s api_Server \<Rightarrow> string \<Rightarrow> 's handler" where
  "createPolicy s app_id r st w =
     (case decodeJSON s create_policy_fields \<lparr>cp_Name = [], cp_Mode = [], cp_Snapshot = None\<rparr> r of
        Inl msg \<Rightarrow> ret st (writeError r 400 ''invalid_json'' msg w)
      | Inr body \<Rightarrow>
          let req = body\<lparr>cp_Name := strings_TrimSpace (cp_Name body), cp_Mode := (if cp_Mode body = [] then ''count'' else cp_Mode body)\<rparr> in
          if cp_Name req = [] then ret st (bad_request r (Message ''name is required'') w)
          else (case validateMode (cp_Mode req) of Some e \<Rightarrow> ret st (bad_request r (ValidationMessage e) w)
          | None \<Rightarrow> (case validatePolicySnapshot (sv_unicode s) (cp_Snapshot req) of Some e \<Rightarrow> ret st (bad_request r (ValidationMessage e) w)
          | None \<Rightarrow>
              (case re_CreatePolicy (sv_repo s) (aq_tenant r) app_id req st of
                 (Inl e, st') \<Rightarrow> ret st' (handleReadError r e w)
               | (Inr p, st') \<Rightarrow> ret st' (writeJSON 201 (PolicyBody p) w)))))"

definition getPolicy :: "'s api_Server \<Rightarrow> string \<Rightarrow> 's handler" where
  "getPolicy s policy_id r st = answer_read 200 PolicyBody (re_GetPolicy (sv_repo s) (aq_tenant r) policy_id st) r st"

definition validateUpdatePolicy :: "unicode \<Rightarrow> UpdatePolicyRequest \<Rightarrow> message + UpdatePolicyRequest" where
  "validateUpdatePolicy U body =
     (let req = body\<lparr>up_Name := map_option strings_TrimSpace (up_Name body)\<rparr> in
      if up_ExpectedUpdatedAt req = 0 then Inl (Message ''expected_updated_at is required for optimistic locking'')
      else if up_Name req = Some [] then Inl (Message ''name cannot be empty'')
      else (case (case up_Mode req of None \<Rightarrow> None | Some m \<Rightarrow> validateMode m) of Some e \<Rightarrow> Inl (ValidationMessage e)
      | None \<Rightarrow> (case validatePolicySnapshot U (up_Snapshot req) of Some e \<Rightarrow> Inl (ValidationMessage e)
      | None \<Rightarrow> Inr req)))"

definition patchPolicy :: "'s api_Server \<Rightarrow> string \<Rightarrow> 's handler" where
  "patchPolicy s policy_id r st w =
     (case decodeJSON s (update_policy_fields (sv_unrfc s)) \<lparr>up_Name = None, up_Mode = None, up_Enabled = None, up_Snapshot = None, up_ExpectedUpdatedAt = 0\<rparr> r of
        Inl msg \<Rightarrow> ret st (writeError r 400 ''invalid_json'' msg w)
      | Inr body \<Rightarrow>
          (case validateUpdatePolicy (sv_unicode s) body of
             Inl msg \<Rightarrow> ret st (bad_request r msg w)
           | Inr req \<Rightarrow>
               (case re_UpdatePolicy (sv_repo s) (aq_tenant r) policy_id req st of
                  (Inl e, st') \<Rightarrow> ret st' (handleReadError r e w)
                | (Inr p, st') \<Rightarrow> ret st' (writeJSON 200 (PolicyBody p) w))))"

definition publishPolicy :: "'s api_Server \<Rightarrow> string \<Rightarrow> 's handler" where
  "publishPolicy s policy_id r st w =
     (case re_GetPolicy (sv_repo s) (aq_tenant r) policy_id st of
        Inl e \<Rightarrow> ret st (handleReadError r e w)
      | Inr policy \<Rightarrow>
          (case validatePolicySnapshot (sv_unicode s) (mp_Snapshot policy) of
             Some e \<Rightarrow> ret st (writeError r 400 ''invalid_policy'' (ValidationMessage e) w)
           | None \<Rightarrow>
               (case re_PublishPolicy (sv_repo s) (aq_tenant r) policy_id st of
                  (Inl e, st') \<Rightarrow> ret st' (handleReadError r e w)
                | (Inr p, st') \<Rightarrow> ret st' (writeJSON 201 (PublishedBody p) w))))"

definition getActivePolicy :: "'s api_Server \<Rightarrow> string \<Rightarrow> 's handler" where
  "getActivePolicy s app_id r st = answer_read 200 GatewayBody (re_GetActivePolicyByApp (sv_repo s) (aq_tenant r) app_id st) r st"

text \<open>The bounds of a search: a missing parameter is the zero time.\<close>

definition parse_bound :: "'s api_Server \<Rightarrow> url_values \<Rightarrow> string \<Rightarrow> string \<Rightarrow> message + int" where
  "parse_bound s vs name complaint =
     (if values_Get vs name = [] then Inr 0
      else (case sv_unrfc s (values_Get vs name) of None \<Rightarrow> Inl (Message complaint) | Some t \<Rightarrow> Inr t))"

definition with_bounds :: "'s api_Server \<Rightarrow> url_values \<Rightarrow> SearchFilters \<Rightarrow> message + SearchFilters" where
  "with_bounds s vs f =
     (case parse_bound s vs ''from'' ''from must be RFC3339'' of Inl m \<Rightarrow> Inl m
      | Inr from' \<Rightarrow> (case parse_bound s vs ''to'' ''to must be RFC3339'' of Inl m \<Rightarrow> Inl m
      | Inr to' \<Rightarrow>
          if from' \<noteq> 0 \<and> to' \<noteq> 0 \<and> to' < from' then Inl (Message ''from must be before to'')
          else Inr (f\<lparr>sf_From := from', sf_To := to'\<rparr>)))"

definition empty_filters :: "string \<Rightarrow> int \<Rightarrow> SearchFilters" where
  "empty_filters tenantID limit = \<lparr>sf_TenantID = tenantID, sf_AppID = [], sf_PolicyID = [], sf_Host = [], sf_Action = [], sf_ClientIP = [],
     sf_MatchedRuleID = [], sf_From = 0, sf_To = 0, sf_Limit = limit\<rparr>"

definition parseSimulationFilters :: "'s api_Server \<Rightarrow> api_request \<Rightarrow> string \<Rightarrow> string \<Rightarrow> message + SearchFilters" where
  "parseSimulationFilters s r tenantID policyID =
     (let p = strings_TrimSpace policyID in
      if p = [] then Inl (Message ''policy_id is required'')
      else with_bounds s (aq_query r) ((empty_filters tenantID MaxLimit)\<lparr>sf_PolicyID := p\<rparr>))"

definition getPolicySimulationSummary :: "'s api_Server \<Rightarrow> string \<Rightarrow> 's handler" where
  "getPolicySimulationSummary s policy_id r st w =
     (case parseSimulationFilters s r (aq_tenant r) policy_id of
        Inl msg \<Rightarrow> ret st (bad_request r msg w)
      | Inr f \<Rightarrow>
          (case es_Search (sv_eventStore s) f st of
             (st', Inl e) \<Rightarrow> ret st' (bad_request r (EventsMessage e) w)
           | (st', Inr found) \<Rightarrow>
               ret st' (writeJSON 200 (SimulationBody (sf_PolicyID f) (sf_From f) (sf_To f) (BuildSimulationSummary found)) w)))"

definition getGatewayPolicy :: "'s api_Server \<Rightarrow> string \<Rightarrow> 's handler" where
  "getGatewayPolicy s hostname r st w =
     (let host = strings_TrimSpace (strings_ToLower (sv_unicode s) hostname) in
      if validateDNSName host \<noteq> None then ret st (bad_request r (Message ''hostname is invalid'') w)
      else answer_read 200 GatewayBody (re_GetGatewayPolicyByHostname (sv_repo s) host st) r st w)"

definition listManagedRuleSets :: "'s api_Server \<Rightarrow> 's handler" where
  "listManagedRuleSets s r st = answer_list RuleSetsBody (re_ListManagedRuleSets (sv_repo s) st) r st"

definition listManagedRuleVersions :: "'s api_Server \<Rightarrow> string \<Rightarrow> 's handler" where
  "listManagedRuleVersions s i r st = answer_list RuleVersionsBody (re_ListManagedRuleVersions (sv_repo s) i st) r st"

definition activateManagedRuleVersion :: "'s api_Server \<Rightarrow> string \<Rightarrow> string \<Rightarrow> 's handler" where
  "activateManagedRuleVersion s i version_id r st = answer_read 202 ActivatedBody (re_ActivateManagedRuleVersion (sv_repo s) i version_id st) r st"

definition parse_limit :: "url_values \<Rightarrow> message + int" where
  "parse_limit vs =
     (if values_Get vs ''limit'' = [] then Inr DefaultLimit
      else (case strconv_Atoi (values_Get vs ''limit'') of
          None \<Rightarrow> Inl (Message ''limit must be between 1 and 1000'')
        | Some n \<Rightarrow> if n < 1 \<or> MaxLimit < n then Inl (Message ''limit must be between 1 and 1000'') else Inr n))"

definition parseEventFilters :: "'s api_Server \<Rightarrow> api_request \<Rightarrow> string \<Rightarrow> message + SearchFilters" where
  "parseEventFilters s r tenantID =
     (let vs = aq_query r; queryTenant = strings_TrimSpace (values_Get vs ''tenant_id'') in
      if queryTenant \<noteq> [] \<and> queryTenant \<noteq> tenantID then Inl (Message ''tenant_id query parameter must match tenant context'')
      else (case parse_limit vs of
          Inl m \<Rightarrow> Inl m
        | Inr limit \<Rightarrow>
            with_bounds s vs ((empty_filters tenantID limit)\<lparr>sf_AppID := values_Get vs ''app_id'', sf_Host := values_Get vs ''host'',
              sf_Action := values_Get vs ''action'', sf_ClientIP := values_Get vs ''client_ip'', sf_MatchedRuleID := values_Get vs ''matched_rule_id''\<rparr>)))"

definition listEvents :: "'s api_Server \<Rightarrow> 's handler" where
  "listEvents s r st w =
     (case parseEventFilters s r (aq_tenant r) of
        Inl msg \<Rightarrow> ret st (bad_request r msg w)
      | Inr f \<Rightarrow>
          (case es_Search (sv_eventStore s) f st of
             (st', Inl e) \<Rightarrow> ret st' (bad_request r (EventsMessage e) w)
           | (st', Inr found) \<Rightarrow> ret st' (writeJSON 200 (EventsBody found) w)))"

definition getEvent :: "'s api_Server \<Rightarrow> string \<Rightarrow> 's handler" where
  "getEvent s event_id r st w =
     (case es_GetByRequestID (sv_eventStore s) (aq_tenant r) event_id st of
        (st', Inl EventNotFound) \<Rightarrow> ret st' (writeError r 404 ''not_found'' (Message ''event not found'') w)
      | (st', Inl e) \<Rightarrow> ret st' (internalError r w)
      | (st', Inr ev) \<Rightarrow> ret st' (writeJSON 200 (EventBody ev) w))"

section \<open>Routes\<close>

text \<open>A pattern of \<open>http.ServeMux\<close>: literal segments and wildcards.  No two patterns match the same path and method, and the
  pattern \<open>/\<close> takes what is left; a pattern for \<open>GET\<close> also takes \<open>HEAD\<close>.\<close>

datatype segment = Lit string | Wild

datatype guard = Public | AdminGlobal | AdminTenant | GatewayOnly

datatype endpoint =
    Healthz | Readyz | MetricsPage | ListTenantsE | CreateTenantE | ListAppsE | CreateAppE | GetAppE | PatchAppE | ListPoliciesE
  | CreatePolicyE | ActivePolicyE | GetPolicyE | PatchPolicyE | PublishPolicyE | SimulationE | ListRuleSetsE | ListRuleVersionsE
  | ActivateE | GatewayPolicyE | ListEventsE | GetEventE

definition route_table :: "(string \<times> segment list \<times> guard \<times> endpoint) list" where
  "route_table =
     [(''GET'', [Lit ''healthz''], Public, Healthz),
      (''GET'', [Lit ''readyz''], Public, Readyz),
      (''GET'', [Lit ''metrics''], Public, MetricsPage),
      (''GET'', [Lit ''v1'', Lit ''tenants''], AdminGlobal, ListTenantsE),
      (''POST'', [Lit ''v1'', Lit ''tenants''], AdminGlobal, CreateTenantE),
      (''GET'', [Lit ''v1'', Lit ''apps''], AdminTenant, ListAppsE),
      (''POST'', [Lit ''v1'', Lit ''apps''], AdminTenant, CreateAppE),
      (''GET'', [Lit ''v1'', Lit ''apps'', Wild], AdminTenant, GetAppE),
      (''PATCH'', [Lit ''v1'', Lit ''apps'', Wild], AdminTenant, PatchAppE),
      (''GET'', [Lit ''v1'', Lit ''apps'', Wild, Lit ''policies''], AdminTenant, ListPoliciesE),
      (''POST'', [Lit ''v1'', Lit ''apps'', Wild, Lit ''policies''], AdminTenant, CreatePolicyE),
      (''GET'', [Lit ''v1'', Lit ''apps'', Wild, Lit ''active-policy''], AdminTenant, ActivePolicyE),
      (''GET'', [Lit ''v1'', Lit ''policies'', Wild], AdminTenant, GetPolicyE),
      (''PATCH'', [Lit ''v1'', Lit ''policies'', Wild], AdminTenant, PatchPolicyE),
      (''POST'', [Lit ''v1'', Lit ''policies'', Wild, Lit ''publish''], AdminTenant, PublishPolicyE),
      (''GET'', [Lit ''v1'', Lit ''policies'', Wild, Lit ''simulation-summary''], AdminTenant, SimulationE),
      (''GET'', [Lit ''v1'', Lit ''managed-rule-sets''], AdminGlobal, ListRuleSetsE),
      (''GET'', [Lit ''v1'', Lit ''managed-rule-sets'', Wild, Lit ''versions''], AdminGlobal, ListRuleVersionsE),
      (''POST'', [Lit ''v1'', Lit ''managed-rule-sets'', Wild, Lit ''versions'', Wild, Lit ''activate''], AdminGlobal, ActivateE),
      (''GET'', [Lit ''v1'', Lit ''gateway'', Lit ''apps'', Wild, Lit ''policy''], GatewayOnly, GatewayPolicyE),
      (''GET'', [Lit ''v1'', Lit ''events''], AdminTenant, ListEventsE),
      (''GET'', [Lit ''v1'', Lit ''events'', Wild], AdminTenant, GetEventE)]"

fun match_path :: "segment list \<Rightarrow> string list \<Rightarrow> string list option" where
  "match_path [] [] = Some []"
| "match_path (Lit l # ps) (x # xs) = (if l = x then match_path ps xs else None)"
| "match_path (Wild # ps) (x # xs) = (if x = [] then None else map_option (Cons x) (match_path ps xs))"
| "match_path _ _ = None"

definition method_matches :: "string \<Rightarrow> string \<Rightarrow> bool" where
  "method_matches pat m \<longleftrightarrow> pat = m \<or> (pat = ''GET'' \<and> m = ''HEAD'')"

fun find_route :: "(string \<times> segment list \<times> guard \<times> endpoint) list \<Rightarrow> string \<Rightarrow> string list \<Rightarrow> (guard \<times> endpoint \<times> string list) option" where
  "find_route [] m xs = None"
| "find_route ((pat, ps, g, e) # rs) m xs =
     (if method_matches pat m then (case match_path ps xs of Some vals \<Rightarrow> Some (g, e, vals) | None \<Rightarrow> find_route rs m xs)
      else find_route rs m xs)"

definition endpoint_handler :: "'s api_Server \<Rightarrow> endpoint \<Rightarrow> string list \<Rightarrow> 's handler" where
  "endpoint_handler s e vals =
     (case e of
        Healthz \<Rightarrow> healthz
      | Readyz \<Rightarrow> readyz s
      | MetricsPage \<Rightarrow> (\<lambda>r st w. ret st (let w' = write_header 200 w in w'\<lparr>wr_body := wr_body w' @ [MetricsBody]\<rparr>))
      | ListTenantsE \<Rightarrow> listTenants s
      | CreateTenantE \<Rightarrow> createTenant s
      | ListAppsE \<Rightarrow> listApps s
      | CreateAppE \<Rightarrow> createApp s
      | GetAppE \<Rightarrow> getApp s (hd vals)
      | PatchAppE \<Rightarrow> patchApp s (hd vals)
      | ListPoliciesE \<Rightarrow> listPolicies s (hd vals)
      | CreatePolicyE \<Rightarrow> createPolicy s (hd vals)
      | ActivePolicyE \<Rightarrow> getActivePolicy s (hd vals)
      | GetPolicyE \<Rightarrow> getPolicy s (hd vals)
      | PatchPolicyE \<Rightarrow> patchPolicy s (hd vals)
      | PublishPolicyE \<Rightarrow> publishPolicy s (hd vals)
      | SimulationE \<Rightarrow> getPolicySimulationSummary s (hd vals)
      | ListRuleSetsE \<Rightarrow> listManagedRuleSets s
      | ListRuleVersionsE \<Rightarrow> listManagedRuleVersions s (hd vals)
      | ActivateE \<Rightarrow> activateManagedRuleVersion s (hd vals) (hd (tl vals))
      | GatewayPolicyE \<Rightarrow> getGatewayPolicy s (hd vals)
      | ListEventsE \<Rightarrow> listEvents s
      | GetEventE \<Rightarrow> getEvent s (hd vals))"

definition guarded :: "'s api_Server \<Rightarrow> guard \<Rightarrow> 's handler \<Rightarrow> 's handler" where
  "guarded s g h =
     (case g of
        Public \<Rightarrow> h
      | AdminGlobal \<Rightarrow> requireAuth s h
      | AdminTenant \<Rightarrow> requireAuth s (requireTenant h)
      | GatewayOnly \<Rightarrow> requireGatewayAuth s h)"

definition serve_mux :: "'s api_Server \<Rightarrow> 's handler" where
  "serve_mux s r st w =
     (case find_route route_table (aq_method r) (aq_segments r) of
        None \<Rightarrow> ret st (writeError r 404 ''not_found'' (Message ''route not found'') w)
      | Some (g, e, vals) \<Rightarrow> guarded s g (endpoint_handler s e vals) r st w)"

section \<open>Metrics\<close>

text \<open>The counters and the histogram of \<open>metrics.go\<close>; the histogram keeps the durations it was given.\<close>

record api_metrics =
  am_requests :: "string \<times> string \<Rightarrow> nat"
  am_durations :: "int list"
  am_errors :: "string \<Rightarrow> nat"

definition api_ObserveRequest :: "string \<Rightarrow> int \<Rightarrow> int \<Rightarrow> api_metrics \<Rightarrow> api_metrics" where
  "api_ObserveRequest method status duration m =
     (let s = strconv_Itoa status;
          m1 = m\<lparr>am_requests := (am_requests m)((method, s) := Suc (am_requests m (method, s))), am_durations := am_durations m @ [duration]\<rparr>
      in if 400 \<le> status then m1\<lparr>am_errors := (am_errors m1)(s := Suc (am_errors m1 s))\<rparr> else m1)"

section \<open>Middleware\<close>

definition newRequestID :: "api_request \<Rightarrow> string" where
  "newRequestID r = (case aq_random r of None \<Rightarrow> hex_EncodeToString (aq_clock r) | Some b \<Rightarrow> hex_EncodeToString b)"

definition requestIDMiddleware :: "'s handler \<Rightarrow> 's handler" where
  "requestIDMiddleware next r st w =
     (let given = strings_TrimSpace (header_Get (aq_header r) ''X-Request-ID'');
          requestID = (if given = [] then newRequestID r else given)
      in next (r\<lparr>aq_request_id := requestID\<rparr>) st (set_header ''X-Request-ID'' requestID w))"

text \<open>The recorder of \<open>loggingMiddleware\<close> has the status 200 until one is written; a panic skips the observation.\<close>

definition loggingMiddleware :: "'s handler \<Rightarrow> 's handler" where
  "loggingMiddleware next r st w =
     (case next r st w of
        (st', w', Some p) \<Rightarrow> (st', w', Some p)
      | (st', w', None) \<Rightarrow>
          ret st' (w'\<lparr>wr_observed := wr_observed w' @ [(aq_method r, case wr_status w' of None \<Rightarrow> 200 | Some c \<Rightarrow> c)]\<rparr>))"

definition secureHeaders :: "'s handler \<Rightarrow> 's handler" where
  "secureHeaders next r st w =
     next r st (set_header ''Referrer-Policy'' ''no-referrer'' (set_header ''X-Frame-Options'' ''DENY''
       (set_header ''X-Content-Type-Options'' ''nosniff'' w)))"

definition recoveryMiddleware :: "'s handler \<Rightarrow> 's handler" where
  "recoveryMiddleware next r st w =
     (case next r st w of
        (st', w', None) \<Rightarrow> ret st' w'
      | (st', w', Some p) \<Rightarrow> ret st' (internalError r w'))"

definition corsMiddleware :: "'s api_Server \<Rightarrow> 's handler \<Rightarrow> 's handler" where
  "corsMiddleware s next r st w =
     (let origin = header_Get (aq_header r) ''Origin'';
          w' = (if origin \<in> set (sv_corsAllowedOrigins s)
                then set_header ''Access-Control-Allow-Methods'' ''GET, POST, PATCH, OPTIONS''
                  (set_header ''Access-Control-Allow-Headers'' ''Authorization, Content-Type, X-Request-ID, X-Bedem-Tenant-ID''
                    (set_header ''Vary'' ''Origin'' (set_header ''Access-Control-Allow-Origin'' origin w)))
                else w)
      in if aq_method r = ''OPTIONS'' then ret st (write_header 204 w') else next r st w')"

definition Routes :: "'s api_Server \<Rightarrow> 's handler" where
  "Routes s = requestIDMiddleware (recoveryMiddleware (loggingMiddleware (corsMiddleware s (secureHeaders (serve_mux s)))))"

definition new_writer :: writer where
  "new_writer = \<lparr>wr_header = [], wr_status = None, wr_body = [], wr_observed = []\<rparr>"

section \<open>The program\<close>

text \<open>The repository over PostgreSQL at a moment, beside another state; \<open>up\<close> tells whether the database answers.\<close>

definition lift_read :: "(database \<Rightarrow> 'a) \<Rightarrow> database \<times> 'w \<Rightarrow> 'a" where
  "lift_read f s = f (fst s)"

definition lift_write :: "(database \<Rightarrow> 'a db_result) \<Rightarrow> database \<times> 'w \<Rightarrow> (db_error + 'a) \<times> (database \<times> 'w)" where
  "lift_write f s = (case f (fst s) of (x, db') \<Rightarrow> (x, (db', snd s)))"

definition PostgresRepository :: "backend \<Rightarrow> (string \<Rightarrow> nat list) \<Rightarrow> int \<Rightarrow> bool \<Rightarrow> (database \<times> 'w) Repository" where
  "PostgresRepository B collate now up =
     \<lparr>re_Ping = (\<lambda>_. up), re_ListTenants = lift_read (\<lambda>db. Inr (ListTenants db)),
      re_CreateTenant = (\<lambda>req. lift_write (CreateTenant B now req)), re_ListApps = (\<lambda>t. lift_read (ListApps B t)),
      re_CreateApp = (\<lambda>req u. lift_write (CreateApp B now req u)), re_GetApp = (\<lambda>t i. lift_read (GetApp B t i)),
      re_UpdateApp = (\<lambda>t i req u. lift_write (UpdateApp B now t i req u)),
      re_ListPoliciesByApp = (\<lambda>t i. lift_read (ListPoliciesByApp B t i)),
      re_CreatePolicy = (\<lambda>t i req. lift_write (CreatePolicy B now t i req)), re_GetPolicy = (\<lambda>t i. lift_read (GetPolicy B t i)),
      re_UpdatePolicy = (\<lambda>t i req. lift_write (UpdatePolicy B now t i req)),
      re_PublishPolicy = (\<lambda>t i. lift_write (PublishPolicy B now t i)),
      re_GetActivePolicyByApp = (\<lambda>t i. lift_read (GetActivePolicyByApp B t i)),
      re_GetGatewayPolicyByHostname = (\<lambda>h. lift_read (GetGatewayPolicyByHostname B h)),
      re_ListManagedRuleSets = lift_read (\<lambda>db. Inr (ListManagedRuleSets collate db)),
      re_ListManagedRuleVersions = (\<lambda>i. lift_read (ListManagedRuleVersions B i)),
      re_ActivateManagedRuleVersion = (\<lambda>i v. lift_read (ActivateManagedRuleVersion B i v))\<rparr>"

definition ClickHouseStore :: "'w event_env \<Rightarrow> HTTPStore \<Rightarrow> (database \<times> 'w) EventStore" where
  "ClickHouseStore E h =
     \<lparr>es_Search = (\<lambda>f s. case Search E h f (snd s) of (w, x) \<Rightarrow> ((fst s, w), x)),
      es_GetByRequestID = (\<lambda>t i s. case GetByRequestID E h t i (snd s) of (w, x) \<Rightarrow> ((fst s, w), x))\<rparr>"

datatype startup_error = AdminKeyRequired | GatewayKeyRequired | DatabaseConnect | EventStoreURL

text \<open>\<open>main\<close> up to the handler of the server; \<open>connect\<close> tells whether \<open>db.OpenPool\<close> reaches the database.\<close>

definition OpenPool :: "(string \<Rightarrow> bool) \<Rightarrow> string \<Rightarrow> bool" where
  "OpenPool connect databaseURL \<longleftrightarrow> databaseURL \<noteq> [] \<and> connect databaseURL"

definition control_api ::
  "(string \<Rightarrow> string) \<Rightarrow> (string \<Rightarrow> bool) \<Rightarrow> (URL \<Rightarrow> string) \<Rightarrow> (database \<times> 'w) Repository \<Rightarrow> 'w event_env \<Rightarrow>
   (string \<Rightarrow> (json \<times> string) option) \<Rightarrow> startup_error + (database \<times> 'w) api_Server" where
  "control_api env connect str repo E read =
     (let cfg = Load env in
      if co_AdminAPIKey cfg = [] then Inl AdminKeyRequired
      else if co_GatewayAPIKey cfg = [] then Inl GatewayKeyRequired
      else if \<not> OpenPool connect (co_DatabaseURL cfg) then Inl DatabaseConnect
      else (case NewHTTPStore str (co_ClickHouseURL cfg) (co_ClickHouseDatabase cfg) (co_ClickHouseUsername cfg) (co_ClickHousePassword cfg) of
          None \<Rightarrow> Inl EventStoreURL
        | Some h \<Rightarrow>
            Inr (ConfigureSecurity \<lparr>sc_RequestBodyLimitBytes = co_RequestBodyLimit cfg, sc_CORSAllowedOrigins = co_CORSAllowedOrigins cfg\<rparr>
              (NewServer repo (ClickHouseStore E h) (NewStaticBearer (co_AdminAPIKey cfg)) (NewStaticBearer (co_GatewayAPIKey cfg))
                (en_unicode E) (en_unrfc E) read))))"

end
