(* ===== verification/Control_Api_Facts.thy ===== *)
theory Control_Api_Facts
  imports Control_Api Control_Db_Spec Control_Events_Facts Redaction
begin

text \<open>
  What the HTTP interface guarantees: requests without the credential of their route change nothing and learn nothing,
  and a request for a tenant reads and writes that tenant only.  The second part rests on a contract for the repository and
  the event store, the locales \<open>tenant_repository\<close> and \<open>tenant_api\<close>, which the PostgreSQL repository and the ClickHouse
  store satisfy.
\<close>

section \<open>Writers\<close>

named_theorems api_simps

lemma set_header_parts [simp]:
  "wr_body (set_header k v w) = wr_body w" "wr_status (set_header k v w) = wr_status w"
  by (simp_all add: set_header_def)

lemma write_header_parts [simp]:
  "wr_body (write_header c w) = wr_body w" "wr_status (write_header c w) = (if wr_status w = None then Some c else wr_status w)"
  by (simp_all add: write_header_def)

lemma writeJSON_parts [simp]:
  "wr_body (writeJSON c b w) = wr_body w @ [b]" "wr_status (writeJSON c b w) = (if wr_status w = None then Some c else wr_status w)"
  by (simp_all add: writeJSON_def Let_def)

lemma writeError_parts [simp]:
  "wr_body (writeError r c code msg w) = wr_body w @ [ErrorBody code msg (aq_request_id r)]"
  "wr_status (writeError r c code msg w) = (if wr_status w = None then Some c else wr_status w)"
  by (simp_all add: writeError_def)

lemma new_writer_parts [simp]: "wr_body new_writer = []" "wr_status new_writer = None"
  by (simp_all add: new_writer_def)

text \<open>How a request ends: the state it leaves, how that relates to the state it found, and the values it wrote.\<close>

definition served :: "('s \<Rightarrow> bool) \<Rightarrow> (payload \<Rightarrow> bool) \<Rightarrow> writer \<Rightarrow> 's \<times> writer \<times> string option \<Rightarrow> bool" where
  "served keeps body w out \<longleftrightarrow> (case out of (st', w', p) \<Rightarrow> keeps st' \<and> set (wr_body w') \<subseteq> set (wr_body w) \<union> Collect body)"

lemma served_writeJSON [api_simps]: "served keeps body w (ret st (writeJSON c b w)) \<longleftrightarrow> keeps st \<and> (b \<in> set (wr_body w) \<or> body b)"
  by (auto simp: served_def ret_def)

lemma served_errors:
  assumes "keeps st" "\<And>c m i. body (ErrorBody c m i)"
  shows "served keeps body w (ret st (writeError r c code msg w))" "served keeps body w (ret st (bad_request r msg w))"
    "served keeps body w (ret st (internalError r w))" "served keeps body w (ret st (handleReadError r e w))"
  using assms by (auto simp: served_def ret_def bad_request_def internalError_def handleReadError_def split: db_error.splits)

lemma Routes_unfold:
  obtains i w1 where "wr_body w1 = wr_body w" "wr_status w1 = wr_status w"
    "Routes s r st w = recoveryMiddleware (loggingMiddleware (corsMiddleware s (secureHeaders (serve_mux s)))) (r\<lparr>aq_request_id := i\<rparr>) st w1"
proof -
  define i where "i = (if strings_TrimSpace (header_Get (aq_header r) ''X-Request-ID'') = [] then newRequestID r
    else strings_TrimSpace (header_Get (aq_header r) ''X-Request-ID''))"
  show thesis by (rule that [of "set_header ''X-Request-ID'' i w" i]) (simp_all add: Routes_def requestIDMiddleware_def Let_def i_def)
qed

lemma cors_unfold:
  assumes "aq_method r \<noteq> ''OPTIONS''"
  obtains w2 where "wr_body w2 = wr_body w" "wr_status w2 = wr_status w"
    "corsMiddleware s (secureHeaders h) r st w = h r st w2"
proof -
  define w1 where "w1 = (if header_Get (aq_header r) ''Origin'' \<in> set (sv_corsAllowedOrigins s)
    then set_header ''Access-Control-Allow-Methods'' ''GET, POST, PATCH, OPTIONS''
      (set_header ''Access-Control-Allow-Headers'' ''Authorization, Content-Type, X-Request-ID, X-Bedem-Tenant-ID''
        (set_header ''Vary'' ''Origin'' (set_header ''Access-Control-Allow-Origin'' (header_Get (aq_header r) ''Origin'') w))) else w)"
  have w1: "wr_body w1 = wr_body w" "wr_status w1 = wr_status w" by (simp_all add: w1_def)
  have "corsMiddleware s (secureHeaders h) r st w = secureHeaders h r st w1"
    using assms by (simp add: corsMiddleware_def Let_def w1_def)
  then show thesis using w1 by (intro that [of "set_header ''Referrer-Policy'' ''no-referrer'' (set_header ''X-Frame-Options'' ''DENY''
       (set_header ''X-Content-Type-Options'' ''nosniff'' w1))"]) (simp_all add: secureHeaders_def)
qed

lemma middleware_served:
  assumes "served keeps body w (h r st w1)"
  shows "served keeps body w (loggingMiddleware h r st w1)"
    "(\<And>c m i. body (ErrorBody c m i)) \<Longrightarrow> served keeps body w (recoveryMiddleware h r st w1)"
proof -
  obtain st' w' p where out: "h r st w1 = (st', w', p)" by (cases "h r st w1")
  show "served keeps body w (loggingMiddleware h r st w1)"
    using assms unfolding out by (cases p) (simp_all add: loggingMiddleware_def out served_def ret_def)
  assume "\<And>c m i. body (ErrorBody c m i)"
  then show "served keeps body w (recoveryMiddleware h r st w1)"
    using assms unfolding out by (cases p) (simp_all add: recoveryMiddleware_def internalError_def out served_def ret_def)
qed

lemma Routes_served:
  assumes "\<And>i w1. wr_body w1 = wr_body w \<Longrightarrow> served keeps body w1 (serve_mux s (r\<lparr>aq_request_id := i\<rparr>) st w1)"
    and "keeps st" "\<And>c m i. body (ErrorBody c m i)"
  shows "served keeps body w (Routes s r st w)"
proof (rule Routes_unfold [of w s r st])
  fix i w1
  assume w1: "wr_body w1 = wr_body w"
    and eq: "Routes s r st w = recoveryMiddleware (loggingMiddleware (corsMiddleware s (secureHeaders (serve_mux s)))) (r\<lparr>aq_request_id := i\<rparr>) st w1"
  have "served keeps body w (corsMiddleware s (secureHeaders (serve_mux s)) (r\<lparr>aq_request_id := i\<rparr>) st w1)"
  proof (cases "aq_method r = ''OPTIONS''")
    case True
    then show ?thesis using assms(2) w1 by (simp add: corsMiddleware_def served_def ret_def Let_def)
  next
    case False
    then have "aq_method (r\<lparr>aq_request_id := i\<rparr>) \<noteq> ''OPTIONS''" by simp
    then show ?thesis by (rule cors_unfold [of _ w1 s "serve_mux s" st]) (use assms(1) [of _ i] w1 in \<open>simp add: served_def\<close>)
  qed
  then show ?thesis unfolding eq by (intro middleware_served(2) middleware_served(1) assms(3))
qed

section \<open>Credentials\<close>

fun public_payload :: "payload \<Rightarrow> bool" where
  "public_payload (ErrorBody _ _ _) = True"
| "public_payload (StatusBody _) = True"
| "public_payload MetricsBody = True"
| "public_payload _ = False"

lemma find_route_in:
  assumes "find_route rs m xs = Some (g, e, vals)"
  shows "\<exists>pat ps. (pat, ps, g, e) \<in> set rs \<and> method_matches pat m \<and> match_path ps xs = Some vals"
  using assms
proof (induction rs)
  case (Cons x rs)
  obtain pat ps g' e' where "x = (pat, ps, g', e')" by (cases x)
  then show ?case using Cons by (auto split: if_splits option.splits)
qed simp

definition public_endpoints :: "endpoint set" where
  "public_endpoints = {Healthz, Readyz, MetricsPage}"

lemma route_public:
  assumes "find_route route_table m xs = Some (Public, e, vals)"
  shows "e \<in> public_endpoints" "xs \<noteq> ''v1'' # ys"
  using find_route_in [OF assms] by (auto simp: route_table_def public_endpoints_def)

lemma route_gateway:
  assumes "find_route route_table m xs = Some (GatewayOnly, e, vals)"
  shows "e = GatewayPolicyE"
  using find_route_in [OF assms] by (auto simp: route_table_def)

lemma public_served:
  assumes "e \<in> public_endpoints"
  shows "served (\<lambda>st'. st' = st) public_payload w (endpoint_handler s e vals r st w)"
  using assms by (auto simp: public_endpoints_def endpoint_handler_def healthz_def readyz_def served_def ret_def Let_def split: if_splits)

lemma getGatewayPolicy_served:
  "served (\<lambda>st'. st' = st) (\<lambda>b. public_payload b \<or> (\<exists>gp. b = GatewayBody gp)) w (getGatewayPolicy s h r st w)"
  unfolding getGatewayPolicy_def Let_def answer_read_def
  by (auto simp: api_simps intro!: served_errors split: sum.splits)

lemma mux_without_admin:
  assumes "\<not> Authorized (sv_adminAuth s) (aq_header r)"
  shows "served (\<lambda>st'. st' = st) (\<lambda>b. public_payload b \<or> (\<exists>gp. b = GatewayBody gp) \<and> Authorized (sv_gatewayAuth s) (aq_header r)) w (serve_mux s r st w)"
proof (cases "find_route route_table (aq_method r) (aq_segments r)")
  case None
  then show ?thesis by (auto simp: serve_mux_def intro!: served_errors)
next
  case (Some x)
  obtain g e vals where x: "x = (g, e, vals)" by (cases x)
  note route = Some [unfolded x]
  show ?thesis
  proof (cases g)
    case Public
    then show ?thesis using public_served [OF route_public(1), of "aq_method r" "aq_segments r" e vals st w s vals r] route
      by (auto simp: serve_mux_def guarded_def served_def)
  next
    case GatewayOnly
    then have "e = GatewayPolicyE" using route route_gateway by blast
    then show ?thesis using GatewayOnly route getGatewayPolicy_served [of st w s "hd vals" r]
      by (auto simp: serve_mux_def guarded_def requireGatewayAuth_def endpoint_handler_def served_def ret_def)
  qed (use route assms in \<open>auto simp: serve_mux_def guarded_def requireAuth_def intro!: served_errors\<close>)
qed

lemma Routes_status:
  assumes "Routes s r st new_writer = (st', w, p)" "aq_method r \<noteq> ''OPTIONS''"
  obtains i w1 st1 w2 p1 where "wr_status w1 = None" "serve_mux s (r\<lparr>aq_request_id := i\<rparr>) st w1 = (st1, w2, p1)"
    "p1 = None \<Longrightarrow> wr_status w = wr_status w2"
proof (rule Routes_unfold [of new_writer s r st])
  fix i w1
  assume w1: "wr_status w1 = wr_status new_writer"
    and eq: "Routes s r st new_writer = recoveryMiddleware (loggingMiddleware (corsMiddleware s (secureHeaders (serve_mux s)))) (r\<lparr>aq_request_id := i\<rparr>) st w1"
  obtain w3 where w3: "wr_status w3 = wr_status w1"
    "corsMiddleware s (secureHeaders (serve_mux s)) (r\<lparr>aq_request_id := i\<rparr>) st w1 = serve_mux s (r\<lparr>aq_request_id := i\<rparr>) st w3"
    using cors_unfold [of "r\<lparr>aq_request_id := i\<rparr>" w1 s "serve_mux s" st] assms(2) by auto
  obtain st1 w2 p1 where mux: "serve_mux s (r\<lparr>aq_request_id := i\<rparr>) st w3 = (st1, w2, p1)" by (cases "serve_mux s (r\<lparr>aq_request_id := i\<rparr>) st w3")
  show thesis
  proof (rule that [OF _ mux])
    show "wr_status w3 = None" using w3 w1 by simp
    show "wr_status w = wr_status w2" if "p1 = None"
      using assms(1) that unfolding eq by (auto simp: recoveryMiddleware_def loggingMiddleware_def w3(2) mux ret_def)
  qed
qed

lemma v1_refused:
  assumes "\<not> Authorized (sv_adminAuth s) (aq_header r)" "\<not> Authorized (sv_gatewayAuth s) (aq_header r)" "aq_segments r = ''v1'' # ys"
    and "serve_mux s r st w1 = (st1, w2, p1)" "wr_status w1 = None"
  shows "wr_status w2 \<in> {Some 401, Some 404} \<and> p1 = None"
proof (cases "find_route route_table (aq_method r) (aq_segments r)")
  case (Some x)
  obtain g e vals where x: "x = (g, e, vals)" by (cases x)
  have "g \<noteq> Public" using route_public(2) Some [unfolded x] assms(3) by blast
  then show ?thesis using assms Some x
    by (cases g) (auto simp: serve_mux_def guarded_def requireAuth_def requireGatewayAuth_def ret_def)
qed (use assms in \<open>auto simp: serve_mux_def ret_def\<close>)

text \<open>C4: Credentials of the control plane.  A request without the administrator's token changes nothing, and it is answered with
  errors, the health checks and the metrics only, apart from a gateway policy when it carries the gateway's token; under
  \<open>/v1\<close> a request with neither token gets 401 or 404.  No panic leaves the handler.\<close>

theorem requests_need_credentials:
  assumes "Routes s r st new_writer = (st', w, p)" "\<not> Authorized (sv_adminAuth s) (aq_header r)"
  shows "p = None \<and> st' = st \<and>
    (\<forall>b \<in> set (wr_body w). public_payload b \<or> (\<exists>gp. b = GatewayBody gp) \<and> Authorized (sv_gatewayAuth s) (aq_header r)) \<and>
    (\<not> Authorized (sv_gatewayAuth s) (aq_header r) \<longrightarrow> (\<exists>ys. aq_segments r = ''v1'' # ys) \<longrightarrow> aq_method r \<noteq> ''OPTIONS'' \<longrightarrow>
       wr_status w \<in> {Some 401, Some 404})"
proof -
  have "served (\<lambda>st'. st' = st) (\<lambda>b. public_payload b \<or> (\<exists>gp. b = GatewayBody gp) \<and> Authorized (sv_gatewayAuth s) (aq_header r)) new_writer
      (Routes s r st new_writer)"
    by (rule Routes_served) (use mux_without_admin [of s "r\<lparr>aq_request_id := i\<rparr>" for i] assms(2) in simp_all)
  moreover have "p = None" using assms(1)
    by (auto simp: Routes_def requestIDMiddleware_def recoveryMiddleware_def ret_def Let_def split: prod.splits option.splits)
  moreover have "wr_status w \<in> {Some 401, Some 404}"
    if v1: "\<not> Authorized (sv_gatewayAuth s) (aq_header r)" "aq_segments r = ''v1'' # ys" "aq_method r \<noteq> ''OPTIONS''" for ys
    using assms(1) v1(3)
  proof (rule Routes_status)
    fix i w1 st1 w2 p1
    assume "wr_status w1 = None" "serve_mux s (r\<lparr>aq_request_id := i\<rparr>) st w1 = (st1, w2, p1)" and same: "p1 = None \<Longrightarrow> wr_status w = wr_status w2"
    then show ?thesis using v1_refused [of s "r\<lparr>aq_request_id := i\<rparr>" ys st w1 st1 w2 p1] assms(2) v1 by simp
  qed
  ultimately show ?thesis using assms(1) by (auto simp: served_def)
qed

section \<open>Requests of a tenant\<close>

text \<open>A value that a tenant may see: its resources carry its identifier.  \<open>ev\<close> tells which events are the tenant's, and
  \<open>own\<close> which policies by their identifier; the summary of a simulation must be one of the tenant's events.\<close>

fun payload_within :: "(events_Event \<Rightarrow> bool) \<Rightarrow> (string \<Rightarrow> bool) \<Rightarrow> string option \<Rightarrow> payload \<Rightarrow> bool" where
  "payload_within ev own o' (AppsBody as) = (\<forall>a \<in> set as. o' = Some (ma_TenantID a))"
| "payload_within ev own o' (AppBody a) = (o' = Some (ma_TenantID a))"
| "payload_within ev own o' (PoliciesBody ps) = (\<forall>p \<in> set ps. o' = Some (mp_TenantID p))"
| "payload_within ev own o' (PolicyBody p) = (o' = Some (mp_TenantID p))"
| "payload_within ev own o' (GatewayBody gp) = (o' = Some (mg_TenantID gp))"
| "payload_within ev own o' (PublishedBody x) = own (pp_PolicyID x)"
| "payload_within ev own o' (EventsBody es) = (\<forall>e \<in> set es. ev e)"
| "payload_within ev own o' (EventBody e) = ev e"
| "payload_within ev own o' (SimulationBody _ _ _ rs) = (\<exists>es. rs = BuildSimulationSummary es \<and> (\<forall>e \<in> set es. ev e))"
| "payload_within ev own o' (TenantsBody _) = False"
| "payload_within ev own o' (TenantBody _) = False"
| "payload_within ev own o' (RuleSetsBody _) = False"
| "payload_within ev own o' (RuleVersionsBody _) = False"
| "payload_within ev own o' (ActivatedBody _) = False"
| "payload_within ev own o' (ErrorBody _ _ _) = True"
| "payload_within ev own o' (StatusBody _) = True"
| "payload_within ev own o' MetricsBody = True"

text \<open>The contract of the repository: \<open>good\<close> is an invariant of its state, \<open>owner\<close> reads the identifier of a tenant,
  \<open>owns o' st\<close> tells which policies are the owner's, and \<open>rest t\<close> is what the state holds of everyone but the tenant \<open>t\<close>.\<close>

locale tenant_repository =
  fixes repo :: "'s Repository" and good :: "'s \<Rightarrow> bool" and owner :: "string \<Rightarrow> string option"
    and owns :: "string option \<Rightarrow> 's \<Rightarrow> string \<Rightarrow> bool" and rest :: "string \<Rightarrow> 's \<Rightarrow> 'v"
  assumes list_apps: "good st \<Longrightarrow> re_ListApps repo t st = Inr as \<Longrightarrow> \<forall>a \<in> set as. owner t = Some (ma_TenantID a)"
    and get_app: "good st \<Longrightarrow> re_GetApp repo t i st = Inr a \<Longrightarrow> owner t = Some (ma_TenantID a)"
    and list_policies: "good st \<Longrightarrow> re_ListPoliciesByApp repo t i st = Inr ps \<Longrightarrow> \<forall>p \<in> set ps. owner t = Some (mp_TenantID p)"
    and get_policy: "good st \<Longrightarrow> re_GetPolicy repo t i st = Inr p \<Longrightarrow> owner t = Some (mp_TenantID p)"
    and active_policy: "good st \<Longrightarrow> re_GetActivePolicyByApp repo t i st = Inr gp \<Longrightarrow> owner t = Some (mg_TenantID gp)"
    and create_tenant: "good st \<Longrightarrow> re_CreateTenant repo req0 st = (x0, st') \<Longrightarrow> good st'"
    and create_app: "good st \<Longrightarrow> re_CreateApp repo req1 u st = (x1, st') \<Longrightarrow> good st' \<and>
      (case owner (ca_TenantID req1) of None \<Rightarrow> st' = st | Some t' \<Rightarrow> rest t' st' = rest t' st) \<and>
      (\<forall>a. x1 = Inr a \<longrightarrow> owner (ca_TenantID req1) = Some (ma_TenantID a))"
    and update_app: "good st \<Longrightarrow> re_UpdateApp repo t i req2 v st = (x2, st') \<Longrightarrow> good st' \<and>
      (case owner t of None \<Rightarrow> st' = st | Some t' \<Rightarrow> rest t' st' = rest t' st) \<and> (\<forall>a. x2 = Inr a \<longrightarrow> owner t = Some (ma_TenantID a))"
    and create_policy: "good st \<Longrightarrow> re_CreatePolicy repo t i req3 st = (x3, st') \<Longrightarrow> good st' \<and>
      (case owner t of None \<Rightarrow> st' = st | Some t' \<Rightarrow> rest t' st' = rest t' st) \<and> (\<forall>p. x3 = Inr p \<longrightarrow> owner t = Some (mp_TenantID p))"
    and update_policy: "good st \<Longrightarrow> re_UpdatePolicy repo t i req4 st = (x4, st') \<Longrightarrow> good st' \<and>
      (case owner t of None \<Rightarrow> st' = st | Some t' \<Rightarrow> rest t' st' = rest t' st) \<and> (\<forall>p. x4 = Inr p \<longrightarrow> owner t = Some (mp_TenantID p))"
    and publish_policy: "good st \<Longrightarrow> re_PublishPolicy repo t i st = (x5, st') \<Longrightarrow> good st' \<and>
      (case owner t of None \<Rightarrow> st' = st | Some t' \<Rightarrow> rest t' st' = rest t' st) \<and> (\<forall>y. x5 = Inr y \<longrightarrow> owns (owner t) st (pp_PolicyID y))"

text \<open>The event store shares the state and leaves the part of the repository alone; \<open>shown t\<close> tells which events it shows to
  the tenant \<open>t\<close>.\<close>

locale tenant_api = tenant_repository repo good owner owns rest
  for repo :: "'s Repository" and good :: "'s \<Rightarrow> bool" and owner :: "string \<Rightarrow> string option"
    and owns :: "string option \<Rightarrow> 's \<Rightarrow> string \<Rightarrow> bool" and rest :: "string \<Rightarrow> 's \<Rightarrow> 'v" +
  fixes store :: "'s EventStore" and shown :: "string \<Rightarrow> events_Event \<Rightarrow> bool"
  assumes search: "good st \<Longrightarrow> es_Search store f st = (st', x6) \<Longrightarrow> good st' \<and> rest t' st' = rest t' st"
    and by_request: "good st \<Longrightarrow> es_GetByRequestID store t i st = (st', x7) \<Longrightarrow> good st' \<and> rest t' st' = rest t' st"
    and search_shown: "es_Search store f st = (st', Inr es) \<Longrightarrow> strings_TrimSpace (sf_TenantID f) \<noteq> [] \<Longrightarrow> e \<in> set es \<Longrightarrow>
      shown (strings_TrimSpace (sf_TenantID f)) e"
    and by_request_shown: "es_GetByRequestID store t i st = (st', Inr e) \<Longrightarrow> shown (strings_TrimSpace t) e"
begin

definition kept :: "string \<Rightarrow> 's \<Rightarrow> 's \<Rightarrow> bool" where
  "kept t st st' \<longleftrightarrow> good st' \<and> (\<forall>t'. owner t = Some t' \<longrightarrow> rest t' st' = rest t' st)"

lemma kept_same: "good st \<Longrightarrow> kept t st st"
  by (simp add: kept_def)

lemma kept_search: "good st \<Longrightarrow> es_Search store f st = (st', x) \<Longrightarrow> kept t st st'"
  using search by (auto simp: kept_def)

lemma kept_by_request: "good st \<Longrightarrow> es_GetByRequestID store u i st = (st', x) \<Longrightarrow> kept t st st'"
  using by_request by (auto simp: kept_def)

text \<open>What a request of the tenant \<open>t\<close>, met in the state \<open>st\<close>, may be answered with.\<close>

definition within :: "string \<Rightarrow> 's \<Rightarrow> payload \<Rightarrow> bool" where
  "within t st = payload_within (shown t) (owns (owner t) st) (owner t)"

lemma within_simps [api_simps]:
  "within t st (ErrorBody c m i)" "within t st (StatusBody m2)" "within t st MetricsBody"
  "within t st (AppsBody as) \<longleftrightarrow> (\<forall>a \<in> set as. owner t = Some (ma_TenantID a))" "within t st (AppBody a) \<longleftrightarrow> owner t = Some (ma_TenantID a)"
  "within t st (PoliciesBody ps) \<longleftrightarrow> (\<forall>p \<in> set ps. owner t = Some (mp_TenantID p))" "within t st (PolicyBody p) \<longleftrightarrow> owner t = Some (mp_TenantID p)"
  "within t st (GatewayBody gp) \<longleftrightarrow> owner t = Some (mg_TenantID gp)" "within t st (PublishedBody x) \<longleftrightarrow> owns (owner t) st (pp_PolicyID x)"
  "within t st (EventsBody es) \<longleftrightarrow> (\<forall>e \<in> set es. shown t e)" "within t st (EventBody e) \<longleftrightarrow> shown t e"
  by (simp_all add: within_def)

lemma within_summary: "(\<And>e. e \<in> set es \<Longrightarrow> shown t e) \<Longrightarrow> within t st (SimulationBody i f u (BuildSimulationSummary es))"
  by (auto simp: within_def)

lemma kept_write: "good st' \<Longrightarrow> (case owner t of None \<Rightarrow> st' = st | Some t' \<Rightarrow> rest t' st' = rest t' st) \<Longrightarrow> kept t st st'"
  by (auto simp: kept_def split: option.splits)

end

text \<open>The routes of a tenant and the ones for all tenants.\<close>

definition tenant_endpoints :: "endpoint set" where
  "tenant_endpoints = {ListAppsE, CreateAppE, GetAppE, PatchAppE, ListPoliciesE, CreatePolicyE, ActivePolicyE, GetPolicyE, PatchPolicyE, PublishPolicyE,
     SimulationE, ListEventsE, GetEventE}"

lemma route_tenant:
  assumes "find_route route_table m xs = Some (AdminTenant, e, vals)"
  shows "e \<in> tenant_endpoints"
  using find_route_in [OF assms] by (auto simp: route_table_def tenant_endpoints_def)

lemma with_bounds_tenant: "with_bounds s vs f = Inr g \<Longrightarrow> sf_TenantID g = sf_TenantID f"
  by (auto simp: with_bounds_def split: sum.splits if_splits)

lemma filters_tenant:
  "parseEventFilters s r t = Inr f \<Longrightarrow> sf_TenantID f = t" "parseSimulationFilters s r t i = Inr f \<Longrightarrow> sf_TenantID f = t"
  by (auto simp: parseEventFilters_def parseSimulationFilters_def empty_filters_def Let_def split: sum.splits if_splits dest!: with_bounds_tenant)

lemma validateCreateApp_tenant:
  assumes "validateCreateApp U body = Inr (req, u)" "strings_TrimSpace (ca_TenantID body) = t"
  shows "ca_TenantID req = t"
  using assms by (auto simp: validateCreateApp_def Let_def split: if_splits option.splits sum.splits)

context tenant_api
begin

lemma answers_served:
  assumes "good st" "\<And>x. res = Inr x \<Longrightarrow> within t st (wrap x)"
  shows "served (kept t st) (within t st) w (answer_list wrap res r st w)"
    "served (kept t st) (within t st) w (answer_read c wrap res r st w)"
  using assms kept_same [of st t]
  by (auto simp: answer_list_def answer_read_def api_simps intro!: served_errors split: sum.splits)

lemma reads_served:
  assumes s: "sv_repo s = repo" and g: "good st"
  shows "served (kept (aq_tenant r) st) (within (aq_tenant r) st) w (listApps s r st w)"
    "served (kept (aq_tenant r) st) (within (aq_tenant r) st) w (getApp s i r st w)"
    "served (kept (aq_tenant r) st) (within (aq_tenant r) st) w (listPolicies s i r st w)"
    "served (kept (aq_tenant r) st) (within (aq_tenant r) st) w (getPolicy s i r st w)"
    "served (kept (aq_tenant r) st) (within (aq_tenant r) st) w (getActivePolicy s i r st w)"
  unfolding listApps_def getApp_def listPolicies_def getPolicy_def getActivePolicy_def s
  by (rule answers_served [OF g], simp add: api_simps list_apps [OF g] get_app [OF g] list_policies [OF g] get_policy [OF g] active_policy [OF g])+

lemma write_served:
  assumes "\<And>x st'. out = (x, st') \<Longrightarrow> good st' \<and> (case owner t of None \<Rightarrow> st' = st | Some t' \<Rightarrow> rest t' st' = rest t' st) \<and>
    (\<forall>y. x = Inr y \<longrightarrow> within t st (wrap y))"
  shows "served (kept t st) (within t st) w (case out of (Inl e, st') \<Rightarrow> ret st' (internalError r w) | (Inr y, st') \<Rightarrow> ret st' (writeJSON c (wrap y) w))"
    "served (kept t st) (within t st) w (case out of (Inl e, st') \<Rightarrow> ret st' (handleReadError r e w) | (Inr y, st') \<Rightarrow> ret st' (writeJSON c (wrap y) w))"
proof -
  obtain x st' where out: "out = (x, st')" by (cases out)
  have k: "kept t st st'" using assms [OF out] by (intro kept_write) simp_all
  show "served (kept t st) (within t st) w (case out of (Inl e, st') \<Rightarrow> ret st' (internalError r w) | (Inr y, st') \<Rightarrow> ret st' (writeJSON c (wrap y) w))"
    "served (kept t st) (within t st) w (case out of (Inl e, st') \<Rightarrow> ret st' (handleReadError r e w) | (Inr y, st') \<Rightarrow> ret st' (writeJSON c (wrap y) w))"
    using assms [OF out] unfolding out by (cases x; auto simp: api_simps k intro!: served_errors)+
qed

lemma refused_served:
  assumes "good st"
  shows "served (kept t st) (within t st) w (ret st (writeError r c code msg w))"
    "served (kept t st) (within t st) w (ret st (bad_request r msg w))"
    "served (kept t st) (within t st) w (ret st (handleReadError r e w))"
  using assms by (intro served_errors kept_same; simp add: api_simps)+

lemma createApp_served:
  assumes s: "sv_repo s = repo" and g: "good st" and t: "strings_TrimSpace (aq_tenant r) = aq_tenant r"
  shows "served (kept (aq_tenant r) st) (within (aq_tenant r) st) w (createApp s r st w)"
proof -
  have step: "served (kept (aq_tenant r) st) (within (aq_tenant r) st) w
      (case re_CreateApp repo req u st of (Inl e, st') \<Rightarrow> ret st' (internalError r w) | (Inr app, st') \<Rightarrow> ret st' (writeJSON 201 (AppBody app) w))"
    if "ca_TenantID req = aq_tenant r" for req u
    by (rule write_served) (use create_app [OF g, of req u] that in \<open>simp add: api_simps\<close>)
  have v: "served (kept (aq_tenant r) st) (within (aq_tenant r) st) w
     (case validateCreateApp U (body\<lparr>ca_TenantID := given\<rparr>) of Inl msg \<Rightarrow> ret st (bad_request r msg w)
      | Inr (req, u) \<Rightarrow> (case re_CreateApp repo req u st of (Inl e, st') \<Rightarrow> ret st' (internalError r w) | (Inr app, st') \<Rightarrow> ret st' (writeJSON 201 (AppBody app) w)))"
    if "given = aq_tenant r" for U body given
  proof (cases "validateCreateApp U (body\<lparr>ca_TenantID := given\<rparr>)")
    case (Inr x)
    obtain req u where x: "x = (req, u)" by (cases x)
    have "ca_TenantID req = aq_tenant r" using validateCreateApp_tenant [OF Inr [unfolded x]] that t by simp
    then show ?thesis using step by (simp add: Inr x)
  qed (simp add: refused_served [OF g])
  show ?thesis
  proof (cases "decodeJSON s create_app_fields \<lparr>ca_TenantID = [], ca_Name = [], ca_Slug = [], ca_Hostnames = [], ca_OriginURL = [], ca_Metadata = None\<rparr> r")
    case (Inr body)
    then show ?thesis using v unfolding createApp_def s Let_def
      by (auto simp: refused_served [OF g] split del: sum.split)
  qed (simp add: createApp_def refused_served [OF g])
qed

lemma writes_served:
  assumes s: "sv_repo s = repo" and g: "good st"
  shows "served (kept (aq_tenant r) st) (within (aq_tenant r) st) w (patchApp s i r st w)"
    "served (kept (aq_tenant r) st) (within (aq_tenant r) st) w (createPolicy s i r st w)"
    "served (kept (aq_tenant r) st) (within (aq_tenant r) st) w (patchPolicy s i r st w)"
    "served (kept (aq_tenant r) st) (within (aq_tenant r) st) w (publishPolicy s i r st w)"
proof -
  have "served (kept (aq_tenant r) st) (within (aq_tenant r) st) w
      (case re_UpdateApp repo (aq_tenant r) i req u st of (Inl e, st') \<Rightarrow> ret st' (handleReadError r e w) | (Inr y, st') \<Rightarrow> ret st' (writeJSON 200 (AppBody y) w))" for req u
    by (rule write_served) (use update_app [OF g, of "aq_tenant r" i req u] in \<open>simp add: api_simps\<close>)
  then show "served (kept (aq_tenant r) st) (within (aq_tenant r) st) w (patchApp s i r st w)"
    unfolding patchApp_def s by (simp add: refused_served [OF g] split: sum.split prod.split)
  have "served (kept (aq_tenant r) st) (within (aq_tenant r) st) w
      (case re_CreatePolicy repo (aq_tenant r) i req st of (Inl e, st') \<Rightarrow> ret st' (handleReadError r e w) | (Inr y, st') \<Rightarrow> ret st' (writeJSON 201 (PolicyBody y) w))" for req
    by (rule write_served) (use create_policy [OF g, of "aq_tenant r" i req] in \<open>simp add: api_simps\<close>)
  then show "served (kept (aq_tenant r) st) (within (aq_tenant r) st) w (createPolicy s i r st w)"
    unfolding createPolicy_def s Let_def by (simp add: refused_served [OF g] split: sum.split option.split)
  have "served (kept (aq_tenant r) st) (within (aq_tenant r) st) w
      (case re_UpdatePolicy repo (aq_tenant r) i req st of (Inl e, st') \<Rightarrow> ret st' (handleReadError r e w) | (Inr y, st') \<Rightarrow> ret st' (writeJSON 200 (PolicyBody y) w))" for req
    by (rule write_served) (use update_policy [OF g, of "aq_tenant r" i req] in \<open>simp add: api_simps\<close>)
  then show "served (kept (aq_tenant r) st) (within (aq_tenant r) st) w (patchPolicy s i r st w)"
    unfolding patchPolicy_def s by (simp add: refused_served [OF g] split: sum.split)
  have "served (kept (aq_tenant r) st) (within (aq_tenant r) st) w
      (case re_PublishPolicy repo (aq_tenant r) i st of (Inl e, st') \<Rightarrow> ret st' (handleReadError r e w) | (Inr y, st') \<Rightarrow> ret st' (writeJSON 201 (PublishedBody y) w))"
    by (rule write_served) (use publish_policy [OF g, of "aq_tenant r" i] in \<open>simp add: api_simps\<close>)
  then show "served (kept (aq_tenant r) st) (within (aq_tenant r) st) w (publishPolicy s i r st w)"
    unfolding publishPolicy_def s by (simp add: refused_served [OF g] split: sum.split option.split)
qed

lemma events_served:
  assumes s: "sv_eventStore s = store" and g: "good st" and t: "strings_TrimSpace (aq_tenant r) = aq_tenant r" "aq_tenant r \<noteq> []"
  shows "served (kept (aq_tenant r) st) (within (aq_tenant r) st) w (listEvents s r st w)"
    "served (kept (aq_tenant r) st) (within (aq_tenant r) st) w (getPolicySimulationSummary s i r st w)"
    "served (kept (aq_tenant r) st) (within (aq_tenant r) st) w (getEvent s i r st w)"
proof -
  have found: "shown (aq_tenant r) e" if "es_Search store f st = (st', Inr es)" "sf_TenantID f = aq_tenant r" "e \<in> set es" for f st' es e
    using search_shown [OF that(1) _ that(3)] that(2) t by simp
  have one: "shown (aq_tenant r) e" if "es_GetByRequestID store (aq_tenant r) i st = (st', Inr e)" for st' e
    using by_request_shown [OF that] t by simp
  show "served (kept (aq_tenant r) st) (within (aq_tenant r) st) w (listEvents s r st w)"
    "served (kept (aq_tenant r) st) (within (aq_tenant r) st) w (getPolicySimulationSummary s i r st w)"
    "served (kept (aq_tenant r) st) (within (aq_tenant r) st) w (getEvent s i r st w)"
    unfolding listEvents_def getPolicySimulationSummary_def getEvent_def s
    by (auto simp: api_simps refused_served [OF g] intro!: served_errors within_summary dest: kept_search [OF g] kept_by_request [OF g]
        found [OF _ filters_tenant(1)] found [OF _ filters_tenant(2)] one split: sum.split prod.split events_error.split)
qed

lemma tenant_endpoint_served:
  assumes "sv_repo s = repo" "sv_eventStore s = store" "good st" "strings_TrimSpace (aq_tenant r) = aq_tenant r" "aq_tenant r \<noteq> []" "e \<in> tenant_endpoints"
  shows "served (kept (aq_tenant r) st) (within (aq_tenant r) st) w (endpoint_handler s e vals r st w)"
  using assms(6) reads_served [OF assms(1,3)] events_served [OF assms(2-5)] writes_served [OF assms(1,3)]
    createApp_served [OF assms(1,3,4)]
  by (auto simp: tenant_endpoints_def endpoint_handler_def)

lemma global_endpoint_served:
  assumes s: "sv_repo s = repo" and g: "good st" and e: "e \<notin> tenant_endpoints"
  shows "served good (\<lambda>_. True) w (endpoint_handler s e vals r st w)"
proof -
  have "served good (\<lambda>_. True) w (case re_CreateTenant repo req st of (Inl e, st') \<Rightarrow> ret st' (internalError r w) | (Inr t, st') \<Rightarrow> ret st' (writeJSON 201 (TenantBody t) w))" for req
    by (auto simp: served_def ret_def split: prod.splits sum.splits dest: create_tenant [OF g])
  then have "served good (\<lambda>_. True) w (createTenant s r st w)"
    unfolding createTenant_def s Let_def by (simp add: served_errors g split: sum.split option.split)
  then show ?thesis using e g
    by (cases e) (auto simp: tenant_endpoints_def endpoint_handler_def healthz_def readyz_def listTenants_def listManagedRuleSets_def listManagedRuleVersions_def
        activateManagedRuleVersion_def getGatewayPolicy_def answer_list_def answer_read_def served_def ret_def Let_def split: sum.splits if_splits)
qed

end

text \<open>The tenant a request is for.\<close>

definition request_tenant :: "api_request \<Rightarrow> string" where
  "request_tenant r =
     (let h = strings_TrimSpace (header_Get (aq_header r) ''X-Bedem-Tenant-ID'')
      in if h = [] then strings_TrimSpace (values_Get (aq_query r) ''tenant_id'') else h)"

lemma requireTenant_cases:
  obtains (refused) e where "requireTenant h r st w = ret st e" "\<exists>c code msg. e = writeError r c code msg w"
  | (passed) "requireTenant h r st w = h (r\<lparr>aq_tenant := request_tenant r\<rparr>) st w" "request_tenant r \<noteq> []"
proof -
  define a where "a = strings_TrimSpace (header_Get (aq_header r) ''X-Bedem-Tenant-ID'')"
  define b where "b = strings_TrimSpace (values_Get (aq_query r) ''tenant_id'')"
  have t: "request_tenant r = (if a = [] then b else a)" by (simp add: request_tenant_def Let_def a_def b_def)
  have unfolded: "requireTenant h r st w = (if a \<noteq> [] \<and> b \<noteq> [] \<and> a \<noteq> b
      then ret st (writeError r 400 ''invalid_request'' (Message ''tenant_id query parameter must match tenant context'') w)
      else if request_tenant r = [] then ret st (writeError r 400 ''tenant_required'' (Message ''tenant context is required'') w)
      else h (r\<lparr>aq_tenant := request_tenant r\<rparr>) st w)"
    unfolding requireTenant_def Let_def bad_request_def a_def [symmetric] b_def [symmetric] t by (rule refl)
  show thesis
  proof (cases "(a \<noteq> [] \<and> b \<noteq> [] \<and> a \<noteq> b) \<or> request_tenant r = []")
    case True
    then have "\<exists>c code msg. requireTenant h r st w = ret st (writeError r c code msg w)" unfolding unfolded by auto
    then show thesis using refused by blast
  next
    case False
    then show thesis by (intro passed) (auto simp: unfolded)
  qed
qed

lemma request_tenant_trimmed [simp]: "strings_TrimSpace (request_tenant r) = request_tenant r"
  by (simp add: request_tenant_def Let_def)

context tenant_api
begin

lemma mux_tenant:
  assumes "sv_repo s = repo" "sv_eventStore s = store" "good st" "find_route route_table (aq_method r) (aq_segments r) = Some (AdminTenant, e, vals)"
  shows "served (kept (request_tenant r) st) (within (request_tenant r) st) w (serve_mux s r st w)"
proof (cases "Authorized (sv_adminAuth s) (aq_header r)")
  case True
  show ?thesis
  proof (rule requireTenant_cases [of "endpoint_handler s e vals" r st w])
    fix e' assume "requireTenant (endpoint_handler s e vals) r st w = ret st e'" "\<exists>c code msg. e' = writeError r c code msg w"
    then show ?thesis using True assms(4) refused_served(1) [OF assms(3)] by (auto simp: serve_mux_def guarded_def requireAuth_def)
  next
    assume "requireTenant (endpoint_handler s e vals) r st w = endpoint_handler s e vals (r\<lparr>aq_tenant := request_tenant r\<rparr>) st w"
      and "request_tenant r \<noteq> []"
    then show ?thesis
      using tenant_endpoint_served [OF assms(1-3), of "r\<lparr>aq_tenant := request_tenant r\<rparr>" e w vals] route_tenant [OF assms(4)] True assms(4)
      by (simp add: serve_mux_def guarded_def requireAuth_def)
  qed
qed (use refused_served(1) [OF assms(3)] assms(4) in \<open>simp add: serve_mux_def guarded_def requireAuth_def\<close>)

lemma tenant_request_served:
  assumes "sv_repo s = repo" "sv_eventStore s = store" "good st" "find_route route_table (aq_method r) (aq_segments r) = Some (AdminTenant, e, vals)"
  shows "served (kept (request_tenant r) st) (within (request_tenant r) st) w (Routes s r st w)"
proof (rule Routes_served)
  fix i w1
  have "request_tenant (r\<lparr>aq_request_id := i\<rparr>) = request_tenant r" by (simp add: request_tenant_def Let_def)
  then show "served (kept (request_tenant r) st) (within (request_tenant r) st) w1 (serve_mux s (r\<lparr>aq_request_id := i\<rparr>) st w1)"
    using mux_tenant [OF assms(1-3), of "r\<lparr>aq_request_id := i\<rparr>" e vals w1] assms(4) by simp
qed (simp_all add: kept_same assms(3) api_simps)

lemma route_guard: "find_route route_table m xs = Some (g, e, vals) \<Longrightarrow> e \<in> tenant_endpoints \<longleftrightarrow> g = AdminTenant"
  by (drule find_route_in) (auto simp: route_table_def tenant_endpoints_def)

lemma good_preserved:
  assumes "sv_repo s = repo" "sv_eventStore s = store" "good st"
  shows "served good (\<lambda>_. True) w (Routes s r st w)"
proof (rule Routes_served)
  fix i w1
  let ?r = "r\<lparr>aq_request_id := i\<rparr>"
  show "served good (\<lambda>_. True) w1 (serve_mux s ?r st w1)"
  proof (cases "find_route route_table (aq_method ?r) (aq_segments ?r)")
    case None
    then show ?thesis using assms(3) by (simp add: serve_mux_def served_def ret_def)
  next
    case (Some x)
    obtain g e vals where x: "x = (g, e, vals)" by (cases x)
    show ?thesis
    proof (cases "g = AdminTenant")
      case True
      then show ?thesis using mux_tenant [OF assms, of ?r e vals w1] Some [unfolded x] by (auto simp: served_def kept_def)
    next
      case False
      then show ?thesis using global_endpoint_served [OF assms(1,3), of e w1 vals ?r] route_guard [OF Some [unfolded x]] Some [unfolded x] assms(3)
        by (cases g) (auto simp: serve_mux_def guarded_def requireAuth_def requireGatewayAuth_def served_def ret_def)
    qed
  qed
qed (simp_all add: assms(3))

end

section \<open>The repository over PostgreSQL\<close>

definition stored_well :: "backend \<Rightarrow> database \<times> 'w \<Rightarrow> bool" where
  "stored_well B st \<longleftrightarrow> generated_ids B \<and> jsonb_ok B \<and> reachable B (fst st)"

lemma stored_well_inv: "stored_well B st \<Longrightarrow> db_inv B (fst st)" "stored_well B st \<Longrightarrow> documents_inv B (fst st)"
  using reachable_documents [of B "fst st"] by (simp_all add: stored_well_def)

text \<open>A write of the repository is one of the calls, so it keeps the state well formed and stays within its tenant.\<close>

lemma lifted_call:
  assumes "stored_well B st" "lift_write f st = (x, st')" "\<And>db. snd (f db) = run_call B now c db"
  shows "stored_well B st'" "fst st' = run_call B now c (fst st)" "snd st' = snd st" "f (fst st) = (x, fst st')"
proof -
  show f: "f (fst st) = (x, fst st')" and "snd st' = snd st" using assms(2) by (auto simp: lift_write_def split: prod.splits)
  show c: "fst st' = run_call B now c (fst st)" using assms(3) [of "fst st"] f by simp
  show "stored_well B st'" using assms(1) unfolding stored_well_def c by (simp add: reachable_call)
qed

lemma lifted_write:
  assumes "stored_well B st" "lift_write f st = (x, st')" "\<And>db. snd (f db) = run_call B now c db" "call_tenant c = Some t"
  shows "stored_well B st' \<and> (case be_uuid B t of None \<Rightarrow> st' = st | Some t' \<Rightarrow> others t' (fst st') = others t' (fst st))"
proof -
  note call = lifted_call [OF assms(1-3)]
  have "st' = st" if "be_uuid B t = None" using call(2,3) call_no_tenant [OF assms(4) that, of now "fst st"] by (simp add: prod_eq_iff)
  moreover have "others t' (fst st') = others t' (fst st)" if "be_uuid B t = Some t'" for t'
    unfolding call(2) using call_within [OF _ stored_well_inv(1) [OF assms(1)] assms(4) that] assms(1) by (simp add: stored_well_def)
  ultimately show ?thesis using call(1) by (simp split: option.split)
qed

text \<open>The policies of a tenant in the database.\<close>

definition owns_policy :: "string option \<Rightarrow> database \<Rightarrow> string \<Rightarrow> bool" where
  "owns_policy o' db i \<longleftrightarrow> (\<exists>p \<in> set (policies db). p_id p = i \<and> o' = Some (p_tenant p))"

interpretation pg: tenant_repository "PostgresRepository B collate now up" "stored_well B" "be_uuid B" "\<lambda>o' st. owns_policy o' (fst st)"
  "\<lambda>t st. others t (fst st)"
  for B collate now up
proof (unfold_locales, goal_cases)
  case (1 st t as)
  then show ?case using tenant_reads(1) by (simp add: PostgresRepository_def lift_read_def)
next
  case (2 st t i a)
  then show ?case using tenant_reads(2) by (simp add: PostgresRepository_def lift_read_def)
next
  case (3 st t i ps)
  then show ?case using tenant_reads(3) by (simp add: PostgresRepository_def lift_read_def)
next
  case (4 st t i p)
  then show ?case using tenant_reads(4) by (simp add: PostgresRepository_def lift_read_def)
next
  case (5 st t i gp)
  then show ?case using active_policy_own [OF stored_well_inv] by (simp add: PostgresRepository_def lift_read_def)
next
  case (6 st req x st')
  then have "lift_write (CreateTenant B now req) st = (x, st')" by (simp add: PostgresRepository_def)
  then show ?case by (rule lifted_call(1) [OF 6(1), where c = "CallCreateTenant req" and now = now]) simp
next
  case (7 st req u x st')
  then have w: "lift_write (CreateApp B now req u) st = (x, st')" by (simp add: PostgresRepository_def)
  note call = lifted_write [OF 7(1) w, where c = "CallCreateApp req u" and now = now] lifted_call(4) [OF 7(1) w, where c = "CallCreateApp req u" and now = now]
  show ?case using call tenant_results(1) [of B now req u "fst st"] by simp
next
  case (8 st t i req v x st')
  then have w: "lift_write (UpdateApp B now t i req v) st = (x, st')" by (simp add: PostgresRepository_def)
  note call = lifted_write [OF 8(1) w, where c = "CallUpdateApp t i req v" and now = now] lifted_call(4) [OF 8(1) w, where c = "CallUpdateApp t i req v" and now = now]
  show ?case using call tenant_results(2) [of B now t i req v "fst st"] by simp
next
  case (9 st t i req x st')
  then have w: "lift_write (CreatePolicy B now t i req) st = (x, st')" by (simp add: PostgresRepository_def)
  note call = lifted_write [OF 9(1) w, where c = "CallCreatePolicy t i req" and now = now] lifted_call(4) [OF 9(1) w, where c = "CallCreatePolicy t i req" and now = now]
  show ?case using call tenant_results(3) [OF stored_well_inv(1) [OF 9(1)], of now t i req] 9(1) by (simp add: stored_well_def)
next
  case (10 st t i req x st')
  then have w: "lift_write (UpdatePolicy B now t i req) st = (x, st')" by (simp add: PostgresRepository_def)
  note call = lifted_write [OF 10(1) w, where c = "CallUpdatePolicy t i req" and now = now] lifted_call(4) [OF 10(1) w, where c = "CallUpdatePolicy t i req" and now = now]
  show ?case using call tenant_results(4) [of B now t i req "fst st"] by simp
next
  case (11 st t i x st')
  then have w: "lift_write (PublishPolicy B now t i) st = (x, st')" by (simp add: PostgresRepository_def)
  have "owns_policy (be_uuid B t) (fst st) (pp_PolicyID y)" if "x = Inr y" for y
    using lifted_call(4) [OF 11(1) w, where c = "CallPublishPolicy t i" and now = now] that by (auto simp: owns_policy_def elim!: PublishPolicy_ok)
  then show ?case using lifted_write [OF 11(1) w, where c = "CallPublishPolicy t i" and now = now] by simp
qed

interpretation control: tenant_api "PostgresRepository B collate now up" "stored_well B" "be_uuid B" "\<lambda>o' st. owns_policy o' (fst st)"
  "\<lambda>t st. others t (fst st)" "ClickHouseStore E h" "\<lambda>t e. clickhouse_filters E h \<longrightarrow> ev_TenantID e = t"
  for B collate now up E h
  by unfold_locales (auto simp: ClickHouseStore_def stored_well_def Search_tenant GetByRequestID_tenant split: prod.splits)


text \<open>The databases that sequences of requests reach: each request may meet another clock, another state of the database
  connection, another store of events and any settings of the server.\<close>

inductive requests_reach :: "backend \<Rightarrow> database \<Rightarrow> bool" for B where
  no_request: "requests_reach B empty_database"
| one_request: "requests_reach B db \<Longrightarrow> sv_repo s = PostgresRepository B collate now up \<Longrightarrow> sv_eventStore s = ClickHouseStore E h \<Longrightarrow>
    Routes s r (db, (ch :: string list)) new_writer = ((db', ch'), w, p) \<Longrightarrow> requests_reach B db'"

text \<open>C13: Every sequence of requests to the interface, with any credentials and bodies, keeps the database consistent: the
  invariant of the tables and of the published documents holds after it.\<close>

theorem requests_keep_invariants:
  assumes "generated_ids B" "jsonb_ok B" "requests_reach B db"
  shows "db_inv B db \<and> documents_inv B db"
proof -
  have "reachable B db" using assms(3)
  proof induction
    case no_request
    show ?case by (rule reachable_empty)
  next
    case (one_request db s collate now up E h r ch db' ch' w p)
    then have "stored_well B (db, ch)" using assms(1,2) by (simp add: stored_well_def)
    then show ?case using control.good_preserved [OF one_request.hyps(2,3), of "(db, ch)" new_writer r] one_request.hyps(4)
      by (simp add: served_def stored_well_def)
  qed
  then show ?thesis by (rule reachable_documents [OF assms(1,2)])
qed

section \<open>A concrete server\<close>

text \<open>A ClickHouse with one event, which belongs to the tenant \<open>x\<close>: it reads the parameter of the tenant from the URL.\<close>

definition sample_events_http :: HTTPStore where
  "sample_events_http = \<lparr>hs_endpoint = ''http://events:8123'', hs_database = ''bedemwaf'', hs_username = [], hs_password = []\<rparr>"

definition url_parameter :: "string \<Rightarrow> string \<Rightarrow> string list" where
  "url_parameter url n = values_get (fst (url_ParseQuery (drop (length (hs_endpoint sample_events_http @ ''/?'')) url))) (''param_'' @ n)"

definition sample_env :: "string list event_env" where
  "sample_env = \<lparr>en_unicode = ascii_tables, en_utc = (\<lambda>_. []), en_unrfc = sample_unrfc,
     en_parse = (\<lambda>l. Some (JObj [(''tenant_id'', JStr l)])),
     en_send = (\<lambda>url _ log. (log @ [url], Some (200, if url_parameter url ''tenant_id'' = [''x''] then ''x'' else [])))\<rparr>"



definition sample_repository :: "(database \<times> string list) Repository" where
  "sample_repository = PostgresRepository sample_backend (\<lambda>_. []) 40 True"

definition sample_store :: "(database \<times> string list) EventStore" where
  "sample_store = ClickHouseStore sample_env sample_events_http"

definition sample_server :: "(database \<times> string list) api_Server" where
  "sample_server = NewServer sample_repository sample_store (NewStaticBearer ''admin-key'') (NewStaticBearer ''gateway-key'') ascii_tables sample_unrfc
     (\<lambda>_. Some (JObj [(''name'', JStr ''Acme''), (''slug'', JStr ''acme'')], []))"

definition api_sample_request :: "string \<Rightarrow> string list \<Rightarrow> http_header \<Rightarrow> api_request" where
  "api_sample_request m xs h = \<lparr>aq_method = m, aq_segments = xs, aq_header = h, aq_query = [], aq_body = [], aq_random = Some ''x'', aq_clock = [],
     aq_request_id = [], aq_tenant = []\<rparr>"

lemma sample_server_parts:
  "sv_repo sample_server = PostgresRepository sample_backend (\<lambda>_. []) 40 True"
  "sv_eventStore sample_server = ClickHouseStore sample_env sample_events_http"
  "sv_adminAuth sample_server = NewStaticBearer ''admin-key''" "sv_gatewayAuth sample_server = NewStaticBearer ''gateway-key''"
  by (simp_all add: sample_server_def NewServer_def ConfigureSecurity_def sample_repository_def sample_store_def Let_def)

theorem requests_need_credentials_witness:
  "wr_status (fst (snd (Routes sample_server (api_sample_request ''GET'' [''v1'', ''apps''] []) (sample_db, []) new_writer))) \<in> {Some 401, Some 404}"
proof -
  let ?r = "api_sample_request ''GET'' [''v1'', ''apps''] []"
  obtain st' w p where out: "Routes sample_server ?r (sample_db, []) new_writer = (st', w, p)"
    by (cases "Routes sample_server ?r (sample_db, []) new_writer")
  have "\<not> Authorized (NewStaticBearer ''admin-key'') []" "\<not> Authorized (NewStaticBearer ''gateway-key'') []" by code_simp+
  then show ?thesis unfolding out fst_conv snd_conv
    using requests_need_credentials [OF out] by (simp add: sample_server_parts api_sample_request_def)
qed

definition tenant_headers :: http_header where
  "tenant_headers = [(''Authorization'', [''Bearer admin-key'']), (''X-Bedem-Tenant-Id'', [''x''])]"


theorem requests_keep_invariants_witness:
  "db_inv sample_backend (fst (fst (Routes sample_server (api_sample_request ''POST'' [''v1'', ''tenants''] tenant_headers) (empty_database, []) new_writer)))"
proof -
  let ?r = "api_sample_request ''POST'' [''v1'', ''tenants''] tenant_headers"
  obtain db' ch' w p where out: "Routes sample_server ?r (empty_database, []) new_writer = ((db', ch'), w, p)"
    by (metis prod.exhaust)
  have "requests_reach sample_backend db'" by (rule one_request [OF no_request sample_server_parts(1,2) out])
  then show ?thesis unfolding out fst_conv using requests_keep_invariants [OF sample_generated sample_jsonb] by blast
qed

end
