(* ===== verification/Worker.thy ===== *)
theory Worker
  imports Control_Db_Spec Go_Sha256 Go_Url
begin

text \<open>
  The worker: the scan of a directory of managed rules (\<open>services/worker/internal/rules/rules.go\<close>), its recording in
  PostgreSQL (\<open>rules/postgres.go\<close>), the job counters (\<open>metrics/metrics.go\<close>) and the job itself (\<open>cmd/worker/main.go\<close>).
  A directory is a tree whose files carry their bytes, or \<^term>\<open>None\<close> when they cannot be opened, and whose directories carry
  their entries, or \<^term>\<open>None\<close> when they cannot be listed; a link is what it leads to, a link to a directory a file
  that cannot be read.  \<open>disk\<close> gives the tree at a path, \<open>parse\<close> reads a JSON text.
\<close>

section \<open>Paths\<close>

text \<open>\<open>filepath.Clean\<close> and \<open>filepath.Join\<close> on Unix, component by component; the stack holds the last component first.\<close>

definition clean_step :: "bool \<Rightarrow> string \<Rightarrow> string list \<Rightarrow> string list" where
  "clean_step rooted c stack =
     (if c = [] \<or> c = ''.'' then stack
      else if c = ''..'' then
        (case stack of
           [] \<Rightarrow> if rooted then [] else [''..'']
         | c' # below \<Rightarrow> if c' = ''..'' then ''..'' # stack else below)
      else c # stack)"

definition filepath_Clean :: "string \<Rightarrow> string" where
  "filepath_Clean path =
     (let rooted = (path \<noteq> [] \<and> hd path = CHR ''/'');
          parts = rev (fold (clean_step rooted) (split_on CHR ''/'' path) []);
          body = strings_Join parts ''/''
      in if rooted then CHR ''/'' # body else if body = [] then ''.'' else body)"

definition filepath_Join :: "string \<Rightarrow> string \<Rightarrow> string" where
  "filepath_Join dir name = (if dir = [] then if name = [] then [] else filepath_Clean name else filepath_Clean (dir @ CHR ''/'' # name))"

section \<open>Rule sets on disk\<close>

datatype node = File "string option" | Directory "(string \<times> node) list option"

definition MetadataFile :: string where
  "MetadataFile = ''ruleset.json''"

record Metadata =
  md_Name :: string
  md_Provider :: string
  md_Source :: string
  md_Version :: string
  md_Description :: string
  md_Enabled :: bool
  md_Extra :: raw

record rules_ManagedVersion =
  rv_Version :: string
  rv_SourceURI :: string
  rv_LocalPath :: string
  rv_ChecksumSHA256 :: string
  rv_RulesetSnapshot :: json

record rules_ManagedRuleSet =
  rs_Name :: string
  rs_Provider :: string
  rs_Source :: string
  rs_Description :: string
  rs_LocalPath :: string
  rs_Enabled :: bool
  rs_Metadata :: json
  rs_Version :: rules_ManagedVersion

datatype scan_error = DirectoryRequired | StatFailed | NotADirectory | ListFailed | ReadFailed | MetadataInvalid | SetNameRequired | SetVersionRequired

definition metadata_fields :: "Metadata json_fields" where
  "metadata_fields =
     [(''name'', \<lambda>j r. map_option (\<lambda>x. r\<lparr>md_Name := x\<rparr>) (json_string j (md_Name r))),
      (''provider'', \<lambda>j r. map_option (\<lambda>x. r\<lparr>md_Provider := x\<rparr>) (json_string j (md_Provider r))),
      (''source'', \<lambda>j r. map_option (\<lambda>x. r\<lparr>md_Source := x\<rparr>) (json_string j (md_Source r))),
      (''version'', \<lambda>j r. map_option (\<lambda>x. r\<lparr>md_Version := x\<rparr>) (json_string j (md_Version r))),
      (''description'', \<lambda>j r. map_option (\<lambda>x. r\<lparr>md_Description := x\<rparr>) (json_string j (md_Description r))),
      (''enabled'', \<lambda>j r. map_option (\<lambda>x. r\<lparr>md_Enabled := x\<rparr>) (json_bool j (md_Enabled r))),
      (''metadata'', \<lambda>j r. Some (r\<lparr>md_Extra := Some j\<rparr>))]"

definition entry :: "string \<Rightarrow> node \<Rightarrow> node option" where
  "entry name t = (case t of Directory (Some es) \<Rightarrow> map_of es name | _ \<Rightarrow> None)"

definition readMetadata :: "unicode \<Rightarrow> (string \<Rightarrow> json option) \<Rightarrow> node \<Rightarrow> scan_error + Metadata" where
  "readMetadata U parse t =
     (case entry MetadataFile t of
        Some (File (Some data)) \<Rightarrow>
          (case (case parse data of None \<Rightarrow> None
             | Some j \<Rightarrow> json_struct U False metadata_fields j
                 \<lparr>md_Name = [], md_Provider = [], md_Source = [], md_Version = [], md_Description = [], md_Enabled = False, md_Extra = None\<rparr>) of
             None \<Rightarrow> Inl MetadataInvalid
           | Some m \<Rightarrow>
               let name = strings_TrimSpace (md_Name m); provider = strings_TrimSpace (md_Provider m);
                   source = strings_TrimSpace (md_Source m); version = strings_TrimSpace (md_Version m)
               in if name = [] then Inl SetNameRequired
                  else if version = [] then Inl SetVersionRequired
                  else Inr (m\<lparr>md_Name := name, md_Provider := (if provider = [] then ''local'' else provider),
                    md_Source := (if source = [] then ''local'' else source), md_Version := version\<rparr>))
      | _ \<Rightarrow> Inl ReadFailed)"

text \<open>\<open>filepath.WalkDir\<close>: the files below a node with their paths relative to the start.\<close>

fun walk :: "string \<Rightarrow> node \<Rightarrow> (string \<times> string option) list option" where
  "walk rel (File c) = Some [(rel, c)]"
| "walk rel (Directory None) = None"
| "walk rel (Directory (Some es)) =
     map_option concat (collect_opt (\<lambda>e. walk (if rel = [] then fst e else rel @ CHR ''/'' # fst e) (snd e)) es)"

definition is_rule_file :: "string \<Rightarrow> bool" where
  "is_rule_file rel \<longleftrightarrow> rel \<noteq> MetadataFile \<and>
     (strings_HasSuffix rel ''.conf'' \<or> strings_HasSuffix rel ''.data'' \<or> strings_HasSuffix rel ''.txt'')"

definition nul :: char where
  "nul = CHR 0x00"

text \<open>What the hash is fed with: every name and every content, each ended by a zero byte.\<close>

definition preimage :: "(string \<times> string) list \<Rightarrow> string" where
  "preimage files = concat (map (\<lambda>(rel, content). rel @ nul # content @ [nul]) files)"

definition rule_files :: "node \<Rightarrow> scan_error + (string \<times> string) list" where
  "rule_files t =
     (case walk [] t of
        None \<Rightarrow> Inl ListFailed
      | Some all \<Rightarrow>
          (case collect_opt (\<lambda>(rel, c). map_option (Pair rel) c) (sort_key fst (filter (\<lambda>(rel, c). is_rule_file rel) all)) of
             None \<Rightarrow> Inl ReadFailed
           | Some files \<Rightarrow> Inr files))"

definition checksumDirectory :: "node \<Rightarrow> scan_error + string list \<times> string" where
  "checksumDirectory t =
     (case rule_files t of
        Inl e \<Rightarrow> Inl e
      | Inr files \<Rightarrow> Inr (map fst files, hex_EncodeToString (sha256_Sum256 (preimage files))))"

definition rules_defaultRaw :: "raw \<Rightarrow> json \<Rightarrow> json" where
  "rules_defaultRaw value fallback = (case value of None \<Rightarrow> fallback | Some j \<Rightarrow> j)"

text \<open>A nil slice of names is written as \<open>null\<close>.\<close>

definition scan_snapshot :: "string \<Rightarrow> string list \<Rightarrow> json" where
  "scan_snapshot now files = JObj [(''files'', if files = [] then JNull else JArr (map JStr files)), (''scanned_at'', JStr now)]"

definition scanRuleSet :: "unicode \<Rightarrow> (string \<Rightarrow> json option) \<Rightarrow> string \<Rightarrow> string \<times> node \<Rightarrow> scan_error + rules_ManagedRuleSet" where
  "scanRuleSet U parse now d =
     (case readMetadata U parse (snd d) of
        Inl e \<Rightarrow> Inl e
      | Inr m \<Rightarrow>
          (case checksumDirectory (snd d) of
             Inl e \<Rightarrow> Inl e
           | Inr (files, checksum) \<Rightarrow>
               Inr \<lparr>rs_Name = md_Name m, rs_Provider = md_Provider m, rs_Source = md_Source m, rs_Description = md_Description m,
                 rs_LocalPath = fst d, rs_Enabled = md_Enabled m, rs_Metadata = rules_defaultRaw (md_Extra m) (JObj []),
                 rs_Version = \<lparr>rv_Version = md_Version m, rv_SourceURI = ''local://'' @ fst d, rv_LocalPath = fst d,
                   rv_ChecksumSHA256 = checksum, rv_RulesetSnapshot = scan_snapshot now files\<rparr>\<rparr>))"

definition is_dir :: "node \<Rightarrow> bool" where
  "is_dir t = (case t of File _ \<Rightarrow> False | Directory _ \<Rightarrow> True)"

definition scan_dirs :: "string \<Rightarrow> node \<Rightarrow> scan_error + (string \<times> node) list" where
  "scan_dirs root t =
     (if entry MetadataFile t \<noteq> None then Inr [(root, t)]
      else (case t of
          Directory (Some es) \<Rightarrow> Inr (sort_key fst (map (\<lambda>e. (filepath_Join root (fst e), snd e)) (filter (\<lambda>e. is_dir (snd e)) es)))
        | _ \<Rightarrow> Inl ListFailed))"

definition ScanLocalDirectory :: "unicode \<Rightarrow> (string \<Rightarrow> json option) \<Rightarrow> string \<Rightarrow> (string \<Rightarrow> node option) \<Rightarrow> string \<Rightarrow> scan_error + rules_ManagedRuleSet list" where
  "ScanLocalDirectory U parse now disk given =
     (let root = strings_TrimSpace given in
      if root = [] then Inl DirectoryRequired
      else (case disk root of
          None \<Rightarrow> Inl StatFailed
        | Some t \<Rightarrow>
            if \<not> is_dir t then Inl NotADirectory
            else (case scan_dirs root t of Inl e \<Rightarrow> Inl e | Inr dirs \<Rightarrow> traverse (scanRuleSet U parse now) dirs)))"

section \<open>Recording\<close>

definition set_row :: "int \<Rightarrow> rules_ManagedRuleSet \<Rightarrow> json \<Rightarrow> rule_set_row \<Rightarrow> rule_set_row" where
  "set_row now s md r = r\<lparr>s_provider := rs_Provider s, s_source := rs_Source s, s_description := Some (rs_Description s),
     s_path := Some (rs_LocalPath s), s_enabled := rs_Enabled s, s_metadata := md, s_updated := now\<rparr>"

definition new_set_row :: "backend \<Rightarrow> int \<Rightarrow> rules_ManagedRuleSet \<Rightarrow> json \<Rightarrow> nat \<Rightarrow> rule_set_row" where
  "new_set_row B now s md n = \<lparr>s_id = be_gen B n, s_name = rs_Name s, s_provider = rs_Provider s, s_source = rs_Source s,
     s_description = Some (rs_Description s), s_path = Some (rs_LocalPath s), s_enabled = rs_Enabled s, s_metadata = md,
     s_created = now, s_updated = now, s_deleted = None\<rparr>"

definition set_version_row :: "rules_ManagedVersion \<Rightarrow> json \<Rightarrow> rule_version_row \<Rightarrow> rule_version_row" where
  "set_version_row v snap w = w\<lparr>w_uri := Some (rv_SourceURI v), w_path := Some (rv_LocalPath v), w_checksum := Some (rv_ChecksumSHA256 v), w_snapshot := snap\<rparr>"

definition new_version_row :: "backend \<Rightarrow> int \<Rightarrow> string \<Rightarrow> rules_ManagedVersion \<Rightarrow> json \<Rightarrow> nat \<Rightarrow> rule_version_row" where
  "new_version_row B now setID v snap n = \<lparr>w_id = be_gen B n, w_set = setID, w_version = rv_Version v, w_uri = Some (rv_SourceURI v),
     w_path = Some (rv_LocalPath v), w_checksum = Some (rv_ChecksumSHA256 v), w_snapshot = snap, w_released = None, w_created = now\<rparr>"

text \<open>\<open>INSERT \<dots> ON CONFLICT \<dots> DO UPDATE\<close>, once for the set and once for the version.\<close>

definition upsert_set :: "backend \<Rightarrow> int \<Rightarrow> rules_ManagedRuleSet \<Rightarrow> json \<Rightarrow> database \<Rightarrow> string \<times> database" where
  "upsert_set B now s md db =
     (case find (\<lambda>r. s_name r = rs_Name s) (rule_sets db) of
        Some r \<Rightarrow> (s_id r, db\<lparr>rule_sets := update_row (\<lambda>r. s_name r = rs_Name s) (set_row now s md) (rule_sets db)\<rparr>)
      | None \<Rightarrow> (be_gen B (next_id db), db\<lparr>rule_sets := rule_sets db @ [new_set_row B now s md (next_id db)], next_id := Suc (next_id db)\<rparr>))"

definition upsert_version :: "backend \<Rightarrow> int \<Rightarrow> string \<Rightarrow> rules_ManagedVersion \<Rightarrow> json \<Rightarrow> database \<Rightarrow> database" where
  "upsert_version B now setID v snap db =
     (if list_ex (\<lambda>w. w_set w = setID \<and> w_version w = rv_Version v) (rule_versions db)
      then db\<lparr>rule_versions := update_row (\<lambda>w. w_set w = setID \<and> w_version w = rv_Version v) (set_version_row v snap) (rule_versions db)\<rparr>
      else db\<lparr>rule_versions := rule_versions db @ [new_version_row B now setID v snap (next_id db)], next_id := Suc (next_id db)\<rparr>)"

definition recordable :: "backend \<Rightarrow> rules_ManagedRuleSet \<Rightarrow> bool" where
  "recordable B s \<longleftrightarrow> rs_Source s \<in> {''local'', ''manual'', ''remote_placeholder''} \<and>
     list_all (be_text B) [rs_Name s, rs_Provider s, rs_Description s, rs_LocalPath s, rv_Version (rs_Version s), rv_SourceURI (rs_Version s),
       rv_LocalPath (rs_Version s), rv_ChecksumSHA256 (rs_Version s)]"

definition RecordManagedRuleSet :: "backend \<Rightarrow> int \<Rightarrow> rules_ManagedRuleSet \<Rightarrow> database \<Rightarrow> unit db_result" where
  "RecordManagedRuleSet B now s db =
     (case (be_jsonb B (rs_Metadata s), be_jsonb B (rv_RulesetSnapshot (rs_Version s))) of
        (Some md, Some snap) \<Rightarrow>
          if \<not> recordable B s then (Inl DbError, db)
          else (case upsert_set B now s md db of (setID, db1) \<Rightarrow> (Inr (), upsert_version B now setID (rs_Version s) snap db1))
      | _ \<Rightarrow> (Inl DbError, db))"

datatype job_error = ScanFailed scan_error | RecordFailed db_error | ConnectFailed

fun record_sets :: "backend \<Rightarrow> int \<Rightarrow> rules_ManagedRuleSet list \<Rightarrow> database \<Rightarrow> db_error option \<times> database" where
  "record_sets B now [] db = (None, db)"
| "record_sets B now (s # ss) db =
     (case RecordManagedRuleSet B now s db of
        (Inl e, db') \<Rightarrow> (Some e, db')
      | (Inr _, db') \<Rightarrow> record_sets B now ss db')"

definition ScanAndRecord ::
  "unicode \<Rightarrow> (string \<Rightarrow> json option) \<Rightarrow> string \<Rightarrow> (string \<Rightarrow> node option) \<Rightarrow> string \<Rightarrow> (backend \<times> int) option \<Rightarrow> database \<Rightarrow>
   (job_error + rules_ManagedRuleSet list) \<times> database" where
  "ScanAndRecord U parse clock disk root recorder db =
     (case ScanLocalDirectory U parse clock disk root of
        Inl e \<Rightarrow> (Inl (ScanFailed e), db)
      | Inr sets \<Rightarrow>
          (case recorder of
             None \<Rightarrow> (Inr sets, db)
           | Some (B, now) \<Rightarrow>
               (case record_sets B now sets db of
                  (Some e, db') \<Rightarrow> (Inl (RecordFailed e), db')
                | (None, db') \<Rightarrow> (Inr sets, db'))))"

section \<open>The job\<close>

record job_metrics =
  jm_jobs :: "string \<Rightarrow> nat"
  jm_errors :: "string \<Rightarrow> nat"

definition job_label :: "string \<Rightarrow> string" where
  "job_label value = (if value = [] then ''unknown'' else value)"

definition IncJob :: "string \<Rightarrow> job_metrics \<Rightarrow> job_metrics" where
  "IncJob job m = m\<lparr>jm_jobs := (jm_jobs m)(job_label job := Suc (jm_jobs m (job_label job)))\<rparr>"

definition IncJobError :: "string \<Rightarrow> job_metrics \<Rightarrow> job_metrics" where
  "IncJobError job m = m\<lparr>jm_errors := (jm_errors m)(job_label job := Suc (jm_errors m (job_label job)))\<rparr>"

text \<open>\<open>scanManagedRules\<close>: without a database URL nothing is recorded; \<open>connect\<close> tells whether the pool opens and answers.\<close>

definition scanManagedRules ::
  "unicode \<Rightarrow> (string \<Rightarrow> json option) \<Rightarrow> string \<Rightarrow> (string \<Rightarrow> node option) \<Rightarrow> backend \<Rightarrow> int \<Rightarrow> (string \<Rightarrow> bool) \<Rightarrow> string \<Rightarrow> string \<Rightarrow>
   job_metrics \<Rightarrow> database \<Rightarrow> job_error option \<times> job_metrics \<times> database" where
  "scanManagedRules U parse clock disk B now connect databaseURL rulesDir m db =
     (let job = ''managed_rules_scan''; m1 = IncJob job m in
      if databaseURL \<noteq> [] \<and> \<not> connect databaseURL then (Some ConnectFailed, m1, db)
      else (case ScanAndRecord U parse clock disk rulesDir (if databaseURL = [] then None else Some (B, now)) db of
              (Inl e, db') \<Rightarrow> (Some e, IncJobError job m1, db')
            | (Inr sets, db') \<Rightarrow> (None, m1, db')))"

end
