(* ===== verification/Worker_Facts.thy ===== *)
theory Worker_Facts
  imports Worker
begin

text \<open>
  What the worker guarantees: checksums tell rule files apart, recording keeps the catalogue consistent, a second recording
  changes timestamps only, and what was recorded is what the control plane lists.
\<close>

section \<open>Checksums\<close>

lemma cut_at:
  assumes "c \<notin> set a" "c \<notin> set b" "a @ c # s = b @ c # t"
  shows "a = b \<and> s = t"
  using assms
proof (induction a arbitrary: b)
  case Nil
  then show ?case by (cases b) auto
next
  case (Cons x a)
  then show ?case by (cases b) auto
qed

definition no_nul :: "(string \<times> string) list \<Rightarrow> bool" where
  "no_nul files \<longleftrightarrow> list_all (\<lambda>(rel, content). nul \<notin> set rel \<and> nul \<notin> set content) files"

lemma preimage_inj:
  assumes "no_nul xs" "no_nul ys" "preimage xs = preimage ys"
  shows "xs = ys"
  using assms
proof (induction xs arbitrary: ys)
  case Nil
  then show ?case by (cases ys) (auto simp: preimage_def)
next
  case (Cons x xs)
  obtain r c where x: "x = (r, c)" by (cases x)
  obtain r' c' ys' where ys: "ys = (r', c') # ys'" using Cons.prems(3) x by (cases ys) (auto simp: preimage_def)
  have nn: "nul \<notin> set r" "nul \<notin> set c" "nul \<notin> set r'" "nul \<notin> set c'" "no_nul xs" "no_nul ys'"
    using Cons.prems(1,2) by (auto simp: no_nul_def x ys)
  have eq: "r @ nul # (c @ nul # preimage xs) = r' @ nul # (c' @ nul # preimage ys')"
    using Cons.prems(3) by (simp add: preimage_def x ys)
  have c: "r = r'" "c @ nul # preimage xs = c' @ nul # preimage ys'" using cut_at [OF nn(1,3) eq] by simp_all
  then have "c = c'" "preimage xs = preimage ys'" using cut_at [OF nn(2,4) c(2)] by simp_all
  then show ?case using Cons.IH [OF nn(5,6)] by (simp add: x ys c(1))
qed

lemma hex_char_inj:
  assumes "m < 16" "n < 16" "hex_char m = hex_char n"
  shows "m = n"
proof -
  have "distinct ''0123456789abcdef''" "length ''0123456789abcdef'' = 16" by simp_all
  then show ?thesis using assms nth_eq_iff_index_eq unfolding hex_char_def by metis
qed

lemma hex_inj:
  assumes "hex_EncodeToString s = hex_EncodeToString t"
  shows "s = t"
proof -
  have bound: "byte c div 16 < 16" "byte c mod 16 < 16" for c
    using nat_of_char_less_256 [of c] by (simp_all add: less_mult_imp_div_less)
  have char: "c = d" if "hex_char (byte c div 16) = hex_char (byte d div 16)" "hex_char (byte c mod 16) = hex_char (byte d mod 16)" for c d
  proof -
    have "byte c div 16 = byte d div 16" "byte c mod 16 = byte d mod 16" using that hex_char_inj bound by blast+
    then have "byte c = byte d" by (metis div_mult_mod_eq)
    then show ?thesis by simp
  qed
  show ?thesis using assms
  proof (induction s arbitrary: t)
    case Nil
    then show ?case by (cases t) (auto simp: hex_EncodeToString_def)
  next
    case (Cons c s)
    obtain d t' where t: "t = d # t'" using Cons.prems by (cases t) (auto simp: hex_EncodeToString_def)
    have "hex_char (byte c div 16) = hex_char (byte d div 16)" "hex_char (byte c mod 16) = hex_char (byte d mod 16)"
      "hex_EncodeToString s = hex_EncodeToString t'"
      using Cons.prems unfolding t by (simp_all add: hex_EncodeToString_def)
    then show ?case using char [of c d] Cons.IH [of t'] t by simp
  qed
qed

text \<open>C39: Checksums tell rule files apart.  When two directories have the same checksum and no zero byte occurs in the names
  and contents of their rule files, then the rule files are the same, name by name and byte by byte, unless the two
  inputs are a collision of SHA-256.\<close>

theorem checksum_tells_files_apart:
  assumes "rule_files t1 = Inr f1" "rule_files t2 = Inr f2" "no_nul f1" "no_nul f2"
    and "checksumDirectory t1 = Inr (n1, digest)" "checksumDirectory t2 = Inr (n2, digest)"
  shows "f1 = f2 \<or> (preimage f1 \<noteq> preimage f2 \<and> sha256_Sum256 (preimage f1) = sha256_Sum256 (preimage f2))"
proof -
  have "sha256_Sum256 (preimage f1) = sha256_Sum256 (preimage f2)"
    using assms(1,2,5,6) hex_inj by (auto simp: checksumDirectory_def)
  then show ?thesis using preimage_inj [OF assms(3,4)] by blast
qed

definition one_file :: node where
  "one_file = Directory (Some [(''a.conf'', File (Some (''x'' @ nul # ''b.conf'' @ nul # ''y'')))])"

definition two_files :: node where
  "two_files = Directory (Some [(''a.conf'', File (Some ''x'')), (''b.conf'', File (Some ''y''))])"

lemma sample_rule_files:
  "rule_files one_file = Inr [(''a.conf'', ''x'' @ nul # ''b.conf'' @ nul # ''y'')]"
  "rule_files two_files = Inr [(''a.conf'', ''x''), (''b.conf'', ''y'')]"
proof -
  have "is_rule_file ''a.conf''" "is_rule_file ''b.conf''" "sort_key fst [(''a.conf'', Some ''x''), (''b.conf'', Some ''y'')] = [(''a.conf'', Some ''x''), (''b.conf'', Some ''y'')]"
    by code_simp+
  then show "rule_files one_file = Inr [(''a.conf'', ''x'' @ nul # ''b.conf'' @ nul # ''y'')]"
    "rule_files two_files = Inr [(''a.conf'', ''x''), (''b.conf'', ''y'')]"
    by (simp_all add: rule_files_def one_file_def two_files_def)
qed

text \<open>With zero bytes in a file, two different sets of rule files have the same checksum.\<close>

lemma checksum_ambiguous:
  "rule_files one_file \<noteq> rule_files two_files" "map_sum id snd (checksumDirectory one_file) = map_sum id snd (checksumDirectory two_files)"
  by (simp_all add: checksumDirectory_def sample_rule_files preimage_def)

definition two_files_listed_back :: node where
  "two_files_listed_back = Directory (Some [(''b.conf'', File (Some ''y'')), (''ruleset.json'', File None), (''a.conf'', File (Some ''x''))])"

theorem checksum_tells_files_apart_witness:
  "\<exists>f names digest. rule_files two_files = Inr f \<and> checksumDirectory two_files = Inr (names, digest) \<and>
     checksumDirectory two_files_listed_back = Inr (names, digest) \<and> (f = [(''a.conf'', ''x''), (''b.conf'', ''y'')] \<or>
       preimage f \<noteq> preimage [(''a.conf'', ''x''), (''b.conf'', ''y'')])"
proof -
  have "is_rule_file ''a.conf''" "is_rule_file ''b.conf''" "\<not> is_rule_file ''ruleset.json''"
    "sort_key fst [(''b.conf'', Some ''y''), (''a.conf'', Some ''x'')] = [(''a.conf'', Some ''x''), (''b.conf'', Some ''y'')]"
    by code_simp+
  then have listed: "rule_files two_files_listed_back = Inr [(''a.conf'', ''x''), (''b.conf'', ''y'')]"
    by (simp add: rule_files_def two_files_listed_back_def)
  obtain names digest where c: "checksumDirectory two_files = Inr (names, digest)" "checksumDirectory two_files_listed_back = Inr (names, digest)"
    by (simp add: checksumDirectory_def sample_rule_files listed)
  have "no_nul [(''a.conf'', ''x''), (''b.conf'', ''y'')]" by (simp add: no_nul_def nul_def)
  with checksum_tells_files_apart [OF sample_rule_files(2) listed this this c] c show ?thesis using sample_rule_files(2) by blast
qed

section \<open>The catalogue\<close>

definition rules_inv :: "backend \<Rightarrow> database \<Rightarrow> bool" where
  "rules_inv B db \<longleftrightarrow> distinct (map s_name (rule_sets db)) \<and> distinct (map (\<lambda>w. (w_set w, w_version w)) (rule_versions db)) \<and>
     w_set ` set (rule_versions db) \<subseteq> s_id ` set (rule_sets db) \<and>
     ids_ok B (next_id db) (map s_id (rule_sets db)) \<and> ids_ok B (next_id db) (map w_id (rule_versions db))"

lemma row_keys:
  "s_name (set_row now s md r) = s_name r" "s_id (set_row now s md r) = s_id r" "s_deleted (set_row now s md r) = s_deleted r"
  "w_id (set_version_row v snap w) = w_id w" "w_set (set_version_row v snap w) = w_set w" "w_version (set_version_row v snap w) = w_version w"
  "s_name (new_set_row B now s md n) = rs_Name s" "s_id (new_set_row B now s md n) = be_gen B n" "s_deleted (new_set_row B now s md n) = None"
  "w_id (new_version_row B now i v snap n) = be_gen B n" "w_set (new_version_row B now i v snap n) = i" "w_version (new_version_row B now i v snap n) = rv_Version v"
  by (simp_all add: set_row_def set_version_row_def new_set_row_def new_version_row_def)

lemma find_none: "find P xs = None \<longleftrightarrow> (\<forall>x \<in> set xs. \<not> P x)"
  by (induction xs) auto

lemma upsert_set_keeps:
  assumes "generated_ids B" "rules_inv B db" "upsert_set B now s md db = (i, db')"
  shows "rules_inv B db' \<and> i \<in> s_id ` set (rule_sets db') \<and> rule_versions db' = rule_versions db"
proof (cases "find (\<lambda>r. s_name r = rs_Name s) (rule_sets db)")
  case None
  then have "rs_Name s \<notin> s_name ` set (rule_sets db)" by (auto simp: find_none)
  moreover have "w_set ` set (rule_versions db) \<subseteq> insert (be_gen B (next_id db)) (s_id ` set (rule_sets db))"
    using assms(2) unfolding rules_inv_def by blast
  moreover have "db' = db\<lparr>rule_sets := rule_sets db @ [new_set_row B now s md (next_id db)], next_id := Suc (next_id db)\<rparr>" "i = be_gen B (next_id db)"
    using assms(3) None by (simp_all add: upsert_set_def)
  ultimately show ?thesis using assms(1,2) by (simp add: rules_inv_def row_keys)
next
  case (Some r)
  then have "r \<in> set (rule_sets db)" using find_live by fastforce
  moreover have "db' = db\<lparr>rule_sets := update_row (\<lambda>r. s_name r = rs_Name s) (set_row now s md) (rule_sets db)\<rparr>" "i = s_id r"
    using assms(3) Some by (simp_all add: upsert_set_def)
  ultimately show ?thesis using assms(2) by (simp add: rules_inv_def row_keys update_row_image)
qed

lemma upsert_version_keeps:
  assumes "generated_ids B" "rules_inv B db" "i \<in> s_id ` set (rule_sets db)"
  shows "rules_inv B (upsert_version B now i v snap db)"
  using assms by (auto simp: upsert_version_def rules_inv_def row_keys update_row_image list_ex_iff)

lemma Record_ok:
  assumes "RecordManagedRuleSet B now s db = (Inr x, db')"
  obtains md snap i db1 where "be_jsonb B (rs_Metadata s) = Some md" "be_jsonb B (rv_RulesetSnapshot (rs_Version s)) = Some snap" "recordable B s"
    "upsert_set B now s md db = (i, db1)" "db' = upsert_version B now i (rs_Version s) snap db1"
  using assms by (auto simp: RecordManagedRuleSet_def split: option.splits if_splits prod.splits intro: that)

lemma Record_failed: "RecordManagedRuleSet B now s db = (Inl e, db') \<Longrightarrow> db' = db"
  by (auto simp: RecordManagedRuleSet_def split: option.splits if_splits prod.splits)

text \<open>The tables of the tenants are not touched; identifiers are only used up.\<close>

definition same_tables :: "database \<Rightarrow> database \<Rightarrow> bool" where
  "same_tables db db' \<longleftrightarrow> tenants db' = tenants db \<and> apps db' = apps db \<and> origins db' = origins db \<and> policies db' = policies db \<and>
     versions db' = versions db \<and> deployments db' = deployments db \<and> next_id db \<le> next_id db'"

lemma upsert_frame:
  assumes "upsert_set B now s md db = (i, db1)"
  shows "same_tables db (upsert_version B now i v snap db1)"
  using assms by (auto simp: upsert_set_def upsert_version_def same_tables_def split: option.splits)

lemma db_inv_frame:
  assumes "db_inv B db" "same_tables db db'"
  shows "db_inv B db'"
proof -
  have t: "tenants db' = tenants db" "apps db' = apps db" "origins db' = origins db" "policies db' = policies db" "versions db' = versions db"
    "deployments db' = deployments db" "next_id db \<le> next_id db'" using assms(2) by (simp_all add: same_tables_def)
  have v: "versions_of i db' = versions_of i db" "latest i db' = latest i db" for i by (simp_all add: versions_of_def latest_def t)
  show ?thesis using assms(1) ids_ok_mono [OF _ t(7), of B] by (simp add: db_inv_def db_inv_defs t(1-6) v)
qed

text \<open>Recording keeps the database consistent: the names of rule sets and the versions of a set stay unique, versions
  belong to sets, and the invariant of the control plane's tables is kept; a failed recording changes nothing.\<close>

theorem recording_keeps_catalogue:
  assumes "generated_ids B" "rules_inv B db" "db_inv B db" "RecordManagedRuleSet B now s db = (x, db')"
  shows "rules_inv B db' \<and> db_inv B db' \<and> others t db' = others t db"
proof (cases x)
  case (Inl e)
  then show ?thesis using assms Record_failed by blast
next
  case (Inr u)
  from assms(4) [unfolded Inr] show ?thesis
  proof (rule Record_ok)
    fix md snap i db1
    assume up: "upsert_set B now s md db = (i, db1)" "db' = upsert_version B now i (rs_Version s) snap db1"
    note set = upsert_set_keeps [OF assms(1,2) up(1)]
    have "rules_inv B db'" unfolding up(2) by (rule upsert_version_keeps [OF assms(1)]) (use set in simp_all)
    moreover have "same_tables db db'" unfolding up(2) by (rule upsert_frame [OF up(1)])
    ultimately show ?thesis using db_inv_frame [OF assms(3)] by (simp add: others_def same_tables_def)
  qed
qed

lemma update_row_eq: "(\<And>r. r \<in> set rows \<Longrightarrow> sel r \<Longrightarrow> f r = g r) \<Longrightarrow> update_row sel f rows = update_row sel g rows"
  by (simp add: update_row_def)

lemma update_row_id: "(\<And>r. r \<in> set rows \<Longrightarrow> sel r \<Longrightarrow> f r = r) \<Longrightarrow> update_row sel f rows = rows"
  by (induction rows) (auto simp: update_row_def)

lemma find_update_row:
  assumes "\<And>r. sel (f r) = sel r"
  shows "find sel (update_row sel f rows) = map_option f (find sel rows)"
  using assms by (induction rows) (auto simp: update_row_def)

lemma list_ex_update_row: "(\<And>r. sel (f r) = sel r) \<Longrightarrow> list_ex sel (update_row sel f rows) = list_ex sel rows"
  by (induction rows) (auto simp: update_row_def)

lemma find_snoc: "find P xs = None \<Longrightarrow> P x \<Longrightarrow> find P (xs @ [x]) = Some x"
  by (induction xs) (auto split: if_splits)

lemma upserted_set:
  assumes "upsert_set B now s md db = (i, db0)"
  shows "\<exists>r. find (\<lambda>r. s_name r = rs_Name s) (rule_sets db0) = Some r \<and> s_id r = i"
    and "r \<in> set (rule_sets db0) \<Longrightarrow> s_name r = rs_Name s \<Longrightarrow> set_row now s md r = r"
proof -
  show "\<exists>r. find (\<lambda>r. s_name r = rs_Name s) (rule_sets db0) = Some r \<and> s_id r = i"
  proof (cases "find (\<lambda>r. s_name r = rs_Name s) (rule_sets db)")
    case None
    then have "find (\<lambda>r. s_name r = rs_Name s) (rule_sets db @ [new_set_row B now s md (next_id db)]) = Some (new_set_row B now s md (next_id db))"
      by (rule find_snoc) (simp add: row_keys)
    then show ?thesis using assms None by (auto simp: upsert_set_def row_keys)
  next
    case (Some r)
    then show ?thesis using assms by (auto simp: upsert_set_def row_keys find_update_row)
  qed
  show "set_row now s md r = r" if "r \<in> set (rule_sets db0)" "s_name r = rs_Name s"
    using that assms by (auto simp: upsert_set_def update_row_def set_row_def new_set_row_def find_none split: option.splits if_splits)
qed

lemma upserted_version:
  assumes "db1 = upsert_version B now i v snap db0"
  shows "list_ex (\<lambda>w. w_set w = i \<and> w_version w = rv_Version v) (rule_versions db1)"
    and "w \<in> set (rule_versions db1) \<Longrightarrow> w_set w = i \<Longrightarrow> w_version w = rv_Version v \<Longrightarrow> set_version_row v snap w = w"
    and "rule_sets db1 = rule_sets db0"
proof -
  show "rule_sets db1 = rule_sets db0" by (simp add: assms upsert_version_def)
  have again: "set_version_row v snap (set_version_row v snap w) = set_version_row v snap w" for w by (simp add: set_version_row_def)
  have new: "set_version_row v snap (new_version_row B now i v snap n) = new_version_row B now i v snap n" for n
    by (simp add: set_version_row_def new_version_row_def)
  show "list_ex (\<lambda>w. w_set w = i \<and> w_version w = rv_Version v) (rule_versions db1)"
    unfolding assms upsert_version_def by (simp add: list_ex_update_row row_keys)
  show "set_version_row v snap w = w" if "w \<in> set (rule_versions db1)" "w_set w = i" "w_version w = rv_Version v"
  proof (cases "list_ex (\<lambda>w. w_set w = i \<and> w_version w = rv_Version v) (rule_versions db0)")
    case True
    then have "w \<in> (\<lambda>w. if w_set w = i \<and> w_version w = rv_Version v then set_version_row v snap w else w) ` set (rule_versions db0)"
      using that(1) by (simp add: assms upsert_version_def update_row_def)
    then obtain u where "w = (if w_set u = i \<and> w_version u = rv_Version v then set_version_row v snap u else u)" by (rule imageE)
    then show ?thesis using that(2,3) again [of u] by (cases "w_set u = i \<and> w_version u = rv_Version v") (simp_all only: if_True if_False simp_thms)
  next
    case False
    have "w \<in> set (rule_versions db0) \<or> w = new_version_row B now i v snap (next_id db0)" using that(1) False by (simp add: assms upsert_version_def disj_commute)
    moreover have "w \<notin> set (rule_versions db0)" using False that(2,3) by (auto simp: list_ex_iff)
    ultimately show ?thesis using new by (metis (no_types))
  qed
qed

text \<open>Recording a rule set again only moves its timestamp: the second recording succeeds and leaves every row, the stored
  checksum and the identifiers as they are.\<close>

theorem recording_twice:
  assumes "RecordManagedRuleSet B now s db = (Inr (), db1)"
  shows "RecordManagedRuleSet B now2 s db1 =
    (Inr (), db1\<lparr>rule_sets := update_row (\<lambda>r. s_name r = rs_Name s) (\<lambda>r. r\<lparr>s_updated := now2\<rparr>) (rule_sets db1)\<rparr>)"
  using assms
proof (rule Record_ok)
  fix md snap i db0
  assume js: "be_jsonb B (rs_Metadata s) = Some md" "be_jsonb B (rv_RulesetSnapshot (rs_Version s)) = Some snap" "recordable B s"
    and up: "upsert_set B now s md db = (i, db0)" "db1 = upsert_version B now i (rs_Version s) snap db0"
  note v = upserted_version [OF up(2)]
  obtain r where r: "find (\<lambda>r. s_name r = rs_Name s) (rule_sets db1) = Some r" "s_id r = i" using upserted_set(1) [OF up(1)] v(3) by auto
  let ?db2 = "db1\<lparr>rule_sets := update_row (\<lambda>r. s_name r = rs_Name s) (\<lambda>r. r\<lparr>s_updated := now2\<rparr>) (rule_sets db1)\<rparr>"
  have "set_row now2 s md r = r\<lparr>s_updated := now2\<rparr>" if "r \<in> set (rule_sets db1)" "s_name r = rs_Name s" for r
    using arg_cong [OF upserted_set(2) [OF up(1)], of r "\<lambda>r. r\<lparr>s_updated := now2\<rparr>"] that v(3) by (simp add: set_row_def)
  then have "upsert_set B now2 s md db1 = (i, ?db2)"
    using r by (simp add: upsert_set_def update_row_eq [of "rule_sets db1" _ "set_row now2 s md"])
  moreover have "upsert_version B now2 i (rs_Version s) snap ?db2 = ?db2"
  proof -
    have "update_row (\<lambda>w. w_set w = i \<and> w_version w = rv_Version (rs_Version s)) (set_version_row (rs_Version s) snap) (rule_versions ?db2) = rule_versions ?db2"
      by (rule update_row_id) (use v(2) in auto)
    then show ?thesis using v(1) by (simp add: upsert_version_def)
  qed
  ultimately show ?thesis by (simp add: RecordManagedRuleSet_def js)
qed

text \<open>C40: What the worker records is what the control plane lists.  After a successful recording of a set that was not deleted, the
  list of rule sets has one with the recorded name, provider, source, path and state, and the list of its versions has one
  with the recorded checksum, which the activation accepts.\<close>

theorem recorded_set_is_listed:
  assumes "generated_ids B" "rules_inv B db" "RecordManagedRuleSet B now s db = (Inr (), db1)"
    and "\<forall>r \<in> set (rule_sets db). s_name r = rs_Name s \<longrightarrow> s_deleted r = None"
  shows "\<exists>m \<in> set (ListManagedRuleSets collate db1). ms_Name m = rs_Name s \<and> ms_Provider m = rs_Provider s \<and> ms_Source m = rs_Source s \<and>
    ms_LocalPath m = rs_LocalPath s \<and> ms_Enabled m = rs_Enabled s \<and>
    (\<exists>vs v. ListManagedRuleVersions B (ms_ID m) db1 = Inr vs \<and> v \<in> set vs \<and> mv_Version v = rv_Version (rs_Version s) \<and>
       mv_ChecksumSHA256 v = rv_ChecksumSHA256 (rs_Version s) \<and> (\<exists>x. ActivateManagedRuleVersion B (ms_ID m) (mv_ID v) db1 = Inr x))"
  using assms(3)
proof (rule Record_ok)
  fix md snap i db0
  assume up: "upsert_set B now s md db = (i, db0)" "db1 = upsert_version B now i (rs_Version s) snap db0"
  note v = upserted_version [OF up(2)]
  note inv = upsert_set_keeps [OF assms(1,2) up(1)]
  have inv1: "rules_inv B db1" unfolding up(2) by (rule upsert_version_keeps [OF assms(1)]) (use inv in simp_all)
  obtain r where r: "r \<in> set (rule_sets db1)" "s_name r = rs_Name s" "s_id r = i"
    using upserted_set(1) [OF up(1)] v(3) by (auto dest!: find_live)
  have row: "set_row now s md r = r" using upserted_set(2) [OF up(1)] r(1,2) v(3) by simp
  have "s_deleted r = None" using r(1,2) assms(4) up(1) unfolding v(3)
    by (auto simp: upsert_set_def update_row_def row_keys split: option.splits if_splits)
  then have m: "rule_set_of r \<in> set (ListManagedRuleSets collate db1)" using r(1) by (auto simp: ListManagedRuleSets_def)
  obtain w where w: "w \<in> set (rule_versions db1)" "w_set w = i" "w_version w = rv_Version (rs_Version s)" using v(1) by (auto simp: list_ex_iff)
  have ver: "set_version_row (rs_Version s) snap w = w" by (rule v(2) [OF w])
  have uuid: "be_uuid B i = Some i" "be_uuid B (w_id w) = Some (w_id w)"
    using inv1 assms(1) r w(1) unfolding rules_inv_def ids_ok_def generated_ids_def by (metis (no_types, lifting) imageE image_eqI list.set_map subsetD)+
  have "rule_version_of w \<in> set (map rule_version_of (newest w_created (filter (\<lambda>w. w_set w = i) (rule_versions db1))))" using w by simp
  moreover have "ListManagedRuleVersions B i db1 = Inr (map rule_version_of (newest w_created (filter (\<lambda>w. w_set w = i) (rule_versions db1))))"
    by (simp add: ListManagedRuleVersions_def uuid)
  moreover have "\<exists>x. ActivateManagedRuleVersion B i (w_id w) db1 = Inr x"
    using w by (auto simp: ActivateManagedRuleVersion_def uuid list_ex_iff)
  moreover have "mv_ChecksumSHA256 (rule_version_of w) = rv_ChecksumSHA256 (rs_Version s)"
    using arg_cong [OF ver [symmetric], of w_checksum] by (simp add: rule_version_of_def set_version_row_def coalesce_def)
  moreover have "ms_Provider (rule_set_of r) = rs_Provider s" "ms_Source (rule_set_of r) = rs_Source s" "ms_LocalPath (rule_set_of r) = rs_LocalPath s"
    "ms_Enabled (rule_set_of r) = rs_Enabled s"
    using arg_cong [OF row [symmetric], of s_provider] arg_cong [OF row [symmetric], of s_source] arg_cong [OF row [symmetric], of s_path] arg_cong [OF row [symmetric], of s_enabled]
    by (simp_all add: rule_set_of_def set_row_def coalesce_def)
  ultimately show ?thesis using r(2,3) w(3) by (intro bexI [OF _ m]) (auto simp: rule_set_of_def rule_version_of_def)
qed

section \<open>A concrete recording\<close>

definition sample_rules :: rules_ManagedRuleSet where
  "sample_rules = \<lparr>rs_Name = ''OWASP CRS'', rs_Provider = ''owasp'', rs_Source = ''local'', rs_Description = [], rs_LocalPath = ''/rules/crs'', rs_Enabled = True,
     rs_Metadata = JObj [], rs_Version = \<lparr>rv_Version = ''4.0.0'', rv_SourceURI = ''local:///rules/crs'', rv_LocalPath = ''/rules/crs'', rv_ChecksumSHA256 = ''ab'',
       rv_RulesetSnapshot = scan_snapshot ''now'' [''a.conf'']\<rparr>\<rparr>"

lemma sample_recorded:
  "\<exists>db1. RecordManagedRuleSet sample_backend 70 sample_rules sample_db = (Inr (), db1)"
  by (auto simp: RecordManagedRuleSet_def sample_rules_def sample_backend_def recordable_def scan_snapshot_def split: prod.splits)

lemma sample_catalogue: "rules_inv sample_backend sample_db" "rule_sets sample_db = []"
  by (simp_all add: rules_inv_def sample_db_eq ids_ok_def)

lemma sample_consistent: "db_inv sample_backend sample_db"
  using reachable_documents [OF sample_generated sample_jsonb sample_db_reachable] by blast

theorem recording_keeps_catalogue_witness:
  "rules_inv sample_backend (snd (RecordManagedRuleSet sample_backend 70 sample_rules sample_db))"
proof -
  obtain db1 where r: "RecordManagedRuleSet sample_backend 70 sample_rules sample_db = (Inr (), db1)" using sample_recorded by blast
  then show ?thesis using recording_keeps_catalogue [OF sample_generated sample_catalogue(1) sample_consistent r] by simp
qed

theorem recording_twice_witness:
  "fst (RecordManagedRuleSet sample_backend 80 sample_rules (snd (RecordManagedRuleSet sample_backend 70 sample_rules sample_db))) = Inr ()"
proof -
  obtain db1 where r: "RecordManagedRuleSet sample_backend 70 sample_rules sample_db = (Inr (), db1)" using sample_recorded by blast
  then show ?thesis using recording_twice [OF r, of 80] by simp
qed

theorem recorded_set_is_listed_witness:
  "\<exists>m \<in> set (ListManagedRuleSets (\<lambda>_. []) (snd (RecordManagedRuleSet sample_backend 70 sample_rules sample_db))). ms_Name m = ''OWASP CRS''"
proof -
  obtain db1 where r: "RecordManagedRuleSet sample_backend 70 sample_rules sample_db = (Inr (), db1)" using sample_recorded by blast
  have "\<forall>r \<in> set (rule_sets sample_db). s_name r = rs_Name sample_rules \<longrightarrow> s_deleted r = None" by (simp add: sample_catalogue(2))
  from recorded_set_is_listed [OF sample_generated sample_catalogue(1) r this, of "\<lambda>_. []"] show ?thesis
    unfolding r snd_conv by (auto simp: sample_rules_def)
qed

end
