(* ===== verification/Programs.thy ===== *)
theory Programs
  imports Gateway_Main Control_Api_Facts Worker_Facts
begin

text \<open>
  The three programs (\<open>main\<close> of \<open>services/gateway\<close>, \<open>services/control-api\<close> and \<open>services/worker\<close>): what each
  does before it serves, as a function to an exit code or the server it runs, and its life from there to
  its exit as a step relation.  The server of the Go library is modelled by its connections: it accepts
  while it listens, \<open>Shutdown\<close> stops the listener, closes idle connections and waits for the others until
  the deadline of its context.  The gateway adds the audit dispatcher, whose worker runs beside the requests
  and which is shut down after the server.  A locale states what makes a shutdown end, and is interpreted
  for all three programs.
\<close>

section \<open>Up to the server\<close>

datatype 'v launched = Quit nat string | Launched 'v

abbreviation program_version :: string where
  "program_version \<equiv> ''dev''"

definition version_line :: "string \<Rightarrow> string" where
  "version_line service = service @ '' '' @ program_version @ [CHR 0x0A]"

text \<open>The name of the log record of each failed start; every one of them is followed by \<open>os.Exit(1)\<close>.\<close>

fun start_log :: "start_error \<Rightarrow> string" where
  "start_log (LoadConfigFailed _) = ''load_config_failed''"
| "start_log ControlClientInvalid = ''build_policy_provider_failed''"
| "start_log (StoreRejected _) = ''build_policy_provider_failed''"
| "start_log (WAFFailed _) = ''build_waf_failed''"
| "start_log ClickHouseURLInvalid = ''build_clickhouse_audit_sink_failed''"
| "start_log (DispatcherRejected _) = ''build_audit_dispatcher_failed''"
| "start_log (GatewayRejected _) = ''build_gateway_failed''"

text \<open>\<open>configFlag\<close> and \<open>showVersion\<close> are the parsed flags.\<close>

definition gateway_main ::
  "string option \<Rightarrow> bool \<Rightarrow> (string \<Rightarrow> string) \<Rightarrow> (string \<Rightarrow> string option) \<Rightarrow> (string \<Rightarrow> Config option) \<Rightarrow>
   unicode \<Rightarrow> ('x, 'w) outside \<Rightarrow> 'x \<Rightarrow> ('x world Server \<times> 'x world \<times> 'x sink list) launched" where
  "gateway_main configFlag showVersion env readFile yamlDecode U out x =
     (let configPath = (case configFlag of None \<Rightarrow> defaultConfigPath env | Some p \<Rightarrow> p) in
      if showVersion then Quit 0 (version_line ''bedemwaf-gateway'')
      else (case start U out (LoadFile readFile env yamlDecode configPath) x of
              Inl e \<Rightarrow> Quit 1 (start_log e)
            | Inr running \<Rightarrow> Launched running))"

record 's api_http =
  ah_Addr :: string
  ah_Handler :: "'s api_Server"
  ah_ReadHeaderTimeout :: int
  ah_ReadTimeout :: int
  ah_WriteTimeout :: int
  ah_IdleTimeout :: int
  ah_MaxHeaderBytes :: int

fun control_log :: "startup_error \<Rightarrow> string" where
  "control_log AdminKeyRequired = ''admin_api_key_required''"
| "control_log GatewayKeyRequired = ''gateway_api_key_required''"
| "control_log DatabaseConnect = ''database_connect_failed''"
| "control_log EventStoreURL = ''clickhouse_event_store_failed''"

definition seconds :: "int \<Rightarrow> int" where
  "seconds n = n * 1000000000"

definition control_main ::
  "bool \<Rightarrow> (string \<Rightarrow> string) \<Rightarrow> (string \<Rightarrow> bool) \<Rightarrow> (URL \<Rightarrow> string) \<Rightarrow> (database \<times> 'w) Repository \<Rightarrow> 'w event_env \<Rightarrow>
   (string \<Rightarrow> (json \<times> string) option) \<Rightarrow> (database \<times> 'w) api_http launched" where
  "control_main showVersion env connect str repo E read =
     (if showVersion then Quit 0 (version_line ''bedemwaf-control-api'')
      else (case control_api env connect str repo E read of
              Inl e \<Rightarrow> Quit 1 (control_log e)
            | Inr api \<Rightarrow> Launched \<lparr>ah_Addr = co_ListenAddr (Load env), ah_Handler = api, ah_ReadHeaderTimeout = seconds 5,
                ah_ReadTimeout = seconds 30, ah_WriteTimeout = seconds 30, ah_IdleTimeout = seconds 60,
                ah_MaxHeaderBytes = push_bit 20 1\<rparr>))"

record metrics_http =
  mh_Addr :: string
  mh_Routes :: "string list"
  mh_ReadHeaderTimeout :: int
  mh_ReadTimeout :: int
  mh_WriteTimeout :: int
  mh_IdleTimeout :: int

definition startMetricsServer :: "(string \<Rightarrow> string) \<Rightarrow> metrics_http" where
  "startMetricsServer env =
     (let addr = env ''BEDEMWAF_WORKER_METRICS_ADDR'' in
      \<lparr>mh_Addr = (if addr = [] then '':9092'' else addr), mh_Routes = [''GET /metrics''],
       mh_ReadHeaderTimeout = seconds 5, mh_ReadTimeout = seconds 10, mh_WriteTimeout = seconds 10,
       mh_IdleTimeout = seconds 30\<rparr>)"

text \<open>The worker serves its metrics while the scan runs; a failed scan ends the program.\<close>

definition worker_main ::
  "unicode \<Rightarrow> (string \<Rightarrow> json option) \<Rightarrow> string \<Rightarrow> (string \<Rightarrow> node option) \<Rightarrow> backend \<Rightarrow> int \<Rightarrow> (string \<Rightarrow> bool) \<Rightarrow> (string \<Rightarrow> string) \<Rightarrow>
   job_metrics \<Rightarrow> database \<Rightarrow> metrics_http launched \<times> job_metrics \<times> database" where
  "worker_main U parse clock disk B now connect env m db =
     (let metricsServer = startMetricsServer env; rulesDir = env ''BEDEMWAF_RULES_DIR'' in
      if rulesDir = [] then (Launched metricsServer, m, db)
      else (case scanManagedRules U parse clock disk B now connect (env ''BEDEMWAF_DATABASE_URL'') rulesDir m db of
              (Some e, m', db') \<Rightarrow> (Quit 1 ''managed_rules_scan_failed'', m', db')
            | (None, m', db') \<Rightarrow> (Launched metricsServer, m', db')))"

section \<open>The server and its shutdown\<close>

text \<open>\<open>Serving\<close>: waiting for the signal; \<open>Stopping\<close>: inside \<open>server.Shutdown\<close>; \<open>Draining\<close>: inside the
  dispatcher's \<open>Shutdown\<close> (gateway only).\<close>

datatype phase = Serving | Stopping | Draining | Exited nat

text \<open>\<open>sr_active\<close> counts the connections that are new or serve a request (a request may take arbitrarily long:
  nothing forces its response), \<open>sr_idle\<close> those kept alive between
  requests; \<open>sr_failed\<close>: \<open>ListenAndServe\<close> has failed and its goroutine is about to exit; \<open>sr_left\<close>: the
  milliseconds until the deadline of the shutdown.\<close>

record server_run =
  sr_phase :: phase
  sr_accepting :: bool
  sr_active :: nat
  sr_idle :: nat
  sr_failed :: bool
  sr_left :: nat

definition server_init :: server_run where
  "server_init = \<lparr>sr_phase = Serving, sr_accepting = False, sr_active = 0, sr_idle = 0, sr_failed = False, sr_left = 0\<rparr>"

fun exited :: "phase \<Rightarrow> bool" where
  "exited (Exited _) = True"
| "exited _ = False"

definition waiting :: "phase \<Rightarrow> bool" where
  "waiting p \<longleftrightarrow> p = Stopping \<or> p = Draining"

text \<open>The end of a request: the connection is kept alive unless the server is shutting down.\<close>

definition respond :: "server_run \<Rightarrow> server_run" where
  "respond s = s\<lparr>sr_active := sr_active s - 1, sr_idle := sr_idle s + (if sr_phase s = Serving then 1 else 0)\<rparr>"

text \<open>\<open>grace\<close> is the deadline in milliseconds, \<open>after\<close> the phase that follows a successful \<open>server.Shutdown\<close>.\<close>

inductive server_step :: "nat \<Rightarrow> phase \<Rightarrow> server_run \<Rightarrow> server_run \<Rightarrow> bool" for grace after where
  listen: "sr_phase s = Serving \<Longrightarrow> \<not> sr_failed s \<Longrightarrow> \<not> sr_accepting s \<Longrightarrow> server_step grace after s (s\<lparr>sr_accepting := True\<rparr>)"
| listen_failed: "sr_phase s = Serving \<Longrightarrow> \<not> sr_failed s \<Longrightarrow>
    server_step grace after s (s\<lparr>sr_accepting := False, sr_failed := True\<rparr>)"
| exit_failed: "\<not> exited (sr_phase s) \<Longrightarrow> sr_failed s \<Longrightarrow> server_step grace after s (s\<lparr>sr_phase := Exited 1\<rparr>)"
| connect: "\<not> exited (sr_phase s) \<Longrightarrow> sr_accepting s \<Longrightarrow> server_step grace after s (s\<lparr>sr_active := sr_active s + 1\<rparr>)"
| request: "\<not> exited (sr_phase s) \<Longrightarrow> sr_idle s = Suc n \<Longrightarrow>
    server_step grace after s (s\<lparr>sr_idle := n, sr_active := sr_active s + 1\<rparr>)"
| response: "\<not> exited (sr_phase s) \<Longrightarrow> 0 < sr_active s \<Longrightarrow> server_step grace after s (respond s)"
| disconnect: "\<not> exited (sr_phase s) \<Longrightarrow> sr_idle s = Suc n \<Longrightarrow> server_step grace after s (s\<lparr>sr_idle := n\<rparr>)"
| signal: "sr_phase s = Serving \<Longrightarrow>
    server_step grace after s (s\<lparr>sr_phase := Stopping, sr_accepting := False, sr_left := grace\<rparr>)"
| tick: "waiting (sr_phase s) \<Longrightarrow> sr_left s = Suc t \<Longrightarrow> server_step grace after s (s\<lparr>sr_left := t\<rparr>)"
| close_idle: "sr_phase s = Stopping \<Longrightarrow> 0 < sr_idle s \<Longrightarrow> server_step grace after s (s\<lparr>sr_idle := 0\<rparr>)"
| stopped: "sr_phase s = Stopping \<Longrightarrow> sr_active s = 0 \<Longrightarrow> server_step grace after s (s\<lparr>sr_phase := after, sr_idle := 0\<rparr>)"
| stop_failed: "sr_phase s = Stopping \<Longrightarrow> sr_active s = 0 \<Longrightarrow> server_step grace after s (s\<lparr>sr_phase := Exited 1, sr_idle := 0\<rparr>)"
| deadline: "waiting (sr_phase s) \<Longrightarrow> sr_left s = 0 \<Longrightarrow> server_step grace after s (s\<lparr>sr_phase := Exited 1\<rparr>)"

inductive_cases server_stepE: "server_step grace after s s'"

inductive server_reachable :: "nat \<Rightarrow> phase \<Rightarrow> server_run \<Rightarrow> bool" for grace after where
  init: "server_reachable grace after server_init"
| step: "server_reachable grace after s \<Longrightarrow> server_step grace after s s' \<Longrightarrow> server_reachable grace after s'"

text \<open>The control API and the worker's metrics server are such servers and nothing else.\<close>

definition control_step :: "server_run \<Rightarrow> server_run \<Rightarrow> bool" where
  "control_step = server_step 10000 (Exited 0)"

definition worker_step :: "server_run \<Rightarrow> server_run \<Rightarrow> bool" where
  "worker_step = server_step 5000 (Exited 0)"

section \<open>The gateway\<close>

record 's gateway_run =
  gr_server :: server_run
  gr_audit :: "'s audit_system"

definition gateway_init :: "Dispatcher \<Rightarrow> 's \<Rightarrow> 's gateway_run" where
  "gateway_init d w = \<lparr>gr_server = server_init, gr_audit = audit_init d w\<rparr>"

text \<open>The calls of the dispatcher on the audit system with its history, and the next turn of its worker
  (\<open>run\<close>), which waits when the queue is empty and open.\<close>

definition log_audited :: "int \<Rightarrow> Event \<Rightarrow> 's audit_system \<Rightarrow> 's audit_system" where
  "log_audited now e s =
     (case Dispatcher_Log now e (sy_d s) of
        (d', None) \<Rightarrow> s\<lparr>sy_d := d', sy_logged := sy_logged s @ [stamp now e],
          sy_accepted := (if dp_queue d' = dp_queue (sy_d s) then sy_accepted s else sy_accepted s @ [stamp now e])\<rparr>
      | (d', Some p) \<Rightarrow> s\<lparr>sy_d := d', sy_logged := sy_logged s @ [stamp now e], sy_panics := sy_panics s + 1\<rparr>)"

definition close_audited :: "'s audit_system \<Rightarrow> 's audit_system" where
  "close_audited s = s\<lparr>sy_d := Shutdown_close (sy_d s)\<rparr>"

definition run_turn :: "'s sink list \<Rightarrow> 's audit_system \<Rightarrow> 's audit_system option" where
  "run_turn sinks s =
     (let d = sy_d s in
      if dp_done d then None
      else (case dp_inflight d of
              Some e \<Rightarrow> (case Dispatcher_write sinks e (d, sy_w s) of
                  (d', w') \<Rightarrow> Some (s\<lparr>sy_d := d', sy_w := w', sy_written := sy_written s @ [e]\<rparr>))
            | None \<Rightarrow> (case dp_queue d of
                  e # q \<Rightarrow> Some (s\<lparr>sy_d := d\<lparr>dp_queue := q, dp_inflight := Some e\<rparr>\<rparr>)
                | [] \<Rightarrow> if dp_closed d then Some (s\<lparr>sy_d := d\<lparr>dp_done := True\<rparr>\<rparr>) else None)))"

text \<open>The rules of the gateway: the steps of its server; a request that ends with an audit event; the
  dispatcher closed once the server has stopped; a turn of the dispatcher's worker; and the exit once the
  worker is done.\<close>

inductive gateway_step :: "'s sink list \<Rightarrow> 's gateway_run \<Rightarrow> 's gateway_run \<Rightarrow> bool" for sinks where
  server: "server_step 10000 Draining (gr_server s) v \<Longrightarrow> sr_phase v \<noteq> Draining \<or> sr_phase (gr_server s) = Draining \<Longrightarrow>
    gateway_step sinks s (s\<lparr>gr_server := v\<rparr>)"
| audited: "\<not> exited (sr_phase (gr_server s)) \<Longrightarrow> 0 < sr_active (gr_server s) \<Longrightarrow>
    gateway_step sinks s (s\<lparr>gr_server := respond (gr_server s), gr_audit := log_audited now e (gr_audit s)\<rparr>)"
| drain: "server_step 10000 Draining (gr_server s) v \<Longrightarrow> sr_phase (gr_server s) = Stopping \<Longrightarrow> sr_phase v = Draining \<Longrightarrow>
    gateway_step sinks s (s\<lparr>gr_server := v, gr_audit := close_audited (gr_audit s)\<rparr>)"
| worker: "\<not> exited (sr_phase (gr_server s)) \<Longrightarrow> run_turn sinks (gr_audit s) = Some a \<Longrightarrow>
    gateway_step sinks s (s\<lparr>gr_audit := a\<rparr>)"
| drained: "sr_phase (gr_server s) = Draining \<Longrightarrow> dp_done (sy_d (gr_audit s)) \<Longrightarrow>
    gateway_step sinks s (s\<lparr>gr_server := (gr_server s)\<lparr>sr_phase := Exited 0\<rparr>\<rparr>)"

inductive_cases gateway_stepE: "gateway_step sinks s s'"

inductive gateway_reachable :: "'s sink list \<Rightarrow> int \<Rightarrow> 's gateway_run \<Rightarrow> bool" for sinks n where
  init: "NewDispatcher n sinks = Inr d \<Longrightarrow> gateway_reachable sinks n (gateway_init d w)"
| step: "gateway_reachable sinks n s \<Longrightarrow> gateway_step sinks s s' \<Longrightarrow> gateway_reachable sinks n s'"

section \<open>What makes a shutdown end\<close>

text \<open>A program that stops: every step after the signal consumes something (\<open>size\<close>: time, connections,
  queued events), and until it has ended some step is possible.\<close>

locale ending =
  fixes step :: "'s \<Rightarrow> 's \<Rightarrow> bool" and inv :: "'s \<Rightarrow> bool" and stopping :: "'s \<Rightarrow> bool" and ended :: "'s \<Rightarrow> bool"
    and size :: "'s \<Rightarrow> nat"
  assumes keeps: "inv s \<Longrightarrow> step s s' \<Longrightarrow> inv s'"
    and decreases: "inv s \<Longrightarrow> stopping s \<Longrightarrow> step s s' \<Longrightarrow> stopping s' \<and> size s' < size s"
    and live: "inv s \<Longrightarrow> stopping s \<Longrightarrow> \<not> ended s \<Longrightarrow> \<exists>s'. step s s'"
    and final: "ended s \<Longrightarrow> \<not> step s s'"
begin

lemma run_bound:
  assumes "(step ^^ n) s s'" "inv s" "stopping s"
  shows "inv s' \<and> stopping s' \<and> n + size s' \<le> size s"
  using assms
proof (induction n arbitrary: s')
  case (Suc n)
  from Suc.prems(1) obtain m where m: "(step ^^ n) s m" "step m s'" by auto
  with Suc.IH [OF m(1) Suc.prems(2,3)] keeps [of m s'] decreases [of m s'] show ?case by auto
qed simp

lemma stuck_iff_ended: "inv s \<Longrightarrow> stopping s \<Longrightarrow> (\<forall>s'. \<not> step s s') \<longleftrightarrow> ended s"
  using live final by blast

lemma terminates:
  assumes "inv s" "stopping s" "(step ^^ n) s s'"
  shows "n \<le> size s \<and> ((\<forall>s''. \<not> step s' s'') \<longleftrightarrow> ended s')"
proof -
  from run_bound [OF assms(3,1,2)] have "inv s'" "stopping s'" "n + size s' \<le> size s" by auto
  then show ?thesis using stuck_iff_ended by auto
qed

lemma ends: "inv s \<Longrightarrow> stopping s \<Longrightarrow> \<exists>s'. step\<^sup>*\<^sup>* s s' \<and> ended s'"
proof (induction "size s" arbitrary: s rule: less_induct)
  case less
  show ?case
  proof (cases "ended s")
    case False
    with live less.prems obtain m where m: "step s m" by blast
    with less.hyps [of m] decreases [OF less.prems m] keeps [OF less.prems(1) m] show ?thesis
      by (meson converse_rtranclp_into_rtranclp)
  qed blast
qed

end

section \<open>The server\<close>

definition server_inv :: "server_run \<Rightarrow> bool" where
  "server_inv s \<longleftrightarrow> (sr_phase s \<noteq> Serving \<or> sr_failed s \<longrightarrow> \<not> sr_accepting s) \<and>
     (sr_phase s = Draining \<or> sr_phase s = Exited 0 \<longrightarrow> sr_active s = 0 \<and> sr_idle s = 0)"

fun phase_rank :: "phase \<Rightarrow> nat" where
  "phase_rank Serving = 3"
| "phase_rank Stopping = 2"
| "phase_rank Draining = 1"
| "phase_rank (Exited _) = 0"

definition server_size :: "server_run \<Rightarrow> nat" where
  "server_size s = phase_rank (sr_phase s) + sr_left s + 4 * sr_active s + 5 * sr_idle s"

abbreviation server_stopping :: "server_run \<Rightarrow> bool" where
  "server_stopping s \<equiv> sr_phase s \<noteq> Serving"

abbreviation server_ended :: "server_run \<Rightarrow> bool" where
  "server_ended s \<equiv> exited (sr_phase s)"

lemma waiting_simps [simp]: "waiting Stopping" "waiting Draining" "\<not> waiting Serving" "\<not> waiting (Exited c)"
  by (simp_all add: waiting_def)

lemma respond_simps [simp]:
  "sr_phase (respond s) = sr_phase s" "sr_accepting (respond s) = sr_accepting s" "sr_left (respond s) = sr_left s"
  "sr_active (respond s) = sr_active s - 1" "sr_failed (respond s) = sr_failed s"
  "sr_phase s \<noteq> Serving \<Longrightarrow> sr_idle (respond s) = sr_idle s"
  by (simp_all add: respond_def)

lemma server_inv_respond: "server_inv s \<Longrightarrow> server_inv (respond s)"
  by (auto simp: server_inv_def)

lemma server_keeps: "server_step grace after s s' \<Longrightarrow> server_inv s \<Longrightarrow> server_inv s'"
  by (erule server_stepE) (auto simp: server_inv_def server_inv_respond)

lemma server_final: "exited (sr_phase s) \<Longrightarrow> \<not> server_step grace after s s'"
  by (cases "sr_phase s") (auto elim: server_stepE)

lemma server_live: "server_stopping s \<Longrightarrow> \<not> server_ended s \<Longrightarrow>
  \<exists>s'. server_step grace after s s' \<and> (sr_phase s' = sr_phase s \<or> exited (sr_phase s')) \<and> sr_active s' = sr_active s"
proof -
  assume "server_stopping s" "\<not> server_ended s"
  then have w: "waiting (sr_phase s)" by (cases "sr_phase s") auto
  show ?thesis
  proof (cases "sr_left s")
    case 0
    with server_step.deadline [OF w] show ?thesis by fastforce
  next
    case (Suc t)
    with server_step.tick [OF w] show ?thesis by fastforce
  qed
qed

lemma server_decreases:
  assumes "server_step grace after s s'" "server_inv s" "server_stopping s" "after = Draining \<or> exited after"
  shows "server_stopping s' \<and> server_size s' < server_size s"
proof -
  have "phase_rank after < 2" "after \<noteq> Serving" using assms(4) by (cases after; auto)+
  with assms show ?thesis
    by (cases "sr_phase s") (auto elim!: server_stepE simp: server_size_def server_inv_def)
qed

interpretation server: ending "server_step grace (Exited 0)" server_inv server_stopping server_ended server_size for grace
proof
  show "server_inv s'" if "server_inv s" "server_step grace (Exited 0) s s'" for s s' using server_keeps that by blast
  show "server_stopping s' \<and> server_size s' < server_size s"
    if "server_inv s" "server_stopping s" "server_step grace (Exited 0) s s'" for s s'
    using server_decreases that by simp
  show "\<exists>s'. server_step grace (Exited 0) s s'" if "server_inv s" "server_stopping s" "\<not> server_ended s" for s
    using server_live that by blast
  show "\<not> server_step grace (Exited 0) s s'" if "server_ended s" for s s' using server_final that .
qed

lemma server_inv_reachable: "server_reachable grace after s \<Longrightarrow> server_inv s"
proof (induction rule: server_reachable.induct)
  case init
  show ?case by (simp add: server_inv_def server_init_def)
next
  case (step s s')
  then show ?case using server_keeps by blast
qed

text \<open>The control API and the worker: after the signal every run of the program ends, within a bound given by
  the time left and the open connections, and a zero exit code means that every request was served.\<close>

lemma server_shutdown:
  assumes "server_reachable grace (Exited 0) s" "sr_phase s \<noteq> Serving" "(server_step grace (Exited 0) ^^ n) s s'"
  shows "n \<le> server_size s" "(\<forall>s''. \<not> server_step grace (Exited 0) s' s'') \<longleftrightarrow> exited (sr_phase s')"
    "sr_phase s' = Exited 0 \<Longrightarrow> sr_active s' = 0"
  using server.terminates [OF server_inv_reachable [OF assms(1)] assms(2,3)]
    server.run_bound [OF assms(3) server_inv_reachable [OF assms(1)] assms(2)]
  by (auto simp: server_inv_def)

lemmas control_shutdown_terminates = server_shutdown [where grace = 10000, folded control_step_def]
lemmas worker_shutdown_terminates = server_shutdown [where grace = 5000, folded worker_step_def]

section \<open>The gateway stops\<close>

text \<open>Each move of the composed system is a move of the dispatcher's own machine.\<close>

lemma log_audited_step: "audit_step sinks s (log_audited now e s)"
proof -
  obtain d' p where l: "Dispatcher_Log now e (sy_d s) = (d', p)" by fastforce
  then show ?thesis
    using audit_step.log [of now e s d' sinks] audit_step.log_panic [of now e s d' _ sinks] by (cases p) (simp_all add: log_audited_def)
qed

lemma close_audited_step: "audit_step sinks s (close_audited s)"
  unfolding close_audited_def by (rule audit_step.closing)

lemma run_turn_step:
  assumes "run_turn sinks s = Some s'"
  shows "audit_step sinks s s'"
proof (cases "dp_inflight (sy_d s)")
  case (Some e)
  then show ?thesis
    using assms by (auto simp: run_turn_def Let_def intro: audit_step.written split: if_splits prod.splits)
next
  case None
  then show ?thesis
    using assms by (auto simp: run_turn_def Let_def intro: audit_step.receive audit_step.finished split: if_splits list.splits)
qed

lemma audit_inv_moves:
  "audit_inv n s \<Longrightarrow> audit_inv n (log_audited now e s)" "audit_inv n s \<Longrightarrow> audit_inv n (close_audited s)"
  "audit_inv n s \<Longrightarrow> run_turn sinks s = Some s' \<Longrightarrow> audit_inv n s'"
  using audit_inv_step [OF _ log_audited_step [of "[]"]] audit_inv_step [OF _ close_audited_step [of "[]"]]
    audit_inv_step [OF _ run_turn_step [of sinks]] by blast+

lemma log_audited_simps:
  "dp_closed (sy_d (log_audited now e s)) = dp_closed (sy_d s)" "dp_done (sy_d (log_audited now e s)) = dp_done (sy_d s)"
  "\<not> dp_closed (sy_d s) \<Longrightarrow> sy_panics (log_audited now e s) = sy_panics s"
  "pending (sy_d (log_audited now e s)) \<le> pending (sy_d s) + 2"
  by (auto simp: log_audited_def Dispatcher_Log_def Let_def pending_def inflight_def)

lemma close_audited_simps [simp]:
  "dp_closed (sy_d (close_audited s))" "dp_done (sy_d (close_audited s)) = dp_done (sy_d s)" "sy_panics (close_audited s) = sy_panics s"
  "pending (sy_d (close_audited s)) = pending (sy_d s)" "sy_accepted (close_audited s) = sy_accepted s"
  by (simp_all add: close_audited_def Shutdown_close_def pending_def inflight_def)

lemma run_turn_simps:
  assumes "run_turn sinks s = Some s'"
  shows "dp_closed (sy_d s') = dp_closed (sy_d s)" "sy_panics s' = sy_panics s" "\<not> dp_done (sy_d s)"
    "pending (sy_d s') < pending (sy_d s) \<and> dp_done (sy_d s') = dp_done (sy_d s) \<or> pending (sy_d s') = pending (sy_d s) \<and> dp_done (sy_d s')"
  using assms
  by (auto simp: run_turn_def Let_def Dispatcher_write_def pending_def inflight_def split: if_splits option.splits list.splits prod.splits)

definition gateway_inv :: "int \<Rightarrow> 's gateway_run \<Rightarrow> bool" where
  "gateway_inv n s \<longleftrightarrow> server_inv (gr_server s) \<and> audit_inv n (gr_audit s) \<and> sy_panics (gr_audit s) = 0 \<and>
     (dp_closed (sy_d (gr_audit s)) \<longrightarrow> sr_phase (gr_server s) = Draining \<or> server_ended (gr_server s)) \<and>
     (sr_phase (gr_server s) = Exited 0 \<longrightarrow> dp_done (sy_d (gr_audit s)))"

definition gateway_size :: "'s gateway_run \<Rightarrow> nat" where
  "gateway_size s = server_size (gr_server s) + pending (sy_d (gr_audit s)) + (if dp_done (sy_d (gr_audit s)) then 0 else 1)"

lemma server_phases:
  assumes "server_step grace Draining s s'"
  shows "sr_phase s' = Draining \<Longrightarrow> sr_phase s = Draining \<or> sr_phase s = Stopping" "sr_phase s' \<noteq> Exited 0"
    "sr_phase s = Draining \<Longrightarrow> sr_phase s' = Draining \<or> exited (sr_phase s')" "\<not> exited (sr_phase s)"
  using assms by (auto elim!: server_stepE simp: waiting_def)

lemma gateway_keeps:
  assumes "gateway_step sinks s s'" "gateway_inv n s"
  shows "gateway_inv n s'"
  using assms(1)
proof cases
  case (server v)
  with assms(2) server_keeps [OF server(2)] server_phases [OF server(2)] show ?thesis by (auto simp: gateway_inv_def)
next
  case (audited now e)
  then have "\<not> dp_closed (sy_d (gr_audit s))" using assms(2) by (auto simp: gateway_inv_def server_inv_def)
  with audited assms(2)
  show ?thesis by (auto simp: gateway_inv_def audit_inv_moves log_audited_simps server_inv_respond)
next
  case (drain v)
  with assms(2) server_keeps [OF drain(2)]
  show ?thesis by (auto simp: gateway_inv_def audit_inv_moves)
next
  case (worker a)
  with assms(2) audit_inv_moves(3) [OF _ worker(3)] run_turn_simps [OF worker(3)]
  show ?thesis by (auto simp: gateway_inv_def)
next
  case drained
  with assms(2) show ?thesis by (auto simp: gateway_inv_def server_inv_def)
qed

lemma gateway_decreases:
  assumes "gateway_step sinks s s'" "gateway_inv n s" "server_stopping (gr_server s)"
  shows "server_stopping (gr_server s') \<and> gateway_size s' < gateway_size s"
  using assms(1)
proof cases
  case (server v)
  with assms(2,3) server_decreases [OF server(2)] show ?thesis by (auto simp: gateway_inv_def gateway_size_def)
next
  case (audited now e)
  then have "server_size (respond (gr_server s)) + 4 = server_size (gr_server s)"
    using assms(3) by (simp add: server_size_def)
  with audited assms(3) log_audited_simps(4) [of now e "gr_audit s"] show ?thesis
    by (auto simp: gateway_size_def log_audited_simps(2))
next
  case (drain v)
  with assms(2,3) server_decreases [OF drain(2)] show ?thesis by (auto simp: gateway_inv_def gateway_size_def)
next
  case (worker a)
  with assms(3) run_turn_simps [OF worker(3)] show ?thesis by (auto simp: gateway_size_def)
next
  case drained
  with assms(3) show ?thesis by (auto simp: gateway_size_def server_size_def)
qed

lemma gateway_final: "server_ended (gr_server s) \<Longrightarrow> \<not> gateway_step sinks s s'"
  by (auto elim!: gateway_stepE simp: server_final)

text \<open>A step of a program in which \<open>h\<close> of the requests in flight hang: they are never answered, so that the number of
  active connections does not fall below \<open>h\<close>.  For \<open>h = 0\<close> these are all the steps.\<close>

definition hung_step :: "'s sink list \<Rightarrow> nat \<Rightarrow> 's gateway_run \<Rightarrow> 's gateway_run \<Rightarrow> bool" where
  "hung_step sinks h s s' \<longleftrightarrow> gateway_step sinks s s' \<and> h \<le> sr_active (gr_server s')"

lemma hung_step_0 [simp]: "hung_step sinks 0 = gateway_step sinks"
  by (intro ext) (simp add: hung_step_def)

lemma hung_live:
  assumes "server_stopping (gr_server s)" "\<not> server_ended (gr_server s)" "h \<le> sr_active (gr_server s)"
  shows "\<exists>s'. hung_step sinks h s s'"
proof -
  obtain v where v: "server_step 10000 Draining (gr_server s) v" "sr_phase v = sr_phase (gr_server s) \<or> exited (sr_phase v)"
    "sr_active v = sr_active (gr_server s)"
    using server_live [OF assms(1,2)] by blast
  then have "sr_phase v \<noteq> Draining \<or> sr_phase (gr_server s) = Draining" by auto
  from gateway_step.server [OF v(1) this, of sinks] v(3) assms(3) show ?thesis by (force simp: hung_step_def)
qed

interpretation gateway: ending "hung_step sinks h" "\<lambda>s. gateway_inv n s \<and> h \<le> sr_active (gr_server s)"
    "\<lambda>s. server_stopping (gr_server s)" "\<lambda>s. server_ended (gr_server s)" gateway_size for sinks h n
  by unfold_locales (use gateway_keeps gateway_decreases hung_live gateway_final in \<open>unfold hung_step_def, blast\<close>)+

lemma gateway_inv_reachable: "gateway_reachable sinks n s \<Longrightarrow> gateway_inv n s"
proof (induction rule: gateway_reachable.induct)
  case (init d w)
  then have "\<not> dp_closed d" by (auto simp: NewDispatcher_def split: if_splits)
  with audit_inv_init [OF init, of w] show ?case
    by (simp add: gateway_inv_def gateway_init_def server_inv_def server_init_def audit_init_def)
next
  case (step s s')
  then show ?case using gateway_keeps by blast
qed

lemma sr_left_reachable: "gateway_reachable sinks n s \<Longrightarrow> sr_left (gr_server s) \<le> 10000"
proof (induction rule: gateway_reachable.induct)
  case init
  show ?case by (simp add: gateway_init_def server_init_def)
next
  case (step s s')
  have "sr_left v \<le> 10000" if "server_step 10000 Draining (gr_server s) v" for v
    using that step.IH by (auto elim!: server_stepE)
  then show ?case using step.hyps(2) step.IH by (auto elim!: gateway_stepE)
qed

lemma reachable_steps: "(gateway_step sinks)\<^sup>*\<^sup>* s s' \<Longrightarrow> gateway_reachable sinks n s \<Longrightarrow> gateway_reachable sinks n s'"
  by (induction rule: rtranclp_induct) (auto intro: gateway_reachable.step)

section \<open>A clean exit is always within reach\<close>

lemma serve_all:
  assumes "sr_phase (gr_server s) = Stopping"
  shows "\<exists>s'. (gateway_step sinks)\<^sup>*\<^sup>* s s' \<and> sr_phase (gr_server s') = Stopping \<and> sr_active (gr_server s') = 0 \<and> gr_audit s' = gr_audit s"
  using assms
proof (induction "sr_active (gr_server s)" arbitrary: s)
  case (Suc k)
  let ?t = "s\<lparr>gr_server := respond (gr_server s)\<rparr>"
  have "server_step 10000 Draining (gr_server s) (respond (gr_server s))"
    using Suc.hyps(2) Suc.prems by (intro server_step.response) simp_all
  then have t: "gateway_step sinks s ?t" using Suc.prems by (intro gateway_step.server) simp_all
  have "k = sr_active (gr_server ?t)" "sr_phase (gr_server ?t) = Stopping"
    using Suc.hyps(2) [symmetric] Suc.prems by simp_all
  from Suc.hyps(1) [OF this] t show ?case by (auto intro: converse_rtranclp_into_rtranclp)
qed auto

lemma run_turn_closed: "dp_closed (sy_d s) \<Longrightarrow> \<not> dp_done (sy_d s) \<Longrightarrow> \<exists>s'. run_turn sinks s = Some s' \<and> sy_accepted s' = sy_accepted s"
  by (simp add: run_turn_def Let_def split: option.split list.split prod.split)

lemma drain_all:
  assumes "sr_phase (gr_server s) = Draining" "dp_closed (sy_d (gr_audit s))"
  shows "\<exists>s'. (gateway_step sinks)\<^sup>*\<^sup>* s s' \<and> sr_phase (gr_server s') = Exited 0 \<and> sy_accepted (gr_audit s') = sy_accepted (gr_audit s)"
  using assms
proof (induction "gateway_size s" arbitrary: s rule: less_induct)
  case less
  show ?case
  proof (cases "dp_done (sy_d (gr_audit s))")
    case True
    from gateway_step.drained [OF less.prems(1) True] show ?thesis by (intro exI conjI, rule r_into_rtranclp) auto
  next
    case False
    obtain a where a: "run_turn sinks (gr_audit s) = Some a" "sy_accepted a = sy_accepted (gr_audit s)"
      using run_turn_closed [OF less.prems(2) False] by blast
    let ?t = "s\<lparr>gr_audit := a\<rparr>"
    have t: "gateway_step sinks s ?t" using less.prems(1) a(1) by (intro gateway_step.worker) simp_all
    have "gateway_size ?t < gateway_size s" using run_turn_simps [OF a(1)] by (auto simp: gateway_size_def)
    moreover have "dp_closed (sy_d (gr_audit ?t))" using run_turn_simps(1) [OF a(1)] less.prems(2) by simp
    ultimately show ?thesis using less.hyps [of ?t] less.prems(1) t a(2) by (auto intro: converse_rtranclp_into_rtranclp)
  qed
qed

lemma can_stop:
  assumes "sr_phase (gr_server s) = Stopping"
  shows "\<exists>s'. (gateway_step sinks)\<^sup>*\<^sup>* s s' \<and> sr_phase (gr_server s') = Exited 0 \<and> sy_accepted (gr_audit s') = sy_accepted (gr_audit s)"
proof -
  obtain t where t: "(gateway_step sinks)\<^sup>*\<^sup>* s t" "sr_phase (gr_server t) = Stopping" "sr_active (gr_server t) = 0" "gr_audit t = gr_audit s"
    using serve_all [OF assms] by blast
  let ?u = "t\<lparr>gr_server := (gr_server t)\<lparr>sr_phase := Draining, sr_idle := 0\<rparr>, gr_audit := close_audited (gr_audit t)\<rparr>"
  have u: "gateway_step sinks t ?u" using server_step.stopped [OF t(2,3)] t(2) by (intro gateway_step.drain) simp_all
  have "\<exists>s'. (gateway_step sinks)\<^sup>*\<^sup>* ?u s' \<and> sr_phase (gr_server s') = Exited 0 \<and> sy_accepted (gr_audit s') = sy_accepted (gr_audit ?u)"
    by (rule drain_all) simp_all
  with t(1,4) u show ?thesis
    by (metis close_audited_simps(5) gateway_run.select_convs(2) gateway_run.surjective gateway_run.update_convs(1) gateway_run.update_convs(2)
        rtranclp.rtrancl_into_rtrancl rtranclp_trans)
qed

section \<open>Properties\<close>

text \<open>C9: The shutdown of the gateway ends, even when requests hang.  Once the signal has arrived, take any run of the
  program in which \<open>h\<close> of the requests in flight are never answered (any run at all for \<open>h = 0\<close>), whatever the
  interleaving of the other requests, the dispatcher and the clock.  It has at most as many steps as the time left (ten
  seconds at first), the open connections and the queued events allow, and it can only come to rest by exiting; with a
  request that hangs the exit code is not 0.\<close>

theorem gateway_shutdown_terminates:
  assumes "gateway_reachable sinks n s" "sr_phase (gr_server s) \<noteq> Serving" "h \<le> sr_active (gr_server s)"
    and "(hung_step sinks h ^^ k) s s'"
  shows "k \<le> gateway_size s \<and> sr_left (gr_server s) \<le> 10000 \<and>
    ((\<forall>s''. \<not> hung_step sinks h s' s'') \<longleftrightarrow> (\<exists>c. sr_phase (gr_server s') = Exited c \<and> (h = 0 \<or> c \<noteq> 0)))"
proof -
  have inv: "gateway_inv n s \<and> h \<le> sr_active (gr_server s)" using gateway_inv_reachable [OF assms(1)] assms(3) by simp
  have "exited p \<longleftrightarrow> (\<exists>c. p = Exited c)" for p by (cases p) auto
  moreover have "h = 0 \<or> sr_phase (gr_server s') \<noteq> Exited 0"
    using gateway.run_bound [OF assms(4) inv assms(2)] by (auto simp: gateway_inv_def server_inv_def)
  ultimately show ?thesis
    using gateway.terminates [OF inv assms(2,4)] sr_left_reachable [OF assms(1)] by auto
qed

text \<open>C8: The order of the shutdown protects the audit log.  In no reachable state of the gateway has a request
  logged to the closed dispatcher; and when the program exits with code 0, no request is in flight, and every
  logged event has been handed to the sinks or was counted as dropped on a full queue.\<close>

theorem gateway_exit_clean:
  assumes "gateway_reachable sinks n s"
  shows "sy_panics (gr_audit s) = 0 \<and>
    (sr_phase (gr_server s) = Exited 0 \<longrightarrow> sr_active (gr_server s) = 0 \<and> sy_written (gr_audit s) = sy_accepted (gr_audit s) \<and>
       length (sy_logged (gr_audit s)) = length (sy_written (gr_audit s)) + am_dropped (dp_metrics (sy_d (gr_audit s))))"
  using gateway_inv_reachable [OF assms] by (auto simp: gateway_inv_def server_inv_def audit_inv_def inflight_def)

text \<open>C28: A clean exit stays within reach: from every state in which the server is shutting down, however many
  requests are in flight and events queued, a run leads to exit code 0 with all accepted events written.\<close>

theorem gateway_can_stop:
  assumes "gateway_reachable sinks n s" "sr_phase (gr_server s) = Stopping"
  shows "\<exists>s'. (gateway_step sinks)\<^sup>*\<^sup>* s s' \<and> sr_phase (gr_server s') = Exited 0 \<and> sy_written (gr_audit s') = sy_accepted (gr_audit s)"
proof -
  obtain s' where s': "(gateway_step sinks)\<^sup>*\<^sup>* s s'" "sr_phase (gr_server s') = Exited 0" "sy_accepted (gr_audit s') = sy_accepted (gr_audit s)"
    using can_stop [OF assms(2)] by blast
  have "gateway_inv n s'" using gateway_inv_reachable reachable_steps [OF s'(1) assms(1)] by blast
  with s' show ?thesis by (auto simp: gateway_inv_def audit_inv_def inflight_def)
qed

text \<open>Without a clean exit events can be lost: when the deadline passes while the server waits for a request, the program
  exits before the dispatcher has been closed, whatever is left in its queue.\<close>

lemma deadline_exits:
  assumes "waiting (sr_phase (gr_server s))"
  shows "(gateway_step sinks)\<^sup>*\<^sup>* s (s\<lparr>gr_server := (gr_server s)\<lparr>sr_left := 0, sr_phase := Exited 1\<rparr>\<rparr>)"
  using assms
proof (induction "sr_left (gr_server s)" arbitrary: s)
  case 0
  have "(gr_server s)\<lparr>sr_left := 0\<rparr> = gr_server s" using 0(1) by (cases "gr_server s") simp
  with gateway_step.server [OF server_step.deadline [OF 0(2) 0(1) [symmetric]]] show ?case
    by (intro r_into_rtranclp) simp
next
  case (Suc t)
  let ?u = "s\<lparr>gr_server := (gr_server s)\<lparr>sr_left := t\<rparr>\<rparr>"
  have "gateway_step sinks s ?u"
    using server_step.tick [OF Suc.prems Suc.hyps(2) [symmetric]] by (intro gateway_step.server) simp_all
  moreover have "(gateway_step sinks)\<^sup>*\<^sup>* ?u (s\<lparr>gr_server := (gr_server s)\<lparr>sr_left := 0, sr_phase := Exited 1\<rparr>\<rparr>)"
    using Suc.hyps(1) [of ?u] Suc.prems by simp
  ultimately show ?case by (rule converse_rtranclp_into_rtranclp)
qed

text \<open>What \<open>main\<close> launches is an initial state of this machine, with the sinks of the configuration.\<close>

lemma launched_reachable:
  assumes "gateway_main configFlag showVersion env readFile yamlDecode U out x = Launched (srv, w, sinks)"
  shows "gateway_reachable sinks 1024 (gateway_init (wd_dispatcher w) (wd_ext w))"
proof -
  have "\<exists>loaded. start U out loaded x = Inr (srv, w, sinks)"
    using assms by (auto simp: gateway_main_def Let_def split: if_splits sum.splits)
  then obtain loaded where "start U out loaded x = Inr (srv, w, sinks)" ..
  then show ?thesis by (rule start_services) (rule gateway_reachable.init)
qed

text \<open>A launched control API has both keys, so that its bearer checks can succeed at all; a missing key ends
  the program.\<close>

lemma control_main_has_keys:
  assumes "control_main showVersion env connect str repo E read = Launched h"
  shows "Enabled (sv_adminAuth (ah_Handler h))" "Enabled (sv_gatewayAuth (ah_Handler h))"
  using assms
  by (auto simp: control_main_def control_api_def NewServer_def ConfigureSecurity_def NewStaticBearer_def Enabled_def Let_def
      split: if_splits sum.splits option.splits)

text \<open>The worker exits before it waits for the signal exactly when the scan fails; without a rules directory it
  touches neither the counters nor the database.\<close>

lemma worker_main_quits:
  "fst (worker_main U parse clock disk B now connect env m db) = Quit 1 ''managed_rules_scan_failed'' \<longleftrightarrow>
     env ''BEDEMWAF_RULES_DIR'' \<noteq> [] \<and>
     fst (scanManagedRules U parse clock disk B now connect (env ''BEDEMWAF_DATABASE_URL'') (env ''BEDEMWAF_RULES_DIR'') m db) \<noteq> None"
  by (auto simp: worker_main_def Let_def split: prod.splits option.splits)

section \<open>Witnesses\<close>

definition sample_stopping :: "string list gateway_run" where
  "sample_stopping = (gateway_init sample_dispatcher [])\<lparr>gr_server := server_init\<lparr>sr_phase := Stopping, sr_active := 1, sr_left := 10000\<rparr>\<rparr>"

lemma sample_stopping_reachable: "gateway_reachable [ok_sink] 1 sample_stopping"
proof -
  let ?g = "\<lambda>v. (gateway_init sample_dispatcher [])\<lparr>gr_server := v\<rparr> :: string list gateway_run"
  have step: "gateway_reachable [ok_sink] 1 (?g v')"
    if "gateway_reachable [ok_sink] 1 (?g v)" "server_step 10000 Draining v v'" "sr_phase v' \<noteq> Draining" for v v'
    using gateway_reachable.step [OF that(1) gateway_step.server [of "?g v" v']] that by simp
  have "gateway_reachable [ok_sink] 1 (?g server_init)"
    using gateway_reachable.init [OF sample_new] by (simp add: gateway_init_def)
  then have "gateway_reachable [ok_sink] 1 (?g (server_init\<lparr>sr_accepting := True\<rparr>))"
    by (rule step) (use server_step.listen [of server_init] in \<open>simp_all add: server_init_def\<close>)
  then have "gateway_reachable [ok_sink] 1 (?g (server_init\<lparr>sr_accepting := True, sr_active := 1\<rparr>))"
    by (rule step) (use server_step.connect [of "server_init\<lparr>sr_accepting := True\<rparr>"] in \<open>simp_all add: server_init_def\<close>)
  then show ?thesis unfolding sample_stopping_def
    by (rule step) (use server_step.signal [of "server_init\<lparr>sr_accepting := True, sr_active := 1\<rparr>"] in \<open>simp_all add: server_init_def\<close>)
qed

definition sample_served :: "string list gateway_run" where
  "sample_served = sample_stopping\<lparr>gr_server := respond (gr_server sample_stopping), gr_audit := log_audited 5 zero_Event (gr_audit sample_stopping)\<rparr>"

lemma sample_served_step: "gateway_step [ok_sink] sample_stopping sample_served"
  unfolding sample_served_def by (rule gateway_step.audited) (simp_all add: sample_stopping_def)

lemma sample_served_reachable: "gateway_reachable [ok_sink] 1 sample_served"
  by (rule gateway_reachable.step [OF sample_stopping_reachable sample_served_step])

lemma sample_served_simps:
  "sr_phase (gr_server sample_served) = Stopping" "sy_accepted (gr_audit sample_served) = [stamp 5 zero_Event]"
  by (simp_all add: sample_served_def sample_stopping_def log_audited_def gateway_init_def audit_init_def sample_logged)
    (simp add: sample_dispatcher_def)

lemma deadline_loses_events:
  "\<exists>s. gateway_reachable [ok_sink] 1 s \<and> sr_phase (gr_server s) = Exited 1 \<and>
     sy_accepted (gr_audit s) = [stamp 5 zero_Event] \<and> sy_written (gr_audit s) = []"
proof -
  have "sy_written (gr_audit sample_served) = []"
    by (simp add: sample_served_def sample_stopping_def log_audited_def gateway_init_def audit_init_def sample_logged)
  moreover have "waiting (sr_phase (gr_server sample_served))" by (simp add: sample_served_simps)
  ultimately show ?thesis
    using reachable_steps [OF deadline_exits sample_served_reachable] sample_served_simps(2)
    by (intro exI [of _ "sample_served\<lparr>gr_server := (gr_server sample_served)\<lparr>sr_left := 0, sr_phase := Exited 1\<rparr>\<rparr>"]) simp
qed

theorem gateway_shutdown_terminates_witness:
  "(hung_step [ok_sink] 0 ^^ 1) sample_stopping sample_served \<and> 1 \<le> gateway_size sample_stopping \<and>
   (\<exists>s. hung_step [ok_sink] 0 sample_served s) \<and> (\<exists>s. hung_step [ok_sink] 1 sample_stopping s)"
proof -
  have one: "(hung_step [ok_sink] 0 ^^ 1) sample_stopping sample_served"
    using sample_served_step unfolding relpowp_1 by simp
  have none: "(hung_step [ok_sink] 1 ^^ 0) sample_stopping sample_stopping" by simp
  have "sr_phase (gr_server sample_stopping) = Stopping" "1 \<le> sr_active (gr_server sample_stopping)"
    by (simp_all add: sample_stopping_def)
  with gateway_shutdown_terminates [OF sample_stopping_reachable _ _ one]
    gateway_shutdown_terminates [OF sample_stopping_reachable _ _ none] one sample_served_simps(1)
  show ?thesis by auto
qed

theorem gateway_exit_clean_witness:
  "\<exists>s. gateway_reachable [ok_sink] 1 s \<and> sr_phase (gr_server s) = Exited 0 \<and> sy_panics (gr_audit s) = 0 \<and>
     sy_written (gr_audit s) = [stamp 5 zero_Event]"
proof -
  obtain s where s: "(gateway_step [ok_sink])\<^sup>*\<^sup>* sample_served s" "sr_phase (gr_server s) = Exited 0"
    "sy_accepted (gr_audit s) = [stamp 5 zero_Event]"
    using can_stop [OF sample_served_simps(1), of "[ok_sink]"] sample_served_simps(2) by auto
  have r: "gateway_reachable [ok_sink] 1 s" by (rule reachable_steps [OF s(1) sample_served_reachable])
  with s gateway_exit_clean [OF r] show ?thesis by auto
qed

theorem gateway_can_stop_witness:
  "\<exists>s'. (gateway_step [ok_sink])\<^sup>*\<^sup>* sample_served s' \<and> sr_phase (gr_server s') = Exited 0 \<and> sy_written (gr_audit s') = [stamp 5 zero_Event]"
  using gateway_can_stop [OF sample_served_reachable sample_served_simps(1)] by (simp add: sample_served_simps(2))

end
