(* ===== verification/Spec2Isabelle.thy ===== *)
theory Spec2Isabelle
  imports Control_Events_Facts Planes Programs
begin

text \<open>
  \<^bold>\<open>Verification of BedemWAF\<close>

  BedemWAF is a web application firewall in Go, in three programs.  The \<^emph>\<open>gateway\<close> (\<open>services/gateway\<close>) is
  the data plane: a reverse proxy that looks up the policy of the requested host, decides whether a request is
  allowed, counted or blocked, forwards it to the origin of the application or answers with an error, and
  records an audit event.  The \<^emph>\<open>control API\<close> (\<open>services/control-api\<close>) is the control plane: an HTTP interface
  over PostgreSQL in which tenants keep applications and policies, publish versions of a policy, and search the
  audit events in ClickHouse; gateways fetch compiled policies from it.  The \<^emph>\<open>worker\<close> (\<open>services/worker\<close>) scans a
  directory of managed WAF rules and records the rule sets in the same database.

  The programs meet in four places, and each of them is part of the model: the JSON of a published policy
  (\<open>models.GatewayPolicy\<close> written by the control plane, \<open>gatewayPolicy\<close> read by the gateway), the tables of the
  rule catalogue (written by the worker, listed by the control plane), the rows of audit events, and the
  conditions of rules, which both planes validate with code of their own.

  \<^bold>\<open>How Go is rendered.\<close>  A struct is a \<open>record\<close>, a tagged choice a \<open>datatype\<close>, a function with an error result a
  sum (\<open>Inl\<close> the error), a panic a value that travels to the place that recovers it.  Strings are lists of bytes.
  \<open>int\<close> and \<open>int64\<close> are integers with \<open>wrap64\<close> wherever an operation can overflow; the words of SHA-256, of
  addresses and of the ClickHouse row are \<open>word\<close>s of their width.  State is passed explicitly; what runs
  concurrently (the audit dispatcher, lookups of the remote policy, the life of a process) is an \<open>inductive\<close> step
  relation whose properties hold in all reachable states.  Names follow the source; a prefix is added where two
  packages use the same name (\<open>api_\<close>, \<open>control_\<close>, \<open>events_\<close>, \<open>rules_\<close>, \<open>coraza_\<close>).

  \<^bold>\<open>The Go library.\<close>  What the programs use of it is written out: \<open>Go_Strings\<close> (\<open>strings\<close>, \<open>strconv\<close>, \<open>utf8\<close>, \<open>hex\<close>),
  \<open>Go_Netip\<close> with \<open>Go_Netip_Facts\<close> (addresses, prefixes), \<open>Go_Url\<close>, \<open>Go_Http\<close> (headers, response writers),
  \<open>Go_Proxy\<close> (\<open>httputil.ReverseProxy\<close>), \<open>Go_Sha256\<close>, \<open>Go_Json\<close> (decoding of JSON values).  \<open>Prelude\<close> holds the
  shared conventions and lemmas.

  \<^bold>\<open>The gateway.\<close>
  \<^item> \<open>Decision\<close> (\<open>internal/decision/decision.go\<close>): the decision values and the enforcement of a mode.
  \<^item> \<open>Config\<close> (\<open>internal/config/config.go\<close>): defaults, validation, \<open>LoadFile\<close>.
  \<^item> \<open>Policy\<close> and \<open>Policy_Eval\<close> (\<open>internal/policy/store.go\<close>): compilation of an application and the store of hosts;
    matching of conditions, IP lists and custom rules.  The lemmas give the invariant of compiled policies, a
    denotation of conditions as boolean expressions that parser and matcher implement together, and the rule list as
    a first-match list.  The locale \<open>rule_parser\<close> proves the compilation of rule lists once for custom rules and rate
    limits; \<open>policy_provider\<close> is what the handler expects of a policy source, and is interpreted for the local
    store and (in \<open>Policy_Client\<close>) for the remote provider.
  \<^item> \<open>Ratelimit\<close> (\<open>internal/ratelimit/ratelimit.go\<close>): the fixed-window limiter over a counter store, with the locales
    \<open>contained_store\<close> (which panics a store can raise), \<open>counter_store\<close> and \<open>reliable_store\<close> and their interpretations for the memory store, the failing store
    and Redis; exact counting, separation of counter keys, the wire format of Redis.
  \<^item> \<open>Waf\<close> (\<open>internal/waf\<close>): the engine that allows everything and the Coraza adapter.
  \<^item> \<open>Redaction\<close> and \<open>Audit_Log\<close> (\<open>internal/audit\<close>): redacted queries, the sinks, and the dispatcher as a state machine
    (\<open>audit_step\<close>) with its accounting invariant; \<open>Metrics\<close> (\<open>internal/metrics/metrics.go\<close>): what is reported to Prometheus.
  \<^item> \<open>Policy_Client\<close> and \<open>Policy_Json\<close> (\<open>internal/policyclient/client.go\<close>): fetching, decoding, the cache with its fail
    behaviours.  \<open>Provider_Lookup\<close> is the method of one caller, \<open>lookup_step\<close> the interleaving of many under the locks of
    the hosts; the former is shown to be a run of the latter, and
    every run of concurrent lookups to come to an end with all locks released.
  \<^item> \<open>Gateway\<close> (\<open>internal/proxy/gateway.go\<close>): the whole handler, from the client address to the recovery of panics, over
    the record \<open>services\<close> of what it calls; \<open>serve_request\<close> is its body with the panic it ends in, \<open>ServeHTTP\<close> adds the
    recovery.  \<open>Gateway_Facts\<close> proves the precedence of decisions, when the origin is contacted, and the treatment of bodies
    and client addresses; what client and audit log get is proved in the locale \<open>audited_services\<close>, for services whose
    logging does not panic in the states the handler can meet.
  \<^item> \<open>Gateway_Main\<close> (\<open>cmd/gateway/main.go\<close>): the components built from a configuration.  \<open>start\<close> gives the server and
    its first world, and \<open>serving\<close> the worlds it reaches: after requests, and after whatever the dispatcher's worker and
    the outside do meanwhile, as long as the audit queue stays open (it is closed after the last request, which \<open>Programs\<close>
    proves).  The locale \<open>gateway_services\<close> states what keeps a handler from faults; its interpretation for the installed
    services, and that of \<open>audited_services\<close>, give the properties of every started gateway.

  \<^bold>\<open>The control plane.\<close>
  \<^item> \<open>Control_Validation\<close> (\<open>internal/httpapi/validation.go\<close> and the checks of \<open>server.go\<close>), with \<open>Control_Validation_Facts\<close>:
    agreement with the gateway on conditions and rules.
  \<^item> \<open>Control_Models\<close> (\<open>internal/models/models.go\<close>): resources, requests and the JSON of a policy.
  \<^item> \<open>Control_Db\<close> (\<open>internal/db/db.go\<close>): every query and transaction over the tables of the migration, their constraints
    included.  \<open>Control_Db_Facts\<close> says what a call can change, \<open>Control_Db_Invariant\<close> proves the invariant of the tables for
    all sequences of calls, \<open>Control_Db_Documents\<close> the invariant of the stored documents, and \<open>Control_Db_Spec\<close> the promises
    to callers: isolation of tenants, effect of a publication, optimistic locking.
  \<^item> \<open>Control_Events\<close> (\<open>internal/events/events.go\<close>) and \<open>Control_Events_Facts\<close>: searches, whose events they can
    return, and summaries of simulations.
  \<^item> \<open>Control_Config\<close> (\<open>internal/config\<close>, \<open>internal/auth\<close>): settings and bearer tokens.
  \<^item> \<open>Control_Api\<close> (\<open>internal/httpapi/server.go\<close>, \<open>middleware.go\<close>, \<open>internal/metrics\<close>): routes, guards, bodies, all
    handlers and the middleware.  \<open>Control_Api_Facts\<close> proves the need of credentials, the isolation of tenants and the
    preservation of the invariants for requests; the contract between handlers and storage are the locales
    \<open>tenant_repository\<close> and \<open>tenant_api\<close>, interpreted for the PostgreSQL repository and the ClickHouse store.

  \<^bold>\<open>The worker and the compositions.\<close>
  \<^item> \<open>Worker\<close> (\<open>internal/rules\<close>, \<open>internal/metrics\<close>, \<open>cmd/worker/main.go\<close>) and \<open>Worker_Facts\<close>: the scan, its checksums, the recording,
    and what the control plane lists afterwards.
  \<^item> \<open>Planes\<close>: a policy that the control plane validates and compiles is decoded and compiled by the gateway.
  \<^item> \<open>Programs\<close> (the three \<open>main\<close> functions): exit codes of failed starts, and the life of each process as a step
    relation over connections, time and, in the gateway, the dispatcher.  The locale \<open>ending\<close> proves termination from a
    measure and is interpreted for the server of the control API and the worker and for the gateway; the order of the
    shutdown is shown to protect the audit log.

  \<^bold>\<open>What is an argument.\<close>  Code outside the repository is never invented.  PostgreSQL's own decisions are the record
  \<open>backend\<close> (texts as UUIDs, generated identifiers, what \<open>jsonb\<close> stores); the hypotheses \<open>generated_ids\<close> and \<open>jsonb_ok\<close> say that
  generated identifiers are fresh UUIDs and that \<open>jsonb\<close> reads back the object members it was given, and a concrete
  backend satisfies both.  The ClickHouse exchange is \<open>en_send\<close> (control plane) and the posting function of the sink
  (gateway), the connection to Redis is \<open>os_redis\<close>, the Coraza library the record \<open>transaction\<close>, the origin
  \<open>os_origin\<close>, the control plane seen from the gateway \<open>os_control\<close>.  Files, environment, flags, the clock (\<open>os_now\<close>, read anew by
  every call), the reader of JSON and YAML texts
  and Go's Unicode tables (from code point 128 on) are arguments as well.  The hypothesis
  \<open>clickhouse_filters\<close> says that ClickHouse evaluates the \<open>WHERE\<close> clause of a query: the rows it answers to a query with the
  condition on the tenant carry the tenant of the parameter; a concrete exchange satisfies it.  Of Redis nothing is
  assumed: an array reply of impossible length, on which the reader of the source panics, is one of the panics from outside
  that the theorem on faults names.

  \<^bold>\<open>Termination, bounds and fuel.\<close>  No definition needs fuel: loops recurse on lists, digits or trees, and the step relations
  are unbounded.  A run of the gateway after the signal is bounded by \<open>gateway_size\<close>: the milliseconds left (10000 at
  first, 5000 in the worker), four steps for an active and five for an idle connection, two for a queued and one for a
  written event; it holds also for runs in which some requests in flight are never answered (\<open>hung_step\<close>).  Concurrent lookups
  need at most three steps for each caller inside.  The queue of the dispatcher holds 1024 events; the counting theorem of the limiter is stated for fewer than
  \<open>2 ^ 62\<close> requests, so that its 64-bit counters do not wrap.

  \<^bold>\<open>Assumptions on documents.\<close>  Decoding follows \<open>encoding/json\<close> also where an object names a key twice, up to the capacity of
  slices (see \<open>Go_Json\<close>); the theorem on both planes asks that a snapshot names each of its parts once up to case, and that the
  host of the origin consists of plain characters, because the two planes disagree on other documents.

  \<^bold>\<open>Not modelled.\<close>  Log records (only their names at start-up); deadlines of single requests, database calls and
  sinks, whose effect is that of a failure of the call; the texts of JSON and YAML; the page of metrics, which
  the Prometheus library renders; redirects of \<open>http.ServeMux\<close> for paths that are not clean; opening a pool beyond
  whether it succeeds; a signal before \<open>main\<close> waits for it; panics of third-party code outside requests.  The
  single struct of \<open>services/worker/internal/events\<close> is used by no code.  The demonstration origin, the dashboard (TypeScript),
  container files and scripts are no part of the Go programs; of the SQL migrations the constraints are part of \<open>Control_Db\<close>.
\<close>

end
